(* ===== verification/Prelude.thy ===== *)
theory Prelude
  imports Main "HOL-Library.Multiset" "HOL-Library.Char_ord" "HOL-Library.List_Lexorder" "HOL-Library.AList" "HOL-Library.Code_Target_Nat"
begin

text \<open>
  Shared ground of the development: the error values of the program, the way Go's
  \<open>if err != nil { return err }\<close> is written, and a few facts on lists and association
  lists that several components use.

  Go strings are byte strings, so \<^typ>\<open>string\<close> (a list of 8-bit characters) is used as it
  is. Go's \<open>int\<close> and \<open>int64\<close> are \<^typ>\<open>int\<close>, with the range checks and the
  places where the code could overflow written out. A Go map is an association list with
  distinct keys: its order is the (unspecified) iteration order of the map, and the theorems
  say where that order can be observed.
\<close>

section \<open>Errors\<close>

text \<open>
  An error value. \<open>Errorf s\<close> is an \<open>fmt.Errorf\<close> or \<open>errors.New\<close> whose text is
  \<open>s\<close>; \<open>Wrapped a e b\<close> is \<open>fmt.Errorf("a%wb", e)\<close>, which keeps \<open>e\<close>
  recognisable for \<open>errors.Is\<close> and \<open>errors.As\<close>; \<open>Stopped\<close> is the sentinel
  \<open>errStopped\<close> of \<open>internal/migration/state.go\<close>, and \<open>Restored e\<close> the type
  \<open>errRestored\<close> of \<open>internal/migration/live.go\<close>, which has no \<open>Unwrap\<close>.
\<close>

datatype err =
    Errorf string
  | Wrapped string err string
  | Stopped
  | Restored err

fun err_text :: "err \<Rightarrow> string" where
  "err_text (Errorf s) = s"
| "err_text (Wrapped a e b) = a @ err_text e @ b"
| "err_text Stopped = ''stopped by the operator''"
| "err_text (Restored e) = err_text e"

text \<open>\<open>errors.Is(err, errStopped)\<close>.\<close>

fun is_stopped :: "err \<Rightarrow> bool" where
  "is_stopped (Errorf s) = False"
| "is_stopped (Wrapped a e b) = is_stopped e"
| "is_stopped Stopped = True"
| "is_stopped (Restored e) = False"

text \<open>\<open>errors.As(err, &restored)\<close>: the cause it finds.\<close>

fun as_restored :: "err \<Rightarrow> err option" where
  "as_restored (Errorf s) = None"
| "as_restored (Wrapped a e b) = as_restored e"
| "as_restored Stopped = None"
| "as_restored (Restored e) = Some e"

text \<open>\<open>%v\<close> of an error that may be nil.\<close>

definition err_v :: "err option \<Rightarrow> string" where
  "err_v e = (case e of None \<Rightarrow> ''<nil>'' | Some x \<Rightarrow> err_text x)"

type_synonym 'a result = "err + 'a"

text \<open>\<open>x, err := f(); if err != nil { return err }; \<dots>\<close>\<close>

definition and_then :: "'e + 'a \<Rightarrow> ('a \<Rightarrow> 'e + 'b) \<Rightarrow> 'e + 'b" where
  "and_then r k = (case r of Inl e \<Rightarrow> Inl e | Inr x \<Rightarrow> k x)"

definition guard :: "bool \<Rightarrow> 'e \<Rightarrow> ('e + 'b) \<Rightarrow> 'e + 'b" where
  "guard ok e k = (if ok then k else Inl e)"

text \<open>A loop over a list whose body may return an error.\<close>

fun fold_result :: "('a \<Rightarrow> 's \<Rightarrow> 'e + 's) \<Rightarrow> 'a list \<Rightarrow> 's \<Rightarrow> 'e + 's" where
  "fold_result f [] s = Inr s"
| "fold_result f (x # xs) s = and_then (f x s) (fold_result f xs)"

definition is_ok :: "'e + 'a \<Rightarrow> bool" where
  "is_ok r = (case r of Inl _ \<Rightarrow> False | Inr _ \<Rightarrow> True)"

definition error_of :: "err + 'a \<Rightarrow> err option" where
  "error_of r = (case r of Inl e \<Rightarrow> Some e | Inr _ \<Rightarrow> None)"

lemma and_then_simps [simp]:
  "and_then (Inl e) k = Inl e"
  "and_then (Inr x) k = k x"
  by (simp_all add: and_then_def)

lemma and_then_Inr [simp]: "and_then r k = Inr y \<longleftrightarrow> (\<exists>x. r = Inr x \<and> k x = Inr y)"
  by (cases r) auto

lemma guard_Inr [simp]: "guard b e k = Inr y \<longleftrightarrow> b \<and> k = Inr y"
  by (simp add: guard_def)

lemma guard_simps [simp]: "guard True e k = k" "guard False e k = Inl e"
  by (simp_all add: guard_def)

lemma is_ok_simps [simp]: "is_ok (Inl e) = False" "is_ok (Inr x) = True"
  by (simp_all add: is_ok_def)

lemma error_of_simps [simp]: "error_of (Inl e) = Some e" "error_of (Inr x) = None"
  by (simp_all add: error_of_def)

lemma fold_result_append:
  "fold_result f (xs @ ys) s = and_then (fold_result f xs s) (fold_result f ys)"
  by (induction xs arbitrary: s) (auto simp: and_then_def split: sum.splits)

lemma fold_result_invariant:
  assumes "\<And>x s s'. x \<in> set xs \<Longrightarrow> P s \<Longrightarrow> f x s = Inr s' \<Longrightarrow> P s'"
    and "P s" and "fold_result f xs s = Inr s'"
  shows "P s'"
  using assms
proof (induction xs arbitrary: s)
  case Nil
  then show ?case by simp
next
  case (Cons x xs)
  from Cons.prems(3) obtain t where t: "f x s = Inr t" "fold_result f xs t = Inr s'"
    by auto
  with Cons.prems have "P t" by (meson list.set_intros(1))
  with Cons.IH Cons.prems(1) t(2) show ?case by (meson list.set_intros(2))
qed

section \<open>Association lists as Go maps\<close>

type_synonym ('k, 'v) gomap = "('k \<times> 'v) list"

definition keys :: "('k, 'v) gomap \<Rightarrow> 'k list" where
  "keys m = map fst m"

text \<open>\<open>m[k]\<close> of a string-valued map: the zero value for a missing key.\<close>

definition lookup0 :: "('k, string) gomap \<Rightarrow> 'k \<Rightarrow> string" where
  "lookup0 m k = (case map_of m k of None \<Rightarrow> [] | Some v \<Rightarrow> v)"

definition has_key :: "('k, 'v) gomap \<Rightarrow> 'k \<Rightarrow> bool" where
  "has_key m k = (map_of m k \<noteq> None)"

definition put :: "('k, 'v) gomap \<Rightarrow> 'k \<Rightarrow> 'v \<Rightarrow> ('k, 'v) gomap" where
  "put m k v = AList.update k v m"

definition del :: "('k, 'v) gomap \<Rightarrow> 'k \<Rightarrow> ('k, 'v) gomap" where
  "del m k = AList.delete k m"

text \<open>What a Go map promises: every key occurs once.\<close>

definition wf_map :: "('k, 'v) gomap \<Rightarrow> bool" where
  "wf_map m = distinct (keys m)"

lemma has_key_iff: "has_key m k \<longleftrightarrow> k \<in> set (keys m)"
  by (auto simp: has_key_def keys_def map_of_eq_None_iff)

lemma wf_map_Nil [simp]: "wf_map []"
  by (simp add: wf_map_def keys_def)

lemma map_of_put [simp]: "map_of (put m k v) = (map_of m)(k \<mapsto> v)"
  by (simp add: put_def update_conv')

lemma map_of_del [simp]: "map_of (del m k) = (map_of m)(k := None)"
  by (simp add: del_def delete_conv')

lemma wf_map_put [simp]: "wf_map m \<Longrightarrow> wf_map (put m k v)"
  by (simp add: wf_map_def keys_def put_def distinct_update)

lemma wf_map_del [simp]: "wf_map m \<Longrightarrow> wf_map (del m k)"
  by (simp add: wf_map_def keys_def del_def distinct_delete)

lemma set_keys_put [simp]: "set (keys (put m k v)) = insert k (set (keys m))"
  by (simp add: keys_def put_def dom_update)

lemma put_fresh: "\<not> has_key m k \<Longrightarrow> put m k v = m @ [(k, v)]"
  by (induction m) (auto simp: put_def has_key_def split: if_splits)

lemma wf_map_perm: "wf_map m \<Longrightarrow> mset m = mset m' \<Longrightarrow> wf_map m'"
  unfolding wf_map_def keys_def by (metis mset_eq_imp_distinct_iff mset_map)

lemma map_of_perm:
  assumes "wf_map m" and "mset m = mset m'"
  shows "map_of m = map_of m'"
proof -
  from assms have "distinct (map fst m)" "distinct (map fst m')" "set m = set m'"
    using wf_map_perm [OF assms] by (auto simp: wf_map_def keys_def dest: mset_eq_setD)
  then show ?thesis by (simp add: map_of_inject_set)
qed

section \<open>Lists\<close>

lemma sort_perm_unique: "mset xs = mset ys \<Longrightarrow> sort xs = sort (ys :: 'a :: linorder list)"
  by (rule properties_for_sort) simp_all

lemma sort_key_perm_unique:
  assumes "mset xs = mset ys" and "distinct (map f xs)"
  shows "sort_key f xs = sort_key f ys"
  by (rule sort_key_inj_key_eq) (use assms in \<open>simp_all add: distinct_map\<close>)

lemma mset_concat_map_perm:
  assumes "mset xs = mset ys"
  shows "mset (concat (map f xs)) = mset (concat (map f ys))"
proof -
  have "mset (concat (map f zs)) = (\<Sum>z \<in># mset zs. mset (f z))" for zs
    by (induction zs) auto
  with assms show ?thesis by simp
qed

end
