(* ===== verification/Go_Strings.thy ===== *)
theory Go_Strings
  imports Prelude
begin

text \<open>
  The part of Go's \<open>strings\<close>, \<open>strconv\<close>, \<open>unicode/utf8\<close>, \<open>bufio\<close> and
  \<open>path\<close> packages the program uses, on byte strings.

  Two functions are exact only as far as the program can tell: \<open>to_lower\<close> and
  \<open>equal_fold\<close> map the ASCII letters and the few non-ASCII runes that Go maps to an ASCII
  letter (the Kelvin sign, the dotted capital I, the long s); any other non-ASCII byte is left
  alone. Every test of the program against an ASCII text therefore has Go's verdict.
\<close>

section \<open>Bytes\<close>

abbreviation nl :: char where "nl \<equiv> CHR 0x0A"
abbreviation cr :: char where "cr \<equiv> CHR 0x0D"
abbreviation dq :: char where "dq \<equiv> CHR 0x22"
abbreviation sq :: char where "sq \<equiv> CHR 0x27"
abbreviation slash :: char where "slash \<equiv> CHR 0x2F"
abbreviation backslash :: char where "backslash \<equiv> CHR 0x5C"
abbreviation nul :: char where "nul \<equiv> CHR 0x00"

definition byte :: "char \<Rightarrow> nat" where
  "byte c = of_char c"

definition between :: "nat \<Rightarrow> nat \<Rightarrow> char \<Rightarrow> bool" where
  "between lo hi c = (lo \<le> byte c \<and> byte c \<le> hi)"

definition is_digit :: "char \<Rightarrow> bool" where "is_digit c = between 48 57 c"
definition is_upper :: "char \<Rightarrow> bool" where "is_upper c = between 65 90 c"
definition is_lower :: "char \<Rightarrow> bool" where "is_lower c = between 97 122 c"
definition is_alnum :: "char \<Rightarrow> bool" where "is_alnum c = (is_digit c \<or> is_upper c \<or> is_lower c)"
definition ascii_space :: "char \<Rightarrow> bool" where "ascii_space c = (between 9 13 c \<or> byte c = 32)"
definition is_cont :: "char \<Rightarrow> bool" where "is_cont c = between 128 191 c"

lemma byte_less [simp]: "byte c < 256"
  by (simp add: byte_def)

lemma byte_inj: "byte c = byte d \<longleftrightarrow> c = d"
  by (simp add: byte_def)

lemma char_of_byte [simp]: "char_of (byte c) = c"
  by (simp add: byte_def)

lemma byte_char_of [simp]: "n < 256 \<Longrightarrow> byte (char_of n) = n"
  by (simp add: byte_def)

section \<open>Searching\<close>

text \<open>\<open>strings.HasPrefix(s, p)\<close> and its kin, arguments in Go's order.\<close>

fun has_prefix :: "string \<Rightarrow> string \<Rightarrow> bool" where
  "has_prefix s [] = True"
| "has_prefix [] (d # p) = False"
| "has_prefix (c # s) (d # p) = (c = d \<and> has_prefix s p)"

definition has_suffix :: "string \<Rightarrow> string \<Rightarrow> bool" where
  "has_suffix s p = has_prefix (rev s) (rev p)"

fun index_of :: "string \<Rightarrow> string \<Rightarrow> nat option" where
  "index_of [] p = (if p = [] then Some 0 else None)"
| "index_of (c # s) p = (if has_prefix (c # s) p then Some 0 else map_option Suc (index_of s p))"

definition contains :: "string \<Rightarrow> string \<Rightarrow> bool" where
  "contains s p = (index_of s p \<noteq> None)"

definition contains_any :: "string \<Rightarrow> string \<Rightarrow> bool" where
  "contains_any s cs = list_ex (\<lambda>c. c \<in> set cs) s"

definition trim_prefix :: "string \<Rightarrow> string \<Rightarrow> string" where
  "trim_prefix s p = (if has_prefix s p then drop (length p) s else s)"

definition trim_suffix :: "string \<Rightarrow> string \<Rightarrow> string" where
  "trim_suffix s p = (if has_suffix s p then take (length s - length p) s else s)"

text \<open>\<open>strings.Cut(s, sep)\<close>: before, after, found.\<close>

definition cut :: "string \<Rightarrow> string \<Rightarrow> string \<times> string \<times> bool" where
  "cut s sep = (case index_of s sep of
      None \<Rightarrow> (s, [], False)
    | Some i \<Rightarrow> (take i s, drop (i + length sep) s, True))"

lemma has_prefix_iff: "has_prefix s p \<longleftrightarrow> (\<exists>t. s = p @ t)"
  by (induction s p rule: has_prefix.induct) auto

lemma has_prefix_append [simp]: "has_prefix (p @ t) p"
  by (auto simp: has_prefix_iff)

lemma has_suffix_iff: "has_suffix s p \<longleftrightarrow> (\<exists>t. s = t @ p)"
proof -
  have "(rev s = rev p @ t) = (s = rev t @ p)" for t
    by (metis rev_append rev_rev_ident)
  then show ?thesis
    by (auto simp: has_suffix_def has_prefix_iff) (metis rev_rev_ident)
qed

lemma index_of_Some: "index_of s p = Some i \<Longrightarrow> i + length p \<le> length s \<and> take (length p) (drop i s) = p"
proof (induction s arbitrary: i)
  case Nil
  then show ?case by (auto split: if_splits)
next
  case (Cons c s)
  show ?case
  proof (cases "has_prefix (c # s) p")
    case True
    then obtain t where "c # s = p @ t" by (auto simp: has_prefix_iff)
    then have "length (c # s) = length p + length t" "take (length p) (c # s) = p" by simp_all
    with True Cons.prems show ?thesis by simp
  next
    case False
    with Cons.prems obtain j where "index_of s p = Some j" "i = Suc j" by auto
    with Cons.IH show ?thesis by simp
  qed
qed

lemma index_of_single_None: "index_of s [c] = None \<longleftrightarrow> c \<notin> set s"
  by (induction s) auto

lemma index_of_single: "c \<notin> set s \<Longrightarrow> index_of (s @ c # t) [c] = Some (length s)"
  by (induction s) auto

lemma contains_single: "contains s [c] \<longleftrightarrow> c \<in> set s"
  by (simp add: contains_def index_of_single_None)

lemma contains_any_iff: "contains_any s cs \<longleftrightarrow> (\<exists>c \<in> set s. c \<in> set cs)"
  by (simp add: contains_any_def list_ex_iff)

lemma contains_iff: "contains s p \<longleftrightarrow> (\<exists>a b. s = a @ p @ b)"
proof (induction s)
  case Nil
  then show ?case by (simp add: contains_def)
next
  case (Cons c s)
  show ?case
  proof
    assume "contains (c # s) p"
    then consider "has_prefix (c # s) p" | "contains s p"
      by (auto simp: contains_def split: if_splits)
    then show "\<exists>a b. c # s = a @ p @ b"
    proof cases
      case 1
      then show ?thesis by (metis append_Nil has_prefix_iff)
    next
      case 2
      with Cons.IH show ?thesis by (metis append_Cons)
    qed
  next
    assume "\<exists>a b. c # s = a @ p @ b"
    then obtain a b where ab: "c # s = a @ p @ b" by blast
    show "contains (c # s) p"
    proof (cases a)
      case Nil
      with ab have "has_prefix (c # s) p" by (auto simp: has_prefix_iff)
      then show ?thesis by (simp add: contains_def)
    next
      case (Cons x xs)
      with ab have "contains s p" using Cons.IH by auto
      then show ?thesis by (auto simp: contains_def)
    qed
  qed
qed

lemma cut_single: "c \<notin> set s \<Longrightarrow> cut (s @ c # t) [c] = (s, t, True)"
  by (simp add: cut_def index_of_single)

section \<open>Splitting, joining, replacing\<close>

text \<open>\<open>strings.Split(s, sep)\<close> with a separator of one byte.\<close>

fun split_on :: "char \<Rightarrow> string \<Rightarrow> string list" where
  "split_on c [] = [[]]"
| "split_on c (x # xs) = (if x = c then [] # split_on c xs
     else (case split_on c xs of [] \<Rightarrow> [[x]] | w # ws \<Rightarrow> (x # w) # ws))"

fun join :: "string \<Rightarrow> string list \<Rightarrow> string" where
  "join sep [] = []"
| "join sep [w] = w"
| "join sep (w # v # ws) = w @ sep @ join sep (v # ws)"

text \<open>\<open>strings.ReplaceAll(s, old, new)\<close>; the program never passes an empty \<open>old\<close>.\<close>

function replace_all :: "string \<Rightarrow> string \<Rightarrow> string \<Rightarrow> string" where
  "replace_all s old new =
     (if s = [] \<or> old = [] then s
      else if has_prefix s old then new @ replace_all (drop (length old) s) old new
      else hd s # replace_all (tl s) old new)"
  by pat_completeness auto
termination
  by (relation "measure (\<lambda>(s, _, _). length s)") auto

declare replace_all.simps [simp del]

lemma split_on_not_Nil [simp]: "split_on c s \<noteq> []"
  by (cases s) (auto split: list.splits)

lemma split_on_no_sep: "c \<notin> set s \<Longrightarrow> split_on c s = [s]"
  by (induction s) auto

lemma split_on_append: "c \<notin> set w \<Longrightarrow> split_on c (w @ c # s) = w # split_on c s"
  by (induction w) auto

lemma split_on_join: "ws \<noteq> [] \<Longrightarrow> \<forall>w \<in> set ws. c \<notin> set w \<Longrightarrow> split_on c (join [c] ws) = ws"
proof (induction ws rule: induct_list012)
  case (3 w v ws)
  then show ?case by (simp add: split_on_append)
qed (simp_all add: split_on_no_sep)

lemma join_split_on [simp]: "join [c] (split_on c s) = s"
proof (induction s)
  case (Cons x xs)
  then show ?case
    by (cases "split_on c xs" rule: remdups_adj.cases) (auto split: list.splits)
qed simp

lemma split_on_no_sep_in: "w \<in> set (split_on c s) \<Longrightarrow> c \<notin> set w"
  by (induction s arbitrary: w) (auto split: if_splits list.splits)

lemma replace_all_single: "replace_all s [c] new = concat (map (\<lambda>x. if x = c then new else [x]) s)"
  by (induction s) (simp_all add: replace_all.simps [of "_ # _"] replace_all.simps [of "[]"])

section \<open>White space\<close>

text \<open>
  \<open>strings.TrimSpace\<close> removes the runes of \<open>unicode.IsSpace\<close>: six ASCII characters and
  the UTF-8 encodings of U+0085, U+00A0, U+1680, U+2000 to U+200A, U+2028, U+2029, U+202F,
  U+205F and U+3000.
\<close>

definition space2 :: "char \<Rightarrow> char \<Rightarrow> bool" where
  "space2 a b = (byte a = 0xC2 \<and> (byte b = 0x85 \<or> byte b = 0xA0))"

definition space3 :: "char \<Rightarrow> char \<Rightarrow> char \<Rightarrow> bool" where
  "space3 a b c = (
     (byte a = 0xE1 \<and> byte b = 0x9A \<and> byte c = 0x80) \<or>
     (byte a = 0xE2 \<and> byte b = 0x80 \<and> (between 0x80 0x8A c \<or> byte c \<in> {0xA8, 0xA9, 0xAF})) \<or>
     (byte a = 0xE2 \<and> byte b = 0x81 \<and> byte c = 0x9F) \<or>
     (byte a = 0xE3 \<and> byte b = 0x80 \<and> byte c = 0x80))"

fun trim_left :: "string \<Rightarrow> string" where
  "trim_left [] = []"
| "trim_left (c # cs) = (if ascii_space c then trim_left cs
     else (case cs of [] \<Rightarrow> [c]
       | d # ds \<Rightarrow> if space2 c d then trim_left ds
         else (case ds of [] \<Rightarrow> c # cs
           | e # es \<Rightarrow> if space3 c d e then trim_left es else c # cs)))"

text \<open>The same on the reversed string, for the right end.\<close>

fun trim_left_rev :: "string \<Rightarrow> string" where
  "trim_left_rev [] = []"
| "trim_left_rev (c # cs) = (if ascii_space c then trim_left_rev cs
     else (case cs of [] \<Rightarrow> [c]
       | d # ds \<Rightarrow> if space2 d c then trim_left_rev ds
         else (case ds of [] \<Rightarrow> c # cs
           | e # es \<Rightarrow> if space3 e d c then trim_left_rev es else c # cs)))"

definition trim_right :: "string \<Rightarrow> string" where
  "trim_right s = rev (trim_left_rev (rev s))"

definition trim_space :: "string \<Rightarrow> string" where
  "trim_space s = trim_right (trim_left s)"

text \<open>\<open>strings.Trim(s, cutset)\<close> with an ASCII cutset.\<close>

definition trim_set :: "string \<Rightarrow> string \<Rightarrow> string" where
  "trim_set s cs = rev (dropWhile (\<lambda>c. c \<in> set cs) (rev (dropWhile (\<lambda>c. c \<in> set cs) s)))"

text \<open>\<open>strings.Fields(s)\<close> on text whose white space is ASCII.\<close>

fun fields_from :: "string \<Rightarrow> string \<Rightarrow> string list" where
  "fields_from w [] = (if w = [] then [] else [rev w])"
| "fields_from w (c # cs) = (if ascii_space c then (if w = [] then fields_from [] cs else rev w # fields_from [] cs)
     else fields_from (c # w) cs)"

definition fields :: "string \<Rightarrow> string list" where
  "fields s = fields_from [] s"

text \<open>A string whose two ends are graphic ASCII characters is left as it is.\<close>

definition graphic :: "char \<Rightarrow> bool" where
  "graphic c = between 33 126 c"

lemma graphic_not_space: "graphic c \<Longrightarrow> \<not> ascii_space c"
  by (auto simp: graphic_def ascii_space_def between_def)

lemma trim_left_graphic: "graphic c \<Longrightarrow> trim_left (c # cs) = c # cs"
  by (auto simp: graphic_not_space space2_def space3_def graphic_def between_def split: list.splits)

lemma trim_left_rev_graphic: "graphic c \<Longrightarrow> trim_left_rev (c # cs) = c # cs"
  by (auto simp: graphic_not_space space2_def space3_def graphic_def between_def split: list.splits)

lemma trim_right_graphic: "graphic c \<Longrightarrow> trim_right (cs @ [c]) = cs @ [c]"
  by (simp add: trim_right_def trim_left_rev_graphic del: trim_left_rev.simps)

lemma trim_right_Nil [simp]: "trim_right [] = []"
  by (simp add: trim_right_def)

lemma trim_space_Nil [simp]: "trim_space [] = []"
  by (simp add: trim_space_def)

lemma trim_left_space [simp]: "trim_left (CHR '' '' # cs) = trim_left cs"
  by (simp add: ascii_space_def byte_def)

lemma trim_right_space [simp]: "trim_right (cs @ [CHR '' '']) = trim_right cs"
  by (simp add: trim_right_def ascii_space_def byte_def)

lemma trim_space_graphic:
  assumes "graphic a" and "graphic b"
  shows "trim_space (a # cs @ [b]) = a # cs @ [b]"
proof -
  have "trim_right ((a # cs) @ [b]) = (a # cs) @ [b]" using assms(2) by (rule trim_right_graphic)
  then show ?thesis using assms(1) by (simp add: trim_space_def trim_left_graphic del: trim_left.simps)
qed

lemma trim_space_graphic1: "graphic a \<Longrightarrow> trim_space [a] = [a]"
  using trim_right_graphic [of a "[]"] by (simp add: trim_space_def trim_left_graphic del: trim_left.simps)

lemma trim_space_all_graphic:
  assumes "\<forall>c \<in> set s. graphic c"
  shows "trim_space s = s"
proof (cases s)
  case Nil
  then show ?thesis by simp
next
  case (Cons a t)
  show ?thesis
  proof (cases t rule: rev_cases)
    case Nil
    with Cons assms show ?thesis by (simp add: trim_space_graphic1)
  next
    case (snoc u b)
    with Cons assms show ?thesis by (simp add: trim_space_graphic)
  qed
qed

section \<open>Letter case\<close>

definition lower_byte :: "char \<Rightarrow> char" where
  "lower_byte c = (if is_upper c then char_of (byte c + 32) else c)"

text \<open>\<open>strings.ToLower\<close>: U+212A becomes k, U+0130 becomes i.\<close>

fun to_lower :: "string \<Rightarrow> string" where
  "to_lower [] = []"
| "to_lower (c # cs) = (case cs of [] \<Rightarrow> [lower_byte c]
     | d # ds \<Rightarrow>
        if byte c = 0xC4 \<and> byte d = 0xB0 then CHR ''i'' # to_lower ds
        else (case ds of [] \<Rightarrow> lower_byte c # to_lower cs
          | e # es \<Rightarrow>
             if byte c = 0xE2 \<and> byte d = 0x84 \<and> byte e = 0xAA then CHR ''k'' # to_lower es
             else lower_byte c # to_lower cs))"

text \<open>The canonical form behind \<open>strings.EqualFold\<close>: U+212A folds with k, U+017F with s.\<close>

fun fold_case :: "string \<Rightarrow> string" where
  "fold_case [] = []"
| "fold_case (c # cs) = (case cs of [] \<Rightarrow> [lower_byte c]
     | d # ds \<Rightarrow>
        if byte c = 0xC5 \<and> byte d = 0xBF then CHR ''s'' # fold_case ds
        else (case ds of [] \<Rightarrow> lower_byte c # fold_case cs
          | e # es \<Rightarrow>
             if byte c = 0xE2 \<and> byte d = 0x84 \<and> byte e = 0xAA then CHR ''k'' # fold_case es
             else lower_byte c # fold_case cs))"

definition equal_fold :: "string \<Rightarrow> string \<Rightarrow> bool" where
  "equal_fold s t = (fold_case s = fold_case t)"

definition is_ascii :: "string \<Rightarrow> bool" where
  "is_ascii s = list_all (\<lambda>c. byte c < 128) s"

lemma to_lower_Cons: "byte c < 128 \<Longrightarrow> to_lower (c # cs) = lower_byte c # to_lower cs"
  by (simp split: list.split)

lemma fold_case_Cons: "byte c < 128 \<Longrightarrow> fold_case (c # cs) = lower_byte c # fold_case cs"
  by (simp split: list.split)

lemma is_ascii_simps [simp]:
  "is_ascii []"
  "is_ascii (c # cs) \<longleftrightarrow> byte c < 128 \<and> is_ascii cs"
  by (simp_all add: is_ascii_def)

lemma to_lower_ascii: "is_ascii s \<Longrightarrow> to_lower s = map lower_byte s"
  by (induction s) (simp_all add: to_lower_Cons del: to_lower.simps(2))

lemma fold_case_ascii: "is_ascii s \<Longrightarrow> fold_case s = map lower_byte s"
  by (induction s) (simp_all add: fold_case_Cons del: fold_case.simps(2))

lemma lower_byte_not_upper: "\<not> is_upper c \<Longrightarrow> lower_byte c = c"
  by (simp add: lower_byte_def)

section \<open>Numbers\<close>

fun nat_digits :: "nat \<Rightarrow> string" where
  "nat_digits n = (if n < 10 then [char_of (48 + n)] else nat_digits (n div 10) @ [char_of (48 + n mod 10)])"

declare nat_digits.simps [simp del]

text \<open>\<open>strconv.Itoa\<close> and \<open>%d\<close>.\<close>

definition itoa :: "int \<Rightarrow> string" where
  "itoa i = (if i < 0 then CHR ''-'' # nat_digits (nat (- i)) else nat_digits (nat i))"

definition digits_value :: "string \<Rightarrow> nat" where
  "digits_value s = foldl (\<lambda>n c. 10 * n + (byte c - 48)) 0 s"

text \<open>\<open>strconv.ParseInt(s, 10, 64)\<close> and \<open>strconv.Atoi\<close>: \<open>None\<close> for a syntax or range error.\<close>

definition parse_int64 :: "string \<Rightarrow> int option" where
  "parse_int64 s =
     (let (neg, ds) = (case s of [] \<Rightarrow> (False, [])
            | c # cs \<Rightarrow> if c = CHR ''-'' then (True, cs) else if c = CHR ''+'' then (False, cs) else (False, s));
          v = int (digits_value ds)
      in if ds = [] \<or> \<not> list_all is_digit ds then None
         else if neg then (if v \<le> 2 ^ 63 then Some (- v) else None)
         else (if v < 2 ^ 63 then Some v else None))"

definition max_int64 :: int where
  "max_int64 = 9223372036854775807"

definition hex_value :: "char \<Rightarrow> nat option" where
  "hex_value c = (if is_digit c then Some (byte c - 48)
     else if between 97 102 c then Some (byte c - 87)
     else if between 65 70 c then Some (byte c - 55) else None)"

definition hex_digit :: "nat \<Rightarrow> char" where
  "hex_digit n = (if n < 10 then char_of (48 + n) else char_of (55 + n))"

lemma parse_int64_range: "parse_int64 s = Some n \<Longrightarrow> - (2 ^ 63) \<le> n \<and> n \<le> max_int64"
  by (auto simp: parse_int64_def max_int64_def Let_def split: list.splits if_splits prod.splits)

lemma hex_value_digit: "n < 16 \<Longrightarrow> hex_value (hex_digit n) = Some n"
  by (auto simp: hex_value_def hex_digit_def is_digit_def between_def)

lemma nat_digits_digits: "\<forall>c \<in> set (nat_digits n). is_digit c"
proof (induction n rule: nat_digits.induct)
  case (1 n)
  then show ?case
    by (subst nat_digits.simps) (auto simp: is_digit_def between_def)
qed

lemma digits_value_snoc: "digits_value (s @ [c]) = 10 * digits_value s + (byte c - 48)"
  by (simp add: digits_value_def)

lemma digits_value_nat_digits [simp]: "digits_value (nat_digits n) = n"
proof (induction n rule: nat_digits.induct)
  case (1 n)
  then show ?case
    by (subst nat_digits.simps) (simp add: digits_value_snoc, simp add: digits_value_def)
qed

lemma nat_digits_not_Nil [simp]: "nat_digits n \<noteq> []"
  by (subst nat_digits.simps) simp

lemma nat_digits_inj: "nat_digits m = nat_digits n \<Longrightarrow> m = n"
  by (metis digits_value_nat_digits)

section \<open>UTF-8 and lines\<close>

text \<open>\<open>utf8.ValidString\<close>.\<close>

fun valid_utf8 :: "string \<Rightarrow> bool" where
  "valid_utf8 [] = True"
| "valid_utf8 (a # as) =
     (if byte a < 0x80 then valid_utf8 as
      else (case as of [] \<Rightarrow> False
        | b # bs \<Rightarrow>
          if between 0xC2 0xDF a then is_cont b \<and> valid_utf8 bs
          else (case bs of [] \<Rightarrow> False
            | c # cs \<Rightarrow>
              if byte a = 0xE0 then between 0xA0 0xBF b \<and> is_cont c \<and> valid_utf8 cs
              else if byte a = 0xED then between 0x80 0x9F b \<and> is_cont c \<and> valid_utf8 cs
              else if between 0xE1 0xEF a then is_cont b \<and> is_cont c \<and> valid_utf8 cs
              else (case cs of [] \<Rightarrow> False
                | d # ds \<Rightarrow>
                  if byte a = 0xF0 then between 0x90 0xBF b \<and> is_cont c \<and> is_cont d \<and> valid_utf8 ds
                  else if between 0xF1 0xF3 a then is_cont b \<and> is_cont c \<and> is_cont d \<and> valid_utf8 ds
                  else byte a = 0xF4 \<and> between 0x80 0x8F b \<and> is_cont c \<and> is_cont d \<and> valid_utf8 ds))))"

text \<open>
  \<open>bufio.Scanner\<close> with \<open>ScanLines\<close>: the lines without their terminator. A line that does
  not fit the scanner's buffer of \<open>limit\<close> bytes, terminator included, ends the scan with
  \<open>ErrTooLong\<close>, which \<open>drop_cr\<close> and the loops of the parsers see as \<open>None\<close>.
\<close>

definition raw_lines :: "string \<Rightarrow> string list" where
  "raw_lines s = (let ls = split_on nl s in if last ls = [] then butlast ls else ls)"

definition drop_cr :: "string \<Rightarrow> string" where
  "drop_cr l = (if l \<noteq> [] \<and> last l = cr then butlast l else l)"

definition scan_lines :: "nat \<Rightarrow> string \<Rightarrow> string option list" where
  "scan_lines limit s = map (\<lambda>l. if length l < limit then Some (drop_cr l) else None) (raw_lines s)"

lemma valid_utf8_ascii: "is_ascii s \<Longrightarrow> valid_utf8 s"
  by (induction s) auto

lemma raw_lines_Cons: "nl \<notin> set l \<Longrightarrow> raw_lines (l @ nl # s) = l # raw_lines s"
  by (simp add: raw_lines_def split_on_append Let_def)

lemma raw_lines_Nil [simp]: "raw_lines [] = []"
  by (simp add: raw_lines_def)

lemma raw_lines_concat: "\<forall>l \<in> set ls. nl \<notin> set l \<Longrightarrow> raw_lines (concat (map (\<lambda>l. l @ [nl]) ls)) = ls"
  by (induction ls) (simp_all add: raw_lines_Cons)

end
