(* ===== verification/Go_Path.thy ===== *)
theory Go_Path
  imports Go_Strings
begin

text \<open>
  Go's \<open>path\<close> package (slash-separated paths, purely lexical) as the program uses it:
  \<open>Clean\<close>, \<open>Join\<close>, \<open>Base\<close>, \<open>Dir\<close>, \<open>Ext\<close> and \<open>IsAbs\<close>. The lemmas at the
  end are about paths whose components are plain names, which is what every path the program
  accepts looks like after \<open>readlink -f\<close>.
\<close>

section \<open>Definitions\<close>

definition path_is_abs :: "string \<Rightarrow> bool" where
  "path_is_abs p = has_prefix p [slash]"

fun clean_parts :: "bool \<Rightarrow> string list \<Rightarrow> string list \<Rightarrow> string list" where
  "clean_parts rooted [] acc = rev acc"
| "clean_parts rooted (c # cs) acc =
     (if c = [] \<or> c = ''.'' then clean_parts rooted cs acc
      else if c = ''..'' then
        (case acc of
           a # as \<Rightarrow> if a \<noteq> ''..'' then clean_parts rooted cs as else clean_parts rooted cs (c # acc)
         | [] \<Rightarrow> if rooted then clean_parts rooted cs [] else clean_parts rooted cs [c])
      else clean_parts rooted cs (c # acc))"

definition path_clean :: "string \<Rightarrow> string" where
  "path_clean p = (if p = [] then ''.'' else
     let rooted = path_is_abs p; cs = clean_parts rooted (split_on slash p) []
     in if rooted then slash # join [slash] cs else if cs = [] then ''.'' else join [slash] cs)"

definition path_join :: "string list \<Rightarrow> string" where
  "path_join es = (let ne = filter (\<lambda>e. e \<noteq> []) es in if ne = [] then [] else path_clean (join [slash] ne))"

definition strip_slashes :: "string \<Rightarrow> string" where
  "strip_slashes p = rev (dropWhile (\<lambda>c. c = slash) (rev p))"

definition after_last :: "char \<Rightarrow> string \<Rightarrow> string" where
  "after_last c s = rev (takeWhile (\<lambda>x. x \<noteq> c) (rev s))"

definition upto_last :: "char \<Rightarrow> string \<Rightarrow> string" where
  "upto_last c s = rev (dropWhile (\<lambda>x. x \<noteq> c) (rev s))"

definition path_base :: "string \<Rightarrow> string" where
  "path_base p = (if p = [] then ''.'' else
     let b = after_last slash (strip_slashes p) in if b = [] then [slash] else b)"

definition path_dir :: "string \<Rightarrow> string" where
  "path_dir p = path_clean (upto_last slash p)"

text \<open>From the last dot after the last slash, the dot included.\<close>

definition path_ext :: "string \<Rightarrow> string" where
  "path_ext p = (let t = after_last slash p in
     if CHR ''.'' \<in> set t then CHR ''.'' # after_last (CHR ''.'') t else [])"

section \<open>Plain names\<close>

text \<open>A file name: not empty, no slash, not one of the two dot names.\<close>

definition plain :: "string \<Rightarrow> bool" where
  "plain n = (n \<noteq> [] \<and> slash \<notin> set n \<and> n \<noteq> ''.'' \<and> n \<noteq> ''..'')"

text \<open>An absolute path in canonical form: a slash before each of its plain names.\<close>

definition abs_path :: "string list \<Rightarrow> string" where
  "abs_path ns = slash # join [slash] ns"

lemma clean_parts_plain: "\<forall>n \<in> set ns. plain n \<Longrightarrow> clean_parts r ns acc = rev acc @ ns"
  by (induction ns arbitrary: acc) (auto simp: plain_def)

lemma clean_parts_skip: "clean_parts r ([] # cs) acc = clean_parts r cs acc"
  by simp

lemma clean_parts_append:
  "\<forall>n \<in> set ns. plain n \<Longrightarrow> clean_parts r (ns @ cs) acc = clean_parts r cs (rev ns @ acc)"
  by (induction ns arbitrary: acc) (auto simp: plain_def)

lemma split_join_plain: "ns \<noteq> [] \<Longrightarrow> \<forall>n \<in> set ns. plain n \<Longrightarrow> split_on slash (join [slash] ns) = ns"
  by (rule split_on_join) (auto simp: plain_def)

lemma join_append:
  "xs \<noteq> [] \<Longrightarrow> ys \<noteq> [] \<Longrightarrow> join sep (xs @ ys) = join sep xs @ sep @ join sep ys"
proof (induction xs rule: induct_list012)
  case (2 x)
  then show ?case by (cases ys) auto
next
  case (3 x y zs)
  then show ?case by simp
qed simp

lemma path_clean_abs:
  assumes "ns \<noteq> []" and "\<forall>n \<in> set ns. plain n"
  shows "path_clean (abs_path ns) = abs_path ns"
  using assms by (simp add: path_clean_def abs_path_def path_is_abs_def split_join_plain clean_parts_plain)

lemma last_plain_name:
  assumes "plain n"
  shows "after_last slash (p @ slash # n) = n" "upto_last slash (p @ slash # n) = p @ [slash]"
    "strip_slashes (p @ slash # n) = p @ slash # n"
proof -
  from assms have ns: "n \<noteq> []" "\<forall>x \<in> set (rev n). x \<noteq> slash" by (auto simp: plain_def)
  then show "after_last slash (p @ slash # n) = n"
    using takeWhile_append2 [of "rev n" "\<lambda>x. x \<noteq> slash" "slash # rev p"] by (simp add: after_last_def)
  from ns show "upto_last slash (p @ slash # n) = p @ [slash]"
    by (simp add: upto_last_def dropWhile_append3)
  from ns obtain c m where "rev n = c # m" "c \<noteq> slash"
    by (metis list.exhaust list.set_intros(1) rev_is_Nil_conv)
  then have "dropWhile (\<lambda>c. c = slash) (rev n @ slash # rev p) = rev n @ slash # rev p" by simp
  then show "strip_slashes (p @ slash # n) = p @ slash # n"
    by (simp add: strip_slashes_def)
qed

lemma abs_path_snoc: "ns \<noteq> [] \<Longrightarrow> abs_path (ns @ [n]) = abs_path ns @ slash # n"
  by (simp add: abs_path_def join_append)

lemma path_base_plain: "plain n \<Longrightarrow> path_base (p @ slash # n) = n"
  using last_plain_name [of n p] by (auto simp: path_base_def plain_def Let_def)

lemma path_base_name: "plain n \<Longrightarrow> path_base n = n"
proof -
  assume n: "plain n"
  then have ns: "n \<noteq> []" "\<forall>x \<in> set (rev n). x \<noteq> slash" by (auto simp: plain_def)
  then obtain c m where "rev n = c # m" "c \<noteq> slash"
    by (metis list.exhaust list.set_intros(1) rev_is_Nil_conv)
  then have a: "strip_slashes n = n" by (simp add: strip_slashes_def rev_swap)
  have b: "takeWhile (\<lambda>x. x \<noteq> slash) (rev n) = rev n"
    using ns(2) by (subst takeWhile_eq_all_conv)
  show ?thesis by (simp add: path_base_def after_last_def a b ns(1))
qed

lemma path_dir_abs:
  assumes "ns \<noteq> []" and "\<forall>m \<in> set ns. plain m" and "plain n"
  shows "path_dir (abs_path (ns @ [n])) = abs_path ns"
proof -
  have "split_on slash (join [slash] ns @ [slash]) = ns @ [[]]"
  proof -
    have "join [slash] ns @ [slash] = join [slash] (ns @ [[]])"
      using assms(1) by (simp add: join_append)
    moreover have "\<forall>w \<in> set (ns @ [[]]). slash \<notin> set w" using assms(2) by (auto simp: plain_def)
    ultimately show ?thesis by (metis append_is_Nil_conv not_Cons_self2 split_on_join)
  qed
  then have "path_clean (abs_path ns @ [slash]) = abs_path ns"
    using assms(1,2) clean_parts_append [of ns True "[[]]" "[]"]
    by (simp add: path_clean_def abs_path_def path_is_abs_def)
  then show ?thesis
    using assms by (simp add: path_dir_def abs_path_snoc last_plain_name)
qed

lemma path_join_abs:
  assumes "ns \<noteq> []" and "\<forall>m \<in> set ns. plain m" and "plain n"
  shows "path_join [abs_path ns, n] = abs_path (ns @ [n])"
proof -
  have "abs_path ns \<noteq> []" "n \<noteq> []" using assms(3) by (auto simp: abs_path_def plain_def)
  then have "path_join [abs_path ns, n] = path_clean (abs_path (ns @ [n]))"
    using assms(1) by (simp add: path_join_def abs_path_snoc)
  then show ?thesis using assms by (simp add: path_clean_abs)
qed

lemma path_base_abs:
  assumes "ns \<noteq> []" and "plain n"
  shows "path_base (abs_path (ns @ [n])) = n"
  using assms by (simp add: abs_path_snoc path_base_plain)

end
