(* ===== verification/Go_Regexp.thy ===== *)
theory Go_Regexp
  imports Go_Strings
begin

text \<open>
  Regular expressions as Go's \<open>regexp\<close> package matches them: leftmost, and among the
  matches at one place the one a backtracking search would find first. A pattern is a value of
  \<open>rx\<close> and the matcher runs it with a continuation, so it explores alternatives in order
  and stops at the first success. The input is bytes: every pattern of the program tests for
  ASCII, so a rune of several bytes is passed over as its bytes.
\<close>

datatype rx =
    Eps
  | Chars "char \<Rightarrow> bool"
  | Seq rx rx
  | Alt rx rx
  | Star rx \<comment> \<open>greedy\<close>
  | LazyStar rx
  | Grp nat rx
  | Bot \<comment> \<open>start of text\<close>
  | Eot \<comment> \<open>end of text\<close>
  | Bol \<comment> \<open>start of line, for \<open>(?m)^\<close>\<close>
  | Eol \<comment> \<open>end of line, for \<open>(?m)$\<close>\<close>

text \<open>A position: what was read (reversed), what is left, and the groups captured so far.\<close>

type_synonym pos = "string \<times> string \<times> (nat \<times> string) list"

definition left :: "pos \<Rightarrow> string" where
  "left p = fst (snd p)"

function rx_match :: "rx \<Rightarrow> (pos \<Rightarrow> pos option) \<Rightarrow> pos \<Rightarrow> pos option" where
  "rx_match Eps k p = k p"
| "rx_match (Chars P) k p = (case p of (pre, s, g) \<Rightarrow>
     (case s of [] \<Rightarrow> None | c # cs \<Rightarrow> if P c then k (c # pre, cs, g) else None))"
| "rx_match (Seq a b) k p = rx_match a (rx_match b k) p"
| "rx_match (Alt a b) k p = (case rx_match a k p of Some q \<Rightarrow> Some q | None \<Rightarrow> rx_match b k p)"
| "rx_match (Star a) k p =
     (case rx_match a (\<lambda>q. if length (left q) < length (left p) then rx_match (Star a) k q else None) p of
        Some q \<Rightarrow> Some q
      | None \<Rightarrow> k p)"
| "rx_match (LazyStar a) k p =
     (case k p of
        Some q \<Rightarrow> Some q
      | None \<Rightarrow> rx_match a (\<lambda>q. if length (left q) < length (left p) then rx_match (LazyStar a) k q else None) p)"
| "rx_match (Grp n a) k p =
     rx_match a (\<lambda>(pre, s, g). k (pre, s, (n, take (length (left p) - length s) (left p)) # g)) p"
| "rx_match Bot k p = (if fst p = [] then k p else None)"
| "rx_match Eot k p = (if left p = [] then k p else None)"
| "rx_match Bol k p = (if fst p = [] \<or> hd (fst p) = nl then k p else None)"
| "rx_match Eol k p = (if left p = [] \<or> hd (left p) = nl then k p else None)"
  by pat_completeness auto
termination
  by (relation "measures [\<lambda>(r, _, _). size r, \<lambda>(_, _, p). length (left p)]") auto

text \<open>The first match at or after a position: where it ends, and its groups.\<close>

fun rx_search :: "rx \<Rightarrow> string \<Rightarrow> string \<Rightarrow> pos option" where
  "rx_search r pre [] = rx_match r Some (pre, [], [])"
| "rx_search r pre (c # cs) = (case rx_match r Some (pre, c # cs, []) of
      Some q \<Rightarrow> Some q
    | None \<Rightarrow> rx_search r (c # pre) cs)"

definition rx_group :: "pos \<Rightarrow> nat \<Rightarrow> string" where
  "rx_group p n = (case map_of (snd (snd p)) n of None \<Rightarrow> [] | Some s \<Rightarrow> s)"

text \<open>\<open>MatchString\<close>, \<open>FindStringSubmatch\<close> and \<open>FindAllStringSubmatch(s, -1)\<close>.\<close>

definition match_string :: "rx \<Rightarrow> string \<Rightarrow> bool" where
  "match_string r s = (rx_search r [] s \<noteq> None)"

definition find_submatch :: "rx \<Rightarrow> string \<Rightarrow> pos option" where
  "find_submatch r s = rx_search r [] s"

function find_all_from :: "rx \<Rightarrow> string \<Rightarrow> string \<Rightarrow> pos list" where
  "find_all_from r pre s = (case rx_search r pre s of
      None \<Rightarrow> []
    | Some (pre', s', g) \<Rightarrow>
        if length s' < length s then (pre', s', g) # find_all_from r pre' s'
        else [(pre', s', g)])"
  by pat_completeness auto
termination
  by (relation "measure (\<lambda>(_, _, s). length s)") auto

declare find_all_from.simps [simp del]

definition find_all_submatch :: "rx \<Rightarrow> string \<Rightarrow> pos list" where
  "find_all_submatch r s = find_all_from r [] s"

section \<open>Building patterns\<close>

definition rplus :: "rx \<Rightarrow> rx" where "rplus r = Seq r (Star r)"
definition rplus_lazy :: "rx \<Rightarrow> rx" where "rplus_lazy r = Seq r (LazyStar r)"
definition ropt :: "rx \<Rightarrow> rx" where "ropt r = Alt r Eps"

fun rseq :: "rx list \<Rightarrow> rx" where
  "rseq [] = Eps"
| "rseq [r] = r"
| "rseq (r # s # rs) = Seq r (rseq (s # rs))"

definition rchar :: "char \<Rightarrow> rx" where "rchar c = Chars (\<lambda>x. x = c)"

definition rlit :: "string \<Rightarrow> rx" where "rlit s = rseq (map rchar s)"

fun rtimes :: "nat \<Rightarrow> rx \<Rightarrow> rx" where
  "rtimes 0 r = Eps"
| "rtimes (Suc n) r = Seq r (rtimes n r)"

text \<open>A letter under \<open>(?i)\<close>: k also stands for U+212A and s for U+017F.\<close>

definition rchar_fold :: "char \<Rightarrow> rx" where
  "rchar_fold c = (let base = Chars (\<lambda>x. lower_byte x = lower_byte c) in
     if lower_byte c = CHR ''k'' then Alt base (rlit [CHR 0xE2, CHR 0x84, CHR 0xAA])
     else if lower_byte c = CHR ''s'' then Alt base (rlit [CHR 0xC5, CHR 0xBF])
     else base)"

definition rlit_fold :: "string \<Rightarrow> rx" where "rlit_fold s = rseq (map rchar_fold s)"

text \<open>\<open>\s\<close>, \<open>\S\<close>, \<open>\d\<close> and \<open>.\<close> of Go's syntax.\<close>

definition rspace :: rx where "rspace = Chars (\<lambda>c. byte c \<in> {9, 10, 12, 13, 32})"
definition rnonspace :: rx where "rnonspace = Chars (\<lambda>c. byte c \<notin> {9, 10, 12, 13, 32})"
definition rdigit :: rx where "rdigit = Chars is_digit"
definition rany :: rx where "rany = Chars (\<lambda>c. c \<noteq> nl)"
definition rnot_in :: "string \<Rightarrow> rx" where "rnot_in cs = Chars (\<lambda>c. c \<notin> set cs)"

lemmas rx_defs = rplus_def rplus_lazy_def ropt_def rchar_def rlit_def rchar_fold_def rlit_fold_def
  rspace_def rnonspace_def rdigit_def rany_def rnot_in_def

section \<open>What a match says\<close>

text \<open>
  The words a pattern can consume, the anchors read as the empty word. A match found by the
  matcher consumes such a word from the front of what is left, and every group it captured
  holds a word of the group's own pattern.
\<close>

inductive word_of :: "rx \<Rightarrow> string \<Rightarrow> bool" where
  w_eps: "word_of Eps []"
| w_chars: "P c \<Longrightarrow> word_of (Chars P) [c]"
| w_seq: "word_of a v \<Longrightarrow> word_of b w \<Longrightarrow> word_of (Seq a b) (v @ w)"
| w_alt1: "word_of a w \<Longrightarrow> word_of (Alt a b) w"
| w_alt2: "word_of b w \<Longrightarrow> word_of (Alt a b) w"
| w_star0: "word_of (Star a) []"
| w_star: "word_of a v \<Longrightarrow> word_of (Star a) w \<Longrightarrow> word_of (Star a) (v @ w)"
| w_lazy0: "word_of (LazyStar a) []"
| w_lazy: "word_of a v \<Longrightarrow> word_of (LazyStar a) w \<Longrightarrow> word_of (LazyStar a) (v @ w)"
| w_grp: "word_of a w \<Longrightarrow> word_of (Grp n a) w"
| w_bot: "word_of Bot []"
| w_eot: "word_of Eot []"
| w_bol: "word_of Bol []"
| w_eol: "word_of Eol []"

inductive_cases word_of_seqE: "word_of (Seq a b) w"
inductive_cases word_of_charsE: "word_of (Chars P) w"

text \<open>The groups of a pattern, and the captures they allow.\<close>

fun grps :: "rx \<Rightarrow> (nat \<times> rx) set" where
  "grps (Seq a b) = grps a \<union> grps b"
| "grps (Alt a b) = grps a \<union> grps b"
| "grps (Star a) = grps a"
| "grps (LazyStar a) = grps a"
| "grps (Grp n a) = insert (n, a) (grps a)"
| "grps _ = {}"

definition caps :: "rx \<Rightarrow> (nat \<times> string) set" where
  "caps r = {(n, w). \<exists>a. (n, a) \<in> grps r \<and> word_of a w}"

lemma caps_simps [simp]:
  "caps (Seq a b) = caps a \<union> caps b" "caps (Alt a b) = caps a \<union> caps b"
  "caps (Star a) = caps a" "caps (LazyStar a) = caps a" "caps Eps = {}" "caps (Chars P) = {}"
  "caps (Grp n a) = {n} \<times> {w. word_of a w} \<union> caps a"
  by (auto simp: caps_def)

text \<open>What is left to show once a pattern has matched: it consumed a word and captured rightly.\<close>

definition consumed :: "rx \<Rightarrow> (pos \<Rightarrow> pos option) \<Rightarrow> pos \<Rightarrow> pos \<Rightarrow> bool" where
  "consumed r k p q = (\<exists>w s' g'. left p = w @ s' \<and> word_of r w \<and> k (rev w @ fst p, s', g') = Some q \<and>
     set g' \<subseteq> set (snd (snd p)) \<union> caps r)"

lemma consumedI:
  assumes "left p = w @ s'" "word_of r w" "k (rev w @ fst p, s', g') = Some q"
    "set g' \<subseteq> set (snd (snd p)) \<union> caps r"
  shows "consumed r k p q"
  unfolding consumed_def using assms by blast

lemma matched_nothing:
  assumes "word_of r []" and "k p = Some q"
  shows "consumed r k p q"
  by (rule consumedI [of p "[]" "left p" r k "snd (snd p)"]) (use assms in \<open>auto simp: left_def\<close>)

lemma consumed_seq:
  assumes "consumed a (rx_match b k) p q"
    and "\<And>p' q. rx_match b k p' = Some q \<Longrightarrow> consumed b k p' q"
  shows "consumed (Seq a b) k p q"
proof -
  from assms(1) obtain v s' g' where v: "left p = v @ s'" "word_of a v"
    "rx_match b k (rev v @ fst p, s', g') = Some q" "set g' \<subseteq> set (snd (snd p)) \<union> caps a"
    unfolding consumed_def by blast
  from assms(2) [OF v(3)] obtain w t h where w: "s' = w @ t" "word_of b w"
    "k (rev w @ rev v @ fst p, t, h) = Some q" "set h \<subseteq> set g' \<union> caps b"
    unfolding consumed_def left_def by auto
  show ?thesis
    by (rule consumedI [of p "v @ w" t _ k h]) (use v w in \<open>auto intro: w_seq\<close>)
qed

text \<open>One more round of a repetition.\<close>

lemma consumed_round:
  assumes "consumed a (\<lambda>q. if length (left q) < length (left p) then rx_match r k q else None) p q"
    and "\<And>p'. length (left p') < length (left p) \<Longrightarrow> rx_match r k p' = Some q \<Longrightarrow> consumed r k p' q"
    and "\<And>v w. word_of a v \<Longrightarrow> word_of r w \<Longrightarrow> word_of r (v @ w)" and "caps r = caps a"
  shows "consumed r k p q"
proof -
  from assms(1) obtain v s' g' where v: "left p = v @ s'" "word_of a v" "length s' < length (left p)"
    "rx_match r k (rev v @ fst p, s', g') = Some q" "set g' \<subseteq> set (snd (snd p)) \<union> caps a"
    unfolding consumed_def by (auto simp: left_def split: if_splits)
  from assms(2) [OF _ v(4)] v(3) obtain w t h where w: "s' = w @ t" "word_of r w"
    "k (rev w @ rev v @ fst p, t, h) = Some q" "set h \<subseteq> set g' \<union> caps r"
    unfolding consumed_def left_def by auto
  show ?thesis
    by (rule consumedI [of p "v @ w" t _ k h]) (use v w assms(3,4) in auto)
qed

lemma rx_match_consumed: "rx_match r k p = Some q \<Longrightarrow> consumed r k p q"
proof (induction r k p arbitrary: q rule: rx_match.induct)
  case (2 P k p)
  obtain pre s g where p: "p = (pre, s, g)" by (cases p)
  with 2 obtain c cs where c: "s = c # cs" "P c" "k (c # pre, cs, g) = Some q"
    by (auto split: list.splits if_splits)
  show ?case
    by (rule consumedI [of p "[c]" cs _ k g]) (use p c in \<open>auto simp: left_def intro: w_chars\<close>)
next
  case (3 a b k p)
  show ?case
    by (rule consumed_seq) (use 3 in auto)
next
  case (4 a b k p)
  show ?case
  proof (cases "rx_match a k p")
    case None
    with 4 have "consumed b k p q" by simp
    then show ?thesis unfolding consumed_def caps_simps by (blast intro: w_alt2)
  next
    case (Some q')
    with 4 have "consumed a k p q" by simp
    then show ?thesis unfolding consumed_def caps_simps by (blast intro: w_alt1)
  qed
next
  case (5 a k p)
  let ?k = "\<lambda>q. if length (left q) < length (left p) then rx_match (Star a) k q else None"
  show ?case
  proof (cases "rx_match a ?k p")
    case None
    with "5.prems" show ?thesis by (intro matched_nothing w_star0) simp
  next
    case (Some q')
    with "5.prems" have "rx_match a ?k p = Some q" by simp
    from consumed_round [OF "5.IH"(2) [OF this] "5.IH"(1) w_star] show ?thesis by simp
  qed
next
  case (6 a k p)
  let ?k = "\<lambda>q. if length (left q) < length (left p) then rx_match (LazyStar a) k q else None"
  show ?case
  proof (cases "k p")
    case (Some q')
    with "6.prems" show ?thesis by (intro matched_nothing w_lazy0) simp
  next
    case None
    with "6.prems" have "rx_match a ?k p = Some q" by simp
    from consumed_round [OF "6.IH"(2) [OF None this] "6.IH"(1) [OF None] w_lazy] show ?thesis by simp
  qed
next
  case (7 n a k p)
  let ?k = "\<lambda>(pre, s, g). k (pre, s, (n, take (length (left p) - length s) (left p)) # g)"
  from 7(2) have "rx_match a ?k p = Some q" by simp
  from 7(1) [OF this] obtain w s' g' where w: "left p = w @ s'" "word_of a w"
    "?k (rev w @ fst p, s', g') = Some q" "set g' \<subseteq> set (snd (snd p)) \<union> caps a"
    unfolding consumed_def by blast
  show ?case
    by (rule consumedI [of p w s' _ k "(n, w) # g'"]) (use w in \<open>auto intro: w_grp\<close>)
next
  case (1 k p)
  then show ?case by (intro matched_nothing w_eps) simp
next
  case (8 k p)
  then show ?case by (intro matched_nothing w_bot) (simp split: if_splits)
next
  case (9 k p)
  then show ?case by (intro matched_nothing w_eot) (simp split: if_splits)
next
  case (10 k p)
  then show ?case by (intro matched_nothing w_bol) (simp split: if_splits)
next
  case (11 k p)
  then show ?case by (intro matched_nothing w_eol) (simp split: if_splits)
qed

lemma rx_match_word:
  assumes "rx_match r k p = Some q"
  shows "\<exists>w s' g'. left p = w @ s' \<and> word_of r w \<and> k (rev w @ fst p, s', g') = Some q"
  using rx_match_consumed [OF assms] unfolding consumed_def by blast

text \<open>Every capture of a match that a search returns is a word of its group.\<close>

lemma rx_search_caps: "rx_search r pre s = Some q \<Longrightarrow> set (snd (snd q)) \<subseteq> caps r"
proof (induction r pre s rule: rx_search.induct)
  case (1 r pre)
  then have "consumed r Some (pre, [], []) q" by (simp add: rx_match_consumed)
  then show ?case unfolding consumed_def by auto
next
  case (2 r pre c cs)
  show ?case
  proof (cases "rx_match r Some (pre, c # cs, [])")
    case (Some q')
    with "2.prems" have "consumed r Some (pre, c # cs, []) q" by (simp add: rx_match_consumed)
    then show ?thesis unfolding consumed_def by auto
  qed (use 2 in simp)
qed

lemma find_all_caps: "q \<in> set (find_all_from r pre s) \<Longrightarrow> set (snd (snd q)) \<subseteq> caps r"
proof (induction r pre s rule: find_all_from.induct)
  case (1 r pre s)
  show ?case
  proof (cases "rx_search r pre s")
    case None
    with "1.prems" show ?thesis by (simp add: find_all_from.simps)
  next
    case (Some m)
    obtain a b g where m: "m = (a, b, g)" by (cases m)
    with Some "1.prems" consider "q = m" | "length b < length s" "q \<in> set (find_all_from r a b)"
      by (subst (asm) find_all_from.simps) (auto split: if_splits)
    then show ?thesis
      using "1.IH" [OF Some m [symmetric] refl] m rx_search_caps [OF Some] by cases auto
  qed
qed

lemma rx_group_caps:
  assumes "set (snd (snd q)) \<subseteq> caps r"
  shows "rx_group q n = [] \<or> (n, rx_group q n) \<in> caps r"
  using assms by (auto simp: rx_group_def split: option.splits dest: map_of_SomeD)

lemma caps_anchors [simp]: "caps Bot = {}" "caps Eot = {}" "caps Bol = {}" "caps Eol = {}"
  by (auto simp: caps_def)

lemma caps_rseq [simp]: "caps (rseq rs) = (\<Union>r \<in> set rs. caps r)"
  by (induction rs rule: rseq.induct) auto

lemma caps_builders [simp]:
  "caps (rplus r) = caps r" "caps (rplus_lazy r) = caps r" "caps (ropt r) = caps r" "caps (rchar c) = {}"
  "caps rspace = {}" "caps rnonspace = {}" "caps rdigit = {}" "caps rany = {}" "caps (rnot_in cs) = {}"
  by (simp_all add: rplus_def rplus_lazy_def ropt_def rchar_def rspace_def rnonspace_def rdigit_def rany_def rnot_in_def)

lemma caps_rlit [simp]: "caps (rlit s) = {}"
  by (simp add: rlit_def)

lemma caps_rchar_fold [simp]: "caps (rchar_fold c) = {}"
  by (simp add: rchar_fold_def Let_def)

lemma caps_rlit_fold [simp]: "caps (rlit_fold s) = {}"
  by (simp add: rlit_fold_def)

inductive_cases word_of_starE: "word_of (Star a) w"
inductive_cases word_of_altE: "word_of (Alt a b) w"
inductive_cases word_of_epsE: "word_of Eps w"

lemma word_of_star_chars: "word_of r w \<Longrightarrow> r = Star (Chars P) \<Longrightarrow> \<forall>c \<in> set w. P c"
  by (induction rule: word_of.induct) (auto elim: word_of_charsE)

lemma word_of_plus_digits: "word_of (rplus rdigit) w \<Longrightarrow> w \<noteq> [] \<and> (\<forall>c \<in> set w. is_digit c)"
  unfolding rplus_def rdigit_def
  by (elim word_of_seqE word_of_charsE) (auto dest: word_of_star_chars)

end
