(* ===== verification/Esxi_Inventory.thy ===== *)
theory Esxi_Inventory
  imports Go_Path Go_Regexp
begin

text \<open>
  \<open>internal/esxi/inventory.go\<close>: VMs, datastores, the parsers of \<open>vim-cmd vmsvc/getallvms\<close>
  and \<open>esxcli storage filesystem list\<close>, and the resolution of file references. The lemmas
  at the end show that a resolved reference never leaves the datastore or folder it names.
\<close>

section \<open>Data\<close>

record VM =
  vm_ID :: int
  vm_Name :: string
  vm_Datastore :: string
  vm_VMXPath :: string
  vm_Power :: string

record Datastore =
  ds_Name :: string
  ds_UUID :: string
  ds_Mount :: string
  ds_Type :: string
  ds_Mounted :: bool
  ds_Size :: int
  ds_Free :: int

record Capabilities =
  cap_Version :: string
  cap_Supported :: bool
  cap_Commands :: "string list"

record Inventory =
  inv_Capabilities :: Capabilities
  inv_VMs :: "VM list"
  inv_Datastores :: "Datastore list"
  inv_ExistingOperation :: string

definition zero_VM :: VM where
  "zero_VM = \<lparr>vm_ID = 0, vm_Name = [], vm_Datastore = [], vm_VMXPath = [], vm_Power = []\<rparr>"

definition zero_Datastore :: Datastore where
  "zero_Datastore = \<lparr>ds_Name = [], ds_UUID = [], ds_Mount = [], ds_Type = [], ds_Mounted = False,
     ds_Size = 0, ds_Free = 0\<rparr>"

definition SupportedVMFS :: "string \<Rightarrow> bool" where
  "SupportedVMFS kind = (kind = ''VMFS-5'' \<or> kind = ''VMFS-6'')"

definition Usable :: "Datastore \<Rightarrow> bool" where
  "Usable d = (ds_Mounted d \<and> SupportedVMFS (ds_Type d))"

definition volumes :: string where "volumes = ''/vmfs/volumes''"

definition DatastoreOf :: "string \<Rightarrow> Datastore list \<Rightarrow> Datastore option" where
  "DatastoreOf p ds = find (\<lambda>d. has_prefix p (path_join [volumes, ds_UUID d] @ [slash])) ds"

section \<open>Paths\<close>

definition ValidPath :: "string \<Rightarrow> err option" where
  "ValidPath p =
     (if p = [] \<or> contains_any p [nul, cr, nl, backslash]
      then Some (Errorf ''empty, control-character or backslash path is unsupported'')
      else if list_ex (\<lambda>part. part = ''..'' \<or> part = ''.'') (split_on slash p)
      then Some (Errorf ''path traversal is unsupported'')
      else None)"

text \<open>The loop over the datastores: \<open>found\<close> is empty until one matches.\<close>

fun find_datastore :: "string \<Rightarrow> string \<Rightarrow> Datastore list \<Rightarrow> string \<Rightarrow> string result" where
  "find_datastore name rest [] found = Inr found"
| "find_datastore name rest (d # ds) found =
     (if ds_Name d = name \<or> ds_UUID d = name then
        if found \<noteq> [] then Inl (Errorf ''ambiguous datastore name'')
        else find_datastore name rest ds (path_join [volumes, ds_UUID d, rest])
      else find_datastore name rest ds found)"

definition ResolveReference :: "string \<Rightarrow> string \<Rightarrow> Datastore list \<Rightarrow> string result" where
  "ResolveReference ref dir ds =
     (case ValidPath ref of Some e \<Rightarrow> Inl e
      | None \<Rightarrow>
        if has_prefix ref ''['' then
          (case index_of ref ''] '' of
             None \<Rightarrow> Inl (Errorf ''invalid datastore reference'')
           | Some i \<Rightarrow>
               if i < 2 then Inl (Errorf ''invalid datastore reference'')
               else let name = take (i - 1) (drop 1 ref); rest = drop (i + 2) ref in
                 if path_is_abs rest \<or> rest = [] then Inl (Errorf ''invalid relative datastore reference'')
                 else and_then (find_datastore name rest ds []) (\<lambda>found.
                   if found = [] then Inl (Errorf ''referenced datastore not found'') else Inr found))
        else if path_is_abs ref then
          if \<not> has_prefix ref ''/vmfs/volumes/'' then Inl (Errorf ''reference outside datastores'') else Inr ref
        else if dir = [] then Inl (Errorf ''relative path has no base directory'')
        else Inr (path_join [dir, ref]))"

text \<open>A folder the tool may create (\<open>internal/esxi/detached.go\<close>): a direct child of a volume.\<close>

definition TargetPath :: "string \<Rightarrow> bool" where
  "TargetPath p =
     (if ValidPath p \<noteq> None \<or> \<not> has_prefix p ''/vmfs/volumes/'' then False
      else let parts = split_on slash (trim_prefix p ''/vmfs/volumes/'') in
        length parts = 2 \<and> parts ! 0 \<noteq> [] \<and> parts ! 1 \<noteq> [] \<and> \<not> has_prefix (parts ! 1) ''.'')"

section \<open>Parsing the inventory\<close>

text \<open>The row pattern, group by group: the ID, the lazy name, the bracketed datastore, the \<open>.vmx\<close>
  path, the guest, the hardware version and the rest of the row as annotation.\<close>

definition vmRow :: rx where
  "vmRow = rseq [Bot, Star rspace, Grp 1 (rplus rdigit), rplus rspace, Grp 2 (rplus_lazy rany), rplus rspace,
     rlit ''['', Grp 3 (rplus (rnot_in [CHR '']'', cr, nl])), rlit '']'', rplus rspace,
     Grp 4 (Seq (rplus_lazy rany) (rlit ''.vmx'')), rplus rspace, rplus rnonspace, rplus rspace,
     rlit ''vmx-'', rplus rdigit, ropt (Seq (rplus rspace) (Grp 5 (Star rany))), Eot]"

definition versionPattern :: rx where
  "versionPattern = rseq [rlit ''VMware ESXi '',
     Grp 1 (Alt (Seq (rlit ''6.'') (Chars (\<lambda>c. c = CHR ''5'' \<or> c = CHR ''7'')))
       (Alt (Seq (rlit ''7.'') rdigit) (Seq (rlit ''8.'') rdigit))),
     rlit ''.'']"

record ParseState =
  ps_out :: "VM list"
  ps_header :: bool
  ps_annotated :: bool

definition parse_vm_row :: "pos \<Rightarrow> ParseState \<Rightarrow> ParseState result" where
  "parse_vm_row m s =
     (case parse_int64 (rx_group m 1) of
        None \<Rightarrow> Inl (Errorf ''invalid VM ID'')
      | Some n \<Rightarrow>
          if n \<le> 0 \<or> n \<in> set (map vm_ID (ps_out s)) then Inl (Errorf ''invalid VM ID'')
          else (case ValidPath (rx_group m 4) of
              Some e \<Rightarrow> Inl e
            | None \<Rightarrow>
                if path_is_abs (rx_group m 4) then Inl (Errorf ''unexpected absolute inventory path'')
                else Inr (s\<lparr>ps_annotated := (trim_space (rx_group m 5) \<noteq> []),
                  ps_out := ps_out s @ [\<lparr>vm_ID = n, vm_Name = trim_space (rx_group m 2), vm_Datastore = rx_group m 3,
                    vm_VMXPath = ''['' @ rx_group m 3 @ ''] '' @ rx_group m 4, vm_Power = []\<rparr>]\<rparr>)))"

definition parse_vm_line :: "string \<Rightarrow> ParseState \<Rightarrow> ParseState result" where
  "parse_vm_line line s =
     (if trim_space line = [] then Inr s
      else if has_prefix (trim_space line) ''Vmid'' \<and> contains line ''File'' then
        if ps_header s then Inl (Errorf ''duplicate inventory header'') else Inr (s\<lparr>ps_header := True\<rparr>)
      else case find_submatch vmRow line of
        None \<Rightarrow> if ps_annotated s then Inr s
          else Inl (Errorf ''unrecognized VM inventory row; inventory may include invalid VMs'')
      | Some m \<Rightarrow> parse_vm_row m s)"

definition ParseVMs :: "string \<Rightarrow> VM list result" where
  "ParseVMs s = and_then
     (fold_result parse_vm_line (split_on nl s) \<lparr>ps_out = [], ps_header = False, ps_annotated = False\<rparr>)
     (\<lambda>st. if \<not> ps_header st then Inl (Errorf ''missing VM inventory header'') else Inr (ps_out st))"

definition positiveNumber :: "string \<Rightarrow> int result" where
  "positiveNumber s = (case parse_int64 (trim_space s) of
      None \<Rightarrow> Inl (Errorf ''unknown numeric output'')
    | Some n \<Rightarrow> if n < 0 then Inl (Errorf ''unknown numeric output'') else Inr n)"

definition go_space :: "char \<Rightarrow> bool" where
  "go_space c = (byte c \<in> {9, 10, 12, 13, 32})"

text \<open>Splitting a trimmed row on every run of two or more white-space characters, as
  \<open>Split(s, -1)\<close> of that pattern does.\<close>

function split_spaces :: "string \<Rightarrow> string \<Rightarrow> string list" where
  "split_spaces w s = (case s of
      [] \<Rightarrow> [rev w]
    | c # cs \<Rightarrow>
        if length (takeWhile go_space s) \<ge> 2 then rev w # split_spaces [] (dropWhile go_space s)
        else split_spaces (c # w) cs)"
  by pat_completeness auto
termination
proof (relation "measure (\<lambda>(w, s). length s)")
  fix w s c and cs :: string
  assume s: "s = c # cs" and two: "2 \<le> length (takeWhile go_space s)"
  then have "go_space c" by (auto split: if_splits)
  then show "(([], dropWhile go_space s), w, s) \<in> measure (\<lambda>(w :: string, s). length s)"
    using s length_dropWhile_le [of go_space cs] by (auto simp: le_imp_less_Suc)
qed auto

declare split_spaces.simps [simp del]

definition pad_row :: "string list \<Rightarrow> string list" where
  "pad_row f = (if length f = 6 \<and> (f ! 2 = ''true'' \<or> f ! 2 = ''false'') then
       if has_prefix (f ! 0) ''/vmfs/volumes/'' then f ! 0 # [] # drop 1 f
       else if f ! 2 = ''false'' then [] # f else f
     else f)"

definition parse_ds_row :: "string list \<Rightarrow> Datastore result" where
  "parse_ds_row f =
     (if length f \<noteq> 7 then Inl (Errorf ''unknown datastore table format'')
      else and_then (positiveNumber (f ! 5)) (\<lambda>size.
        (case positiveNumber (f ! 6) of
           Inl _ \<Rightarrow> Inl (Errorf ''invalid datastore capacity'')
         | Inr free \<Rightarrow>
             if free > size then Inl (Errorf ''invalid datastore capacity'')
             else if f ! 3 \<noteq> ''true'' \<and> f ! 3 \<noteq> ''false'' then Inl (Errorf ''unknown datastore mounted state'')
             else Inr \<lparr>ds_Name = f ! 1, ds_UUID = f ! 2, ds_Mount = f ! 0, ds_Type = f ! 4,
                       ds_Mounted = (f ! 3 = ''true''), ds_Size = size, ds_Free = free\<rparr>)))"

definition parse_ds_line :: "string \<Rightarrow> Datastore list \<times> bool \<Rightarrow> (Datastore list \<times> bool) result" where
  "parse_ds_line line s = (let t = trim_space line in
     if t = [] then Inr s
     else if has_prefix t ''Mount Point'' \<and> contains t ''Free'' then Inr (fst s, True)
     else if trim_set t ''- '' = [] then Inr s
     else and_then (parse_ds_row (pad_row (split_spaces [] t))) (\<lambda>d. Inr (fst s @ [d], snd s)))"

definition ParseDatastores :: "string \<Rightarrow> Datastore list result" where
  "ParseDatastores s = and_then (fold_result parse_ds_line (split_on nl s) ([], False))
     (\<lambda>st. if \<not> snd st \<or> fst st = [] then Inl (Errorf ''no recognized datastore inventory'') else Inr (fst st))"

section \<open>What the parsers promise\<close>

definition wf_VM :: "VM \<Rightarrow> bool" where
  "wf_VM v = (0 < vm_ID v \<and> (\<exists>p. vm_VMXPath v = ''['' @ vm_Datastore v @ ''] '' @ p \<and> ValidPath p = None \<and> \<not> path_is_abs p))"

definition wf_VMs :: "VM list \<Rightarrow> bool" where
  "wf_VMs vs = (distinct (map vm_ID vs) \<and> (\<forall>v \<in> set vs. wf_VM v))"

definition wf_Datastore :: "Datastore \<Rightarrow> bool" where
  "wf_Datastore d = (0 \<le> ds_Free d \<and> ds_Free d \<le> ds_Size d \<and> ds_Size d \<le> max_int64)"

lemma parse_vm_row_wf:
  assumes "parse_vm_row m s = Inr s'" and "wf_VMs (ps_out s)"
  shows "wf_VMs (ps_out s')"
  using assms
  by (auto simp: parse_vm_row_def wf_VMs_def wf_VM_def split: option.splits if_splits)

lemma parse_vm_line_wf:
  assumes "parse_vm_line l s = Inr s'" and "wf_VMs (ps_out s)"
  shows "wf_VMs (ps_out s')"
  using assms
  by (auto simp: parse_vm_line_def split: option.splits if_splits intro: parse_vm_row_wf)

lemma ParseVMs_wf: "ParseVMs s = Inr vs \<Longrightarrow> wf_VMs vs"
proof -
  assume "ParseVMs s = Inr vs"
  then obtain st where st: "fold_result parse_vm_line (split_on nl s)
      \<lparr>ps_out = [], ps_header = False, ps_annotated = False\<rparr> = Inr st" "vs = ps_out st"
    by (auto simp: ParseVMs_def split: if_splits)
  have "wf_VMs (ps_out st)"
    by (rule fold_result_invariant [OF _ _ st(1), where P = "\<lambda>st. wf_VMs (ps_out st)"])
      (use parse_vm_line_wf in blast, simp add: wf_VMs_def)
  with st(2) show ?thesis by simp
qed

lemma positiveNumber_range: "positiveNumber s = Inr n \<Longrightarrow> 0 \<le> n \<and> n \<le> max_int64"
  by (auto simp: positiveNumber_def split: option.splits if_splits dest: parse_int64_range)

lemma parse_ds_row_wf: "parse_ds_row f = Inr d \<Longrightarrow> wf_Datastore d"
  unfolding parse_ds_row_def wf_Datastore_def
  by (cases "positiveNumber (f ! 5)"; cases "positiveNumber (f ! 6)")
    (auto split: if_splits dest!: positiveNumber_range)

lemma ParseDatastores_wf: "ParseDatastores s = Inr ds \<Longrightarrow> \<forall>d \<in> set ds. wf_Datastore d"
proof -
  assume "ParseDatastores s = Inr ds"
  then obtain st where st: "fold_result parse_ds_line (split_on nl s) ([], False) = Inr st" "ds = fst st"
    by (auto simp: ParseDatastores_def split: if_splits)
  have "\<forall>d \<in> set (fst st). wf_Datastore d"
    by (rule fold_result_invariant [OF _ _ st(1), where P = "\<lambda>st. \<forall>d \<in> set (fst st). wf_Datastore d"])
      (auto simp: parse_ds_line_def Let_def split: if_splits dest: parse_ds_row_wf)
  with st(2) show ?thesis by simp
qed

section \<open>A reference stays where it points\<close>

declare index_of.simps [simp del]

text \<open>The non-empty components of a path.\<close>

definition comps :: "string \<Rightarrow> string list" where
  "comps p = filter (\<lambda>n. n \<noteq> []) (split_on slash p)"

lemma ValidPath_comps: "ValidPath p = None \<Longrightarrow> \<forall>n \<in> set (comps p). plain n"
  by (auto simp: ValidPath_def comps_def plain_def list_ex_iff split: if_splits dest: split_on_no_sep_in)

lemma split_on_app: "split_on c (s @ c # t) = split_on c s @ split_on c t"
  by (induction s) (auto split: list.splits)

lemma clean_parts_comps: "\<forall>n \<in> set ns. n \<noteq> ''.'' \<and> n \<noteq> ''..'' \<Longrightarrow>
    clean_parts r ns acc = rev acc @ filter (\<lambda>n. n \<noteq> []) ns"
  by (induction ns arbitrary: acc) auto

lemma path_clean_rooted:
  assumes "\<forall>n \<in> set (split_on slash p). n \<noteq> ''.'' \<and> n \<noteq> ''..''"
  shows "path_clean (slash # p) = abs_path (comps p)"
  using assms by (simp add: path_clean_def path_is_abs_def clean_parts_comps abs_path_def comps_def)

lemma ValidPath_parts: "ValidPath p = None \<Longrightarrow> \<forall>n \<in> set (split_on slash p). n \<noteq> ''.'' \<and> n \<noteq> ''..''"
  by (auto simp: ValidPath_def list_ex_iff split: if_splits)

lemma filter_plain: "\<forall>n \<in> set ns. plain n \<Longrightarrow> filter (\<lambda>n. n \<noteq> []) ns = ns"
  by (induction ns) (auto simp: plain_def)

lemma path_join_under:
  assumes "ns \<noteq> []" "\<forall>n \<in> set ns. plain n" and "r \<noteq> []"
    and "\<forall>n \<in> set (split_on slash r). n \<noteq> ''.'' \<and> n \<noteq> ''..''"
  shows "path_join [abs_path ns, r] = abs_path (ns @ comps r)"
proof -
  have "path_join [abs_path ns, r] = path_clean (slash # (join [slash] ns @ slash # r))"
    using assms(3) by (simp add: path_join_def abs_path_def)
  also have "\<dots> = abs_path (comps (join [slash] ns @ slash # r))"
    by (rule path_clean_rooted)
      (use assms in \<open>auto simp: split_on_app split_join_plain plain_def\<close>)
  also have "comps (join [slash] ns @ slash # r) = ns @ comps r"
    using assms(1,2) by (simp add: comps_def split_on_app split_join_plain filter_plain)
  finally show ?thesis .
qed

lemma volumes_abs: "volumes = abs_path [''vmfs'', ''volumes'']"
  by (simp add: volumes_def abs_path_def)

lemma plain_volumes [simp]: "plain ''vmfs''" "plain ''volumes''"
  by (simp_all add: plain_def)

lemma path_join_datastore:
  assumes "plain u" and "rest \<noteq> []" and "\<forall>n \<in> set (split_on slash rest). n \<noteq> ''.'' \<and> n \<noteq> ''..''"
  shows "path_join [volumes, u, rest] = abs_path ([''vmfs'', ''volumes'', u] @ comps rest)"
proof -
  have "path_join [volumes, u, rest] = path_join [abs_path [''vmfs'', ''volumes'', u], rest]"
    using assms(1,2) by (simp add: path_join_def volumes_abs abs_path_def plain_def)
  also have "\<dots> = abs_path ([''vmfs'', ''volumes'', u] @ comps rest)"
    using assms by (intro path_join_under) auto
  finally show ?thesis .
qed

lemma find_datastore_Inr:
  assumes "find_datastore name rest ds found = Inr p"
    and "\<forall>d \<in> set ds. path_join [volumes, ds_UUID d, rest] \<noteq> []"
  shows "(p = found \<and> (\<forall>d \<in> set ds. ds_Name d \<noteq> name \<and> ds_UUID d \<noteq> name)) \<or>
     (found = [] \<and> (\<exists>d \<in> set ds. (ds_Name d = name \<or> ds_UUID d = name) \<and> p = path_join [volumes, ds_UUID d, rest]))"
  using assms
proof (induction name rest ds found rule: find_datastore.induct)
  case (2 name rest d ds found)
  show ?case
  proof (cases "ds_Name d = name \<or> ds_UUID d = name")
    case True
    with "2.prems" have f: "found = []"
      "find_datastore name rest ds (path_join [volumes, ds_UUID d, rest]) = Inr p"
      by (auto split: if_splits)
    from "2.IH"(1) [OF True] f "2.prems"(2) have
      "p = path_join [volumes, ds_UUID d, rest]" by auto
    with f True show ?thesis by auto
  next
    case False
    with 2 show ?thesis by auto
  qed
qed simp

lemma comps_abs_path: "ns \<noteq> [] \<Longrightarrow> \<forall>n \<in> set ns. plain n \<Longrightarrow> comps (abs_path ns) = ns"
  by (simp add: comps_def abs_path_def split_join_plain filter_plain)

lemma comps_relative: "rest \<noteq> [] \<Longrightarrow> \<not> path_is_abs rest \<Longrightarrow> comps rest \<noteq> []"
  by (cases rest) (auto simp: comps_def path_is_abs_def split: list.splits)

lemma abs_path_prefix: "ns \<noteq> [] \<Longrightarrow> ms \<noteq> [] \<Longrightarrow> has_prefix (abs_path (ns @ ms)) (abs_path ns @ [slash])"
  by (simp add: abs_path_def join_append has_prefix_iff)

lemma split_on_tl: "set (tl (split_on c t)) \<subseteq> set (tl (split_on c (s @ t)))"
proof (induction s)
  case (Cons x s)
  then show ?case
    by (cases "split_on c (s @ t)") auto
qed simp

text \<open>No component of a part of a reference is a dot, but possibly its first.\<close>

lemma parts_drop:
  assumes "ValidPath ref = None" and "hd (split_on slash (drop i ref)) \<notin> {''.'', ''..''}"
  shows "\<forall>n \<in> set (split_on slash (drop i ref)). n \<noteq> ''.'' \<and> n \<noteq> ''..''"
proof -
  have "set (tl (split_on slash (drop i ref))) \<subseteq> set (split_on slash ref)"
    using split_on_tl [of slash "drop i ref" "take i ref"]
    by (cases "split_on slash ref") auto
  with ValidPath_parts [OF assms(1)] assms(2) show ?thesis
    by (cases "split_on slash (drop i ref)") auto
qed

text \<open>What a bracketed reference names: exactly one datastore, and a path below it.\<close>

definition below :: "string \<Rightarrow> string \<Rightarrow> bool" where
  "below d p = (\<exists>ns ms. ns \<noteq> [] \<and> ms \<noteq> [] \<and> (\<forall>n \<in> set (ns @ ms). plain n) \<and> d = abs_path ns \<and> p = abs_path (ns @ ms))"

lemma below_prefix: "below d p \<Longrightarrow> has_prefix p (d @ [slash])"
  by (auto simp: below_def abs_path_prefix)

lemma below_not_Nil: "below d p \<Longrightarrow> p \<noteq> []"
  by (auto simp: below_def abs_path_def)

lemma plain_comps: "\<forall>n \<in> set (split_on slash r). n \<noteq> ''.'' \<and> n \<noteq> ''..'' \<Longrightarrow> n \<in> set (comps r) \<Longrightarrow> plain n"
  by (auto simp: comps_def plain_def dest: split_on_no_sep_in)

lemma path_join_volume: "plain u \<Longrightarrow> path_join [volumes, u] = abs_path [''vmfs'', ''volumes'', u]"
  using path_join_abs [of "[''vmfs'', ''volumes'']" u] by (simp add: volumes_abs)

lemma belowI:
  assumes "ns \<noteq> []" "ms \<noteq> []" "\<forall>n \<in> set ns. plain n" "\<forall>n \<in> set ms. plain n"
    "d = abs_path ns" "p = abs_path (ns @ ms)"
  shows "below d p"
  unfolding below_def using assms by fastforce

lemma below_datastore:
  assumes "plain u" and "r \<noteq> []" and "\<not> path_is_abs r"
    and "\<forall>n \<in> set (split_on slash r). n \<noteq> ''.'' \<and> n \<noteq> ''..''"
  shows "below (path_join [volumes, u]) (path_join [volumes, u, r])"
proof (rule belowI)
  show "path_join [volumes, u] = abs_path [''vmfs'', ''volumes'', u]"
    by (rule path_join_volume [OF assms(1)])
  show "path_join [volumes, u, r] = abs_path ([''vmfs'', ''volumes'', u] @ comps r)"
    by (rule path_join_datastore [OF assms(1,2,4)])
qed (use assms comps_relative [OF assms(2,3)] plain_comps [OF assms(4)] in auto)

text \<open>The loop finds a datastore only where exactly one carries the name.\<close>

lemma find_datastore_once:
  assumes "find_datastore name r ds [] = Inr p" and "p \<noteq> []" and "\<forall>d \<in> set ds. path_join [volumes, ds_UUID d, r] \<noteq> []"
  shows "\<exists>d. filter (\<lambda>d. ds_Name d = name \<or> ds_UUID d = name) ds = [d] \<and> p = path_join [volumes, ds_UUID d, r]"
  using assms
proof (induction ds)
  case (Cons d ds)
  show ?case
  proof (cases "ds_Name d = name \<or> ds_UUID d = name")
    case True
    with Cons.prems have "find_datastore name r ds (path_join [volumes, ds_UUID d, r]) = Inr p"
      "path_join [volumes, ds_UUID d, r] \<noteq> []" "\<forall>d \<in> set ds. path_join [volumes, ds_UUID d, r] \<noteq> []"
      by (auto split: if_splits)
    from find_datastore_Inr [OF this(1,3)] this(2) True show ?thesis
      by (auto simp: filter_empty_conv)
  next
    case False
    with Cons show ?thesis by auto
  qed
qed simp

text \<open>The part of a reference after its bracket.\<close>

definition bracket_rest :: "string \<Rightarrow> string" where
  "bracket_rest ref = (case index_of ref ''] '' of None \<Rightarrow> [] | Some i \<Rightarrow> drop (i + 2) ref)"

definition bracket_name :: "string \<Rightarrow> string" where
  "bracket_name ref = (case index_of ref ''] '' of None \<Rightarrow> [] | Some i \<Rightarrow> take (i - 1) (drop 1 ref))"

lemma ResolveReference_bracketed:
  assumes "ResolveReference ref dir ds = Inr p" and "has_prefix ref ''[''"
  shows "index_of ref ''] '' \<noteq> None" and "ValidPath ref = None" and "\<not> path_is_abs (bracket_rest ref)"
    and "bracket_rest ref \<noteq> []" and "find_datastore (bracket_name ref) (bracket_rest ref) ds [] = Inr p" and "p \<noteq> []"
proof -
  from assms have v: "ValidPath ref = None"
    unfolding ResolveReference_def by (cases "ValidPath ref") simp_all
  from assms v obtain i where i: "index_of ref ''] '' = Some i"
    unfolding ResolveReference_def by (cases "index_of ref ''] ''") simp_all
  have r: "bracket_rest ref = drop (i + 2) ref" "bracket_name ref = take (i - 1) (drop 1 ref)"
    by (simp_all add: bracket_rest_def bracket_name_def i)
  show "index_of ref ''] '' \<noteq> None" by (simp add: i)
  show "ValidPath ref = None" by (rule v)
  from assms v i show "\<not> path_is_abs (bracket_rest ref)" "bracket_rest ref \<noteq> []"
    "find_datastore (bracket_name ref) (bracket_rest ref) ds [] = Inr p" "p \<noteq> []"
    unfolding ResolveReference_def r Let_def by (auto split: if_splits)
qed

lemma ResolveReference_bracket:
  assumes "ResolveReference ref dir ds = Inr p" and "has_prefix ref ''[''"
    and "\<forall>d \<in> set ds. plain (ds_UUID d)"
    and "hd (split_on slash (bracket_rest ref)) \<notin> {''.'', ''..''}"
  shows "\<exists>d. filter (\<lambda>d. ds_Name d = bracket_name ref \<or> ds_UUID d = bracket_name ref) ds = [d] \<and>
    below (path_join [volumes, ds_UUID d]) p"
proof -
  let ?r = "bracket_rest ref"
  note b = ResolveReference_bracketed [OF assms(1,2)]
  note v = b(2) and r = b(3,4) and f = b(5,6)
  have parts: "\<forall>n \<in> set (split_on slash ?r). n \<noteq> ''.'' \<and> n \<noteq> ''..''"
  proof -
    have eq: "?r = drop (the (index_of ref ''] '') + 2) ref"
      using b(1) by (cases "index_of ref ''] ''") (simp_all only: bracket_rest_def option.case option.sel simp_thms)
    show ?thesis unfolding eq by (rule parts_drop [OF v assms(4) [unfolded eq]])
  qed
  have under: "below (path_join [volumes, ds_UUID d]) (path_join [volumes, ds_UUID d, ?r])" if "d \<in> set ds" for d
    using below_datastore [OF _ r(2,1) parts] assms(3) that by blast
  have "\<forall>d \<in> set ds. path_join [volumes, ds_UUID d, ?r] \<noteq> []"
    using under below_not_Nil by blast
  from find_datastore_once [OF f this] obtain d where
    d: "filter (\<lambda>d. ds_Name d = bracket_name ref \<or> ds_UUID d = bracket_name ref) ds = [d]"
    "p = path_join [volumes, ds_UUID d, ?r]" by blast
  from d(1) have "d \<in> set ds" by (metis filter_is_subset list.set_intros(1) subsetD)
  with d under show ?thesis by blast
qed

lemma ResolveReference_relative:
  assumes "ResolveReference ref (abs_path ns) ds = Inr p" and "\<not> has_prefix ref ''[''" and "\<not> path_is_abs ref"
    and "ns \<noteq> []" "\<forall>n \<in> set ns. plain n"
  shows "below (abs_path ns) p"
proof (rule belowI)
  from assms(1-3) have v: "ValidPath ref = None" and p: "p = path_join [abs_path ns, ref]"
    by (auto simp: ResolveReference_def split: option.splits if_splits)
  from v have r: "ref \<noteq> []" by (auto simp: ValidPath_def)
  show "p = abs_path (ns @ comps ref)"
    unfolding p by (rule path_join_under [OF assms(4,5) r ValidPath_parts [OF v]])
  show "comps ref \<noteq> []" by (rule comps_relative [OF r assms(3)])
  show "\<forall>n \<in> set (comps ref). plain n" by (rule ValidPath_comps [OF v])
qed (use assms in auto)

text \<open>A reference whose path begins with \<open>..\<close> right after the brackets.\<close>

lemma index_of_bracket: "CHR '']'' \<notin> set n \<Longrightarrow> index_of (CHR ''['' # n @ '']'' @ '' '' @ rest) ''] '' = Some (Suc (length n))"
proof -
  have "index_of (n @ CHR '']'' # CHR '' '' # rest) ''] '' = Some (length n)" if "CHR '']'' \<notin> set n"
    using that by (induction n) (auto simp: index_of.simps)
  then show "CHR '']'' \<notin> set n \<Longrightarrow> index_of (CHR ''['' # n @ '']'' @ '' '' @ rest) ''] '' = Some (Suc (length n))" by (simp add: index_of.simps)
qed

lemma find_datastore_finds:
  assumes "filter (\<lambda>d. ds_Name d = n \<or> ds_UUID d = n) ds = [d]" and "path_join [volumes, ds_UUID d, rest] \<noteq> []"
  shows "find_datastore n rest ds [] = Inr (path_join [volumes, ds_UUID d, rest])"
proof -
  have skip: "find_datastore n rest ds found = Inr found" if "filter (\<lambda>d. ds_Name d = n \<or> ds_UUID d = n) ds = []" for ds found
    using that by (induction ds) (auto split: if_splits)
  from assms(1) show ?thesis
    by (induction ds) (auto simp: skip split: if_splits)
qed

lemma in_join: "x \<in> set (join sep ws) \<Longrightarrow> x \<in> set sep \<or> (\<exists>w \<in> set ws. x \<in> set w)"
  by (induction ws rule: induct_list012) auto

lemma climbing_ValidPath:
  assumes "set n \<inter> {CHR '']'', slash, nul, cr, nl, backslash} = {}" and "parts \<noteq> []"
    and "\<forall>p \<in> set parts. plain p \<and> set p \<inter> {nul, cr, nl, backslash} = {}"
  shows "ValidPath (''['' @ n @ ''] ../'' @ join [slash] parts) = None"
proof -
  let ?ref = "''['' @ n @ ''] ../'' @ join [slash] parts" and ?w = "''['' @ n @ ''] ..''"
  have "?ref = ?w @ slash # join [slash] parts" by simp
  moreover have "slash \<notin> set ?w" using assms(1) by auto
  ultimately have "split_on slash ?ref = ?w # parts"
    using split_on_append [of slash ?w] split_join_plain [OF assms(2)] assms(3) by metis
  moreover have "\<forall>p \<in> set parts. p \<noteq> ''.'' \<and> p \<noteq> ''..''" using assms(3) by (simp add: plain_def)
  moreover have "\<not> contains_any ?ref [nul, cr, nl, backslash]"
    using assms(1,3) by (auto simp: contains_any_iff dest!: in_join)
  ultimately show ?thesis by (auto simp: ValidPath_def list_ex_iff)
qed

lemma climbing_path:
  assumes "plain u" and "parts \<noteq> []" and "\<forall>p \<in> set parts. plain p"
  shows "path_join [volumes, u, ''../'' @ join [slash] parts] = abs_path (''vmfs'' # ''volumes'' # parts)"
proof -
  have w: "\<forall>n \<in> set [''vmfs'', ''volumes'', u]. plain n" using assms(1) by (simp add: plain_def)
  have u: "u \<noteq> []" using assms(1) by (simp add: plain_def)
  let ?W = "[''vmfs'', ''volumes'', u] @ ''..'' # parts"
  have "path_join [volumes, u, ''../'' @ join [slash] parts] = path_clean (join [slash] [volumes, u, ''../'' @ join [slash] parts])"
    using u by (simp add: path_join_def volumes_def)
  also have "join [slash] [volumes, u, ''../'' @ join [slash] parts] = slash # join [slash] ?W"
    using assms(2) by (cases parts) (simp_all add: volumes_def)
  also have "path_clean (slash # join [slash] ?W) = slash # join [slash] (clean_parts True (split_on slash (join [slash] ?W)) [])"
    by (simp add: path_clean_def path_is_abs_def del: append.simps join.simps)
  also have "split_on slash (join [slash] ?W) = ?W"
    by (rule split_on_join) (use w assms(3) in \<open>auto simp: plain_def\<close>)
  also have "clean_parts True ?W [] = ''vmfs'' # ''volumes'' # parts"
    unfolding clean_parts_append [OF w] using assms(1,3) by (simp add: plain_def clean_parts_plain)
  finally show ?thesis by (simp add: abs_path_def)
qed

section \<open>Properties\<close>

text \<open>
  C35: the VM inventory is read completely or not at all: a list that is returned has positive IDs, no ID twice,
  and every configuration path is a bracketed datastore name with a path that is neither absolute nor climbs up.
\<close>

theorem vm_inventory_sound:
  assumes "ParseVMs s = Inr vs"
  shows "distinct (map vm_ID vs) \<and> (\<forall>v \<in> set vs. 0 < vm_ID v \<and>
    (\<exists>p. vm_VMXPath v = ''['' @ vm_Datastore v @ ''] '' @ p \<and> ValidPath p = None \<and> \<not> path_is_abs p))"
  using ParseVMs_wf [OF assms] by (simp add: wf_VMs_def wf_VM_def)

definition small_inventory :: string where
  "small_inventory = (''Vmid  Name  File'' @ [nl] @ ''12  web  [ds1] web/web.vmx  ubuntu  vmx-13'')"

theorem vm_inventory_sound_witness: "\<exists>v p. ParseVMs small_inventory = Inr [v] \<and> vm_VMXPath v = ''['' @ vm_Datastore v @ ''] '' @ p"
proof -
  obtain v where p: "ParseVMs small_inventory = Inr [v]"
  proof -
    have "(case ParseVMs small_inventory of Inr [v] \<Rightarrow> True | _ \<Rightarrow> False)" by code_simp
    then show ?thesis using that by (auto split: sum.splits list.splits)
  qed
  from vm_inventory_sound [OF p] show ?thesis using p by auto
qed

text \<open>
  every datastore row that is accepted has a size and free space that are numbers with
  \<open>0 \<le> free \<le> size\<close> within 64 bits.
\<close>

theorem datastore_capacity_sound:
  assumes "ParseDatastores s = Inr ds" and "d \<in> set ds"
  shows "0 \<le> ds_Free d \<and> ds_Free d \<le> ds_Size d \<and> ds_Size d \<le> max_int64"
  using ParseDatastores_wf [OF assms(1)] assms(2) by (simp add: wf_Datastore_def)

definition small_datastores :: string where
  "small_datastores = (''Mount Point  Volume Name  UUID  Mounted  Type  Size  Free'' @ [nl] @ ''/vmfs/volumes/u1  ds1  u1  true  VMFS-6  1000  500'')"

theorem datastore_capacity_sound_witness: "\<exists>d. ParseDatastores small_datastores = Inr [d] \<and> 0 \<le> ds_Free d \<and> ds_Free d \<le> ds_Size d"
proof -
  obtain d where p: "ParseDatastores small_datastores = Inr [d]"
  proof -
    have "(case ParseDatastores small_datastores of Inr [d] \<Rightarrow> True | _ \<Rightarrow> False)" by code_simp
    then show ?thesis using that by (auto split: sum.splits list.splits)
  qed
  from datastore_capacity_sound [OF p, of d] show ?thesis using p by auto
qed

text \<open>
  C36: a reference \<open>[datastore] path\<close> whose path does not begin with a dot component resolves through exactly one
  datastore, the one the brackets name, and to a file below that datastore's directory: it cannot leave it.
\<close>

theorem reference_stays_on_datastore:
  assumes "ResolveReference ref dir ds = Inr p" and "has_prefix ref ''[''"
    and "\<forall>d \<in> set ds. plain (ds_UUID d)"
    and "hd (split_on slash (bracket_rest ref)) \<notin> {''.'', ''..''}"
  shows "\<exists>d. filter (\<lambda>d. ds_Name d = bracket_name ref \<or> ds_UUID d = bracket_name ref) ds = [d] \<and>
    below (path_join [volumes, ds_UUID d]) p"
  using assms by (rule ResolveReference_bracket)

definition ds1 :: Datastore where
  "ds1 = \<lparr>ds_Name = ''ds1'', ds_UUID = ''u1'', ds_Mount = [], ds_Type = ''VMFS-6'', ds_Mounted = True, ds_Size = 0, ds_Free = 0\<rparr>"

theorem reference_stays_on_datastore_witness:
  "\<exists>d. filter (\<lambda>d. ds_Name d = bracket_name ''[ds1] web/web.vmdk'' \<or> ds_UUID d = bracket_name ''[ds1] web/web.vmdk'') [ds1] = [d] \<and>
    below (path_join [volumes, ds_UUID d]) ''/vmfs/volumes/u1/web/web.vmdk''"
proof (rule reference_stays_on_datastore)
  show "ResolveReference ''[ds1] web/web.vmdk'' [] [ds1] = Inr ''/vmfs/volumes/u1/web/web.vmdk''" by code_simp
  show "has_prefix ''[ds1] web/web.vmdk'' ''[''" by code_simp
  show "\<forall>d \<in> set [ds1]. plain (ds_UUID d)" by (simp add: ds1_def plain_def)
  show "hd (split_on slash (bracket_rest ''[ds1] web/web.vmdk'')) \<notin> {''.'', ''..''}" by code_simp
qed

text \<open>
  C37: the guard against climbing up looks at the components of the whole reference, so a \<open>..\<close> right after the brackets, which is part of the
  first component, escapes it: whatever datastore the brackets name, \<open>[name] ../a/b\<close> is accepted and resolves to \<open>a/b\<close> below the folder
  of all volumes, and so to no file of the datastore that was named, unless the path itself names it again.
\<close>

theorem reference_can_leave_datastore:
  assumes "n \<noteq> []" and "set n \<inter> {CHR '']'', slash, nul, cr, nl, backslash} = {}"
    and "filter (\<lambda>d. ds_Name d = n \<or> ds_UUID d = n) ds = [d]" and "plain (ds_UUID d)"
    and "parts \<noteq> []" and "\<forall>p \<in> set parts. plain p \<and> set p \<inter> {nul, cr, nl, backslash} = {}"
  shows "ResolveReference (''['' @ n @ ''] ../'' @ join [slash] parts) dir ds = Inr (abs_path (''vmfs'' # ''volumes'' # parts)) \<and>
    (hd parts \<noteq> ds_UUID d \<longrightarrow> \<not> below (path_join [volumes, ds_UUID d]) (abs_path (''vmfs'' # ''volumes'' # parts)))"
proof (intro conjI impI notI)
  let ?ref = "''['' @ n @ ''] ../'' @ join [slash] parts" and ?rest = "''../'' @ join [slash] parts"
  have valid: "ValidPath ?ref = None" by (rule climbing_ValidPath [OF assms(2,5,6)])
  have open_at: "index_of ?ref ''] '' = Some (Suc (length n))"
    using index_of_bracket [of n ?rest] assms(2) by simp
  have path: "path_join [volumes, ds_UUID d, ?rest] = abs_path (''vmfs'' # ''volumes'' # parts)"
    by (rule climbing_path) (use assms(4,5,6) in auto)
  have found: "find_datastore n ?rest ds [] = Inr (path_join [volumes, ds_UUID d, ?rest])"
    by (rule find_datastore_finds [OF assms(3)], unfold path) (simp add: abs_path_def)
  with valid open_at path assms(1) show "ResolveReference ?ref dir ds = Inr (abs_path (''vmfs'' # ''volumes'' # parts))"
    by (cases n) (simp_all add: ResolveReference_def path_is_abs_def abs_path_def)
  assume "hd parts \<noteq> ds_UUID d" and "below (path_join [volumes, ds_UUID d]) (abs_path (''vmfs'' # ''volumes'' # parts))"
  then obtain ns ms where b: "ns \<noteq> []" "\<forall>n \<in> set (ns @ ms). plain n" "abs_path [''vmfs'', ''volumes'', ds_UUID d] = abs_path ns"
      "abs_path (''vmfs'' # ''volumes'' # parts) = abs_path (ns @ ms)"
    unfolding below_def path_join_volume [OF assms(4)] by blast
  have w: "plain ''vmfs''" "plain ''volumes''" by (simp_all add: plain_def)
  from b(1-3) w assms(4) have ns: "ns = [''vmfs'', ''volumes'', ds_UUID d]"
    using comps_abs_path [of ns] comps_abs_path [of "[''vmfs'', ''volumes'', ds_UUID d]"] by auto
  have "ns @ ms = ''vmfs'' # ''volumes'' # parts"
    using b comps_abs_path [of "ns @ ms"] comps_abs_path [of "''vmfs'' # ''volumes'' # parts"] w assms(6) by auto
  with ns \<open>hd parts \<noteq> ds_UUID d\<close> show False by auto
qed

theorem reference_can_leave_datastore_witness:
  "ResolveReference ''[ds1] ../u2/web/web.vmdk'' [] [ds1] = Inr ''/vmfs/volumes/u2/web/web.vmdk'' \<and>
   \<not> below (path_join [volumes, ds_UUID ds1]) ''/vmfs/volumes/u2/web/web.vmdk''"
proof -
  have "plain p \<and> set p \<inter> {nul, cr, nl, backslash} = {}" if "p \<in> set [''u2'', ''web'', ''web.vmdk'']" for p
    using that by (auto simp: plain_def)
  then have "ResolveReference (''['' @ ''ds1'' @ ''] ../'' @ join [slash] [''u2'', ''web'', ''web.vmdk'']) [] [ds1] = Inr (abs_path (''vmfs'' # ''volumes'' # [''u2'', ''web'', ''web.vmdk''])) \<and>
    (hd [''u2'', ''web'', ''web.vmdk''] \<noteq> ds_UUID ds1 \<longrightarrow> \<not> below (path_join [volumes, ds_UUID ds1]) (abs_path (''vmfs'' # ''volumes'' # [''u2'', ''web'', ''web.vmdk''])))"
    by (intro reference_can_leave_datastore) (auto simp: ds1_def plain_def)
  then show ?thesis by (simp add: abs_path_def ds1_def)
qed

text \<open>
  a reference relative to a folder resolves to a file below that folder.
\<close>

theorem relative_reference_stays:
  assumes "ResolveReference ref (abs_path ns) ds = Inr p" and "\<not> has_prefix ref ''[''" and "\<not> path_is_abs ref"
    and "ns \<noteq> []" "\<forall>n \<in> set ns. plain n"
  shows "below (abs_path ns) p \<and> has_prefix p (abs_path ns @ [slash])"
  using ResolveReference_relative [OF assms] below_prefix by blast

theorem relative_reference_stays_witness: "below (abs_path [''vmfs'', ''volumes'', ''u1'', ''web'']) ''/vmfs/volumes/u1/web/a.vmdk''"
proof -
  have "ResolveReference ''a.vmdk'' (abs_path [''vmfs'', ''volumes'', ''u1'', ''web'']) [] = Inr ''/vmfs/volumes/u1/web/a.vmdk''"
    by code_simp
  from relative_reference_stays [OF this] show ?thesis by (simp add: path_is_abs_def plain_def)
qed

end
