(* ===== verification/Esxi_Output.thy ===== *)
theory Esxi_Output
  imports Esxi_Inventory
begin

text \<open>
  What the tool reads out of the answers of ESXi commands: \<open>internal/esxi/vm.go\<close> (power
  state, VMware Tools, registration, authoritative path, the moved-or-copied question),
  \<open>snapshot.go\<close> (the snapshot tree), \<open>autostart.go\<close>, \<open>running.go\<close> and the
  progress of a clone in \<open>detached.go\<close>. Every parser refuses what it does not know.
\<close>

section \<open>Power state\<close>

type_synonym Power = string

definition Off :: Power where "Off = ''Powered off''"
definition On :: Power where "On = ''Powered on''"
definition Suspended :: Power where "Suspended = ''Suspended''"

definition parse_power_line :: "string \<Rightarrow> Power \<Rightarrow> Power result" where
  "parse_power_line line found = (let t = trim_space line in
     if t = [] \<or> t = ''Retrieved runtime info'' then Inr found
     else if t \<in> {Off, On, Suspended} then
       if found \<noteq> [] then Inl (Errorf ''ambiguous power state'') else Inr t
     else Inl (Errorf ''unknown power state''))"

definition ParsePower :: "string \<Rightarrow> Power result" where
  "ParsePower s = and_then (fold_result parse_power_line (split_on nl s) [])
     (\<lambda>found. if found = [] then Inl (Errorf ''missing power state'') else Inr found)"

section \<open>VMware Tools\<close>

definition toolsRunning :: rx where
  "toolsRunning = rseq [Bol, Star rspace, rlit ''toolsRunningStatus'', Star rspace, rchar (CHR ''=''), Star rspace,
     rchar dq, Grp 1 (Star (rnot_in [dq, cr, nl])), rchar dq]"

definition ParseToolsRunning :: "string \<Rightarrow> bool result" where
  "ParseToolsRunning s = (let m = find_all_submatch toolsRunning s in
     if length m \<noteq> 1 then Inl (Errorf ''unknown VMware Tools status'')
     else if rx_group (hd m) 1 \<in> {''guestToolsRunning'', ''guestToolsExecutingScripts''} then Inr True
     else if rx_group (hd m) 1 = ''guestToolsNotRunning'' then Inr False
     else Inl (Errorf ''unknown VMware Tools status''))"

definition parse_registration :: "string \<Rightarrow> int result" where
  "parse_registration s = (case parse_int64 (trim_space s) of
      None \<Rightarrow> Inl (Errorf ''registration result unknown; reconcile inventory'')
    | Some n \<Rightarrow> if n \<le> 0 then Inl (Errorf ''registration result unknown; reconcile inventory'') else Inr n)"

section \<open>The authoritative configuration path\<close>

text \<open>\<open>strconv.Unquote\<close> of a double-quoted string, after the opening quote.\<close>

definition encode_rune :: "nat \<Rightarrow> string" where
  "encode_rune r =
     (if r < 0x80 then [char_of r]
      else if r < 0x800 then [char_of (0xC0 + r div 64), char_of (0x80 + r mod 64)]
      else if r < 0x10000 then [char_of (0xE0 + r div 4096), char_of (0x80 + r div 64 mod 64), char_of (0x80 + r mod 64)]
      else [char_of (0xF0 + r div 262144), char_of (0x80 + r div 4096 mod 64), char_of (0x80 + r div 64 mod 64),
            char_of (0x80 + r mod 64)])"

definition valid_rune :: "nat \<Rightarrow> bool" where
  "valid_rune r = (r < 0xD800 \<or> 0xDFFF < r \<and> r \<le> 0x10FFFF)"

fun hex_number :: "string \<Rightarrow> nat \<Rightarrow> nat option" where
  "hex_number [] acc = Some acc"
| "hex_number (c # cs) acc = (case hex_value c of None \<Rightarrow> None | Some v \<Rightarrow> hex_number cs (16 * acc + v))"

definition take_hex :: "nat \<Rightarrow> string \<Rightarrow> nat option" where
  "take_hex n s = (if length s < n then None else hex_number (take n s) 0)"

definition is_octal :: "char \<Rightarrow> bool" where "is_octal c = between 48 55 c"

text \<open>One character of the literal: the bytes it stands for and how much was read.\<close>

definition unquote_escape :: "string \<Rightarrow> (string \<times> nat) option" where
  "unquote_escape s = (case s of [] \<Rightarrow> None | c # cs \<Rightarrow>
     (if c = CHR ''a'' then Some ([char_of (7::nat)], 1)
      else if c = CHR ''b'' then Some ([char_of (8::nat)], 1)
      else if c = CHR ''f'' then Some ([char_of (12::nat)], 1)
      else if c = CHR ''n'' then Some ([char_of (10::nat)], 1)
      else if c = CHR ''r'' then Some ([char_of (13::nat)], 1)
      else if c = CHR ''t'' then Some ([char_of (9::nat)], 1)
      else if c = CHR ''v'' then Some ([char_of (11::nat)], 1)
      else if c = CHR ''x'' then map_option (\<lambda>v. ([char_of v], 3)) (take_hex 2 cs)
      else if c = CHR ''u'' then
        (case take_hex 4 cs of Some v \<Rightarrow> if valid_rune v then Some (encode_rune v, 5) else None | None \<Rightarrow> None)
      else if c = CHR ''U'' then
        (case take_hex 8 cs of Some v \<Rightarrow> if valid_rune v then Some (encode_rune v, 9) else None | None \<Rightarrow> None)
      else if is_octal c then
        (if 2 \<le> length cs \<and> is_octal (cs ! 0) \<and> is_octal (cs ! 1) then
           let v = 64 * (byte c - 48) + 8 * (byte (cs ! 0) - 48) + (byte (cs ! 1) - 48) in
           if v > 255 then None else Some ([char_of v], 3)
         else None)
      else if c = backslash \<or> c = dq then Some ([c], 1)
      else None))"

definition rune_length :: "string \<Rightarrow> nat option" where
  "rune_length s = find (\<lambda>n. n \<le> length s \<and> valid_utf8 (take n s)) [1, 2, 3, 4]"

text \<open>\<open>strings.ToValidUTF8(s, "")\<close>: what is not UTF-8 is dropped.\<close>

function to_valid_utf8 :: "string \<Rightarrow> string" where
  "to_valid_utf8 s = (case s of
      [] \<Rightarrow> []
    | c # cs \<Rightarrow> (case rune_length s of
          Some n \<Rightarrow> take n s @ to_valid_utf8 (drop (n - 1) cs)
        | None \<Rightarrow> to_valid_utf8 cs))"
  by pat_completeness auto
termination
  by (relation "measure length") auto

declare to_valid_utf8.simps [simp del]

function unquote_chars :: "string \<Rightarrow> string option" where
  "unquote_chars s = (case s of
      [] \<Rightarrow> None
    | c # cs \<Rightarrow>
        if c = dq then (if cs = [] then Some [] else None)
        else if c = nl then None
        else if c = backslash then
          (case unquote_escape cs of
             None \<Rightarrow> None
           | Some (out, n) \<Rightarrow> map_option ((@) out) (unquote_chars (drop n cs)))
        else (case rune_length s of
            Some n \<Rightarrow> map_option ((@) (take n s)) (unquote_chars (drop (n - 1) cs))
          | None \<Rightarrow> map_option ((@) (encode_rune 0xFFFD)) (unquote_chars cs)))"
  by pat_completeness auto
termination
  by (relation "measure length") auto

declare unquote_chars.simps [simp del]

definition strconv_unquote :: "string \<Rightarrow> string option" where
  "strconv_unquote s = (case s of [] \<Rightarrow> None | c # cs \<Rightarrow> if c = dq then unquote_chars cs else None)"

definition vmPathField :: rx where
  "vmPathField = rseq [Bol, Star rspace, rlit ''vmPathName'', Star rspace, rchar (CHR ''=''), Star rspace,
     Grp 1 (rseq [rchar dq, Star (Alt (rnot_in [dq, backslash, cr, nl]) (Seq (rchar backslash) rany)), rchar dq]),
     ropt (rchar (CHR '','')), Star rspace, Eol]"

definition ParseVMPath :: "string \<Rightarrow> string result" where
  "ParseVMPath s = (let matches = find_all_submatch vmPathField s in
     if length matches \<noteq> 1 then Inl (Errorf ''unknown or ambiguous authoritative VMX path'')
     else (case strconv_unquote (rx_group (hd matches) 1) of
         None \<Rightarrow> Inl (Errorf ''unsupported authoritative VMX path'')
       | Some p \<Rightarrow>
           if ValidPath p \<noteq> None \<or> \<not> has_prefix p ''['' \<or> \<not> has_suffix p ''.vmx''
           then Inl (Errorf ''unsupported authoritative VMX path'') else Inr p))"

section \<open>The question of a moved VM\<close>

definition messageID :: rx where
  "messageID = rseq [Bol, Star rspace, rlit ''Virtual machine message'', rplus rspace, Grp 1 (rplus rdigit), Star rspace,
     rchar (CHR '':''), Star rspace, Eol]"

definition movedChoice :: rx where
  "movedChoice = rseq [Bol, Star rspace, Grp 1 (rplus rdigit), rchar (CHR ''.''), Star rspace,
     rlit_fold ''I '', ropt (rchar (CHR ''_'')), rlit_fold ''moved it'', ropt (rchar (CHR ''.'')), Star rspace,
     ropt (rseq [rlit_fold ''(I '', ropt (rchar (CHR ''_'')), rlit_fold ''moved it)'']), Star rspace,
     ropt (rlit_fold ''[default]''), Star rspace, Eol]"

definition MovedAnswer :: "string \<Rightarrow> (string \<times> string) result" where
  "MovedAnswer s = (let ids = find_all_submatch messageID s; choices = find_all_submatch movedChoice s in
     if length ids \<noteq> 1 \<or> length choices \<noteq> 1 \<or> \<not> contains s ''msg.uuid.altered''
     then Inl (Errorf ''unknown VM question; answer manually in ESXi Host Client'')
     else Inr (rx_group (hd ids) 1, rx_group (hd choices) 1))"

section \<open>The snapshot tree\<close>

definition treeName :: rx where
  "treeName = rseq [Bot, rplus (rchar (CHR ''-'')), rlit ''Snapshot Name'', Star rspace, rchar (CHR '':''), Star rspace,
     Grp 1 (Star rany), Eot]"

definition treeField :: rx where
  "treeField = rseq [Bot, rplus (rchar (CHR ''-'')), rlit ''Snapshot '',
     Alt (rlit ''Id'') (Alt (rlit ''Desciption'') (Alt (rlit ''Description'') (Alt (rlit ''Created On'') (rlit ''State'')))),
     Star rspace, rchar (CHR '':'')]"

definition snapshot_line :: "string \<Rightarrow> string list \<times> bool \<Rightarrow> (string list \<times> bool) result" where
  "snapshot_line line st = (let t = trim_space line in case st of (names, header) \<Rightarrow>
     (if t = [] \<or> t = ''No snapshots.'' then Inr (names, header)
      else if t = ''Get Snapshot:'' then Inr (names, True)
      else if t = ''|-ROOT'' then Inr (names, header)
      else (case find_submatch treeName t of
          Some m \<Rightarrow> Inr (names @ [trim_space (rx_group m 1)], header)
        | None \<Rightarrow>
            if match_string treeField t then Inr (names, header)
            else Inl (Errorf ''unrecognized snapshot tree''))))"

definition SnapshotNames :: "string \<Rightarrow> (string list) result" where
  "SnapshotNames s = and_then (fold_result snapshot_line (split_on nl s) ([], False))
     (\<lambda>st. if \<not> snd st then Inl (Errorf ''unrecognized snapshot tree'') else Inr (fst st))"

section \<open>The autostart sequence\<close>

record AutoStart =
  au_Order :: int
  au_Action :: string

definition AutoStart_On :: "AutoStart \<Rightarrow> bool" where
  "AutoStart_On a = (au_Action a = ''powerOn'' \<or> au_Action a = ''systemDefault'')"

definition autoKey :: rx where
  "autoKey = rseq [Bot, rlit ''key = '', rchar sq, rlit ''vim.VirtualMachine:'', Grp 1 (rplus rdigit), rchar sq,
     ropt (rchar (CHR '','')), Eot]"

definition autoField :: rx where
  "autoField = rseq [Bot, Grp 1 (Alt (rlit ''startOrder'') (rlit ''startAction'')), rlit '' = '', ropt (rchar dq),
     Grp 2 (Star (rnot_in [dq, CHR '',''])), ropt (rchar dq), ropt (rchar (CHR '','')), Eot]"

record AutoState =
  as_out :: "(int, AutoStart) gomap"
  as_id :: int
  as_open :: bool
  as_cur :: AutoStart

definition zero_AutoStart :: AutoStart where
  "zero_AutoStart = \<lparr>au_Order = 0, au_Action = []\<rparr>"

text \<open>\<open>id, _ = strconv.Atoi(digits)\<close>: an overflow leaves the largest integer.\<close>

definition atoi_digits :: "string \<Rightarrow> int" where
  "atoi_digits s = (case parse_int64 s of Some n \<Rightarrow> n | None \<Rightarrow> max_int64)"

definition auto_line :: "string \<Rightarrow> AutoState \<Rightarrow> AutoState result" where
  "auto_line line s = (let t = trim_space line in
     if t = ''(vim.host.AutoStartManager.AutoPowerInfo) {''
     then Inr (s\<lparr>as_id := 0, as_open := True, as_cur := zero_AutoStart\<rparr>)
     else if as_open s \<and> (t = ''}'' \<or> t = ''},'') then
       if as_id s = 0 then Inl (Errorf ''autostart entry without a VM'')
       else if has_key (as_out s) (as_id s) then Inl (Errorf ''two autostart entries for one VM'')
       else Inr (s\<lparr>as_out := put (as_out s) (as_id s) (as_cur s), as_open := False\<rparr>)
     else if as_open s then
       (case find_submatch autoKey t of
          Some m \<Rightarrow> Inr (s\<lparr>as_id := atoi_digits (rx_group m 1)\<rparr>)
        | None \<Rightarrow>
            (case find_submatch autoField t of
               Some m \<Rightarrow>
                 if rx_group m 1 = ''startAction'' then Inr (s\<lparr>as_cur := (as_cur s)\<lparr>au_Action := rx_group m 2\<rparr>\<rparr>)
                 else (case parse_int64 (rx_group m 2) of
                     Some n \<Rightarrow> Inr (s\<lparr>as_cur := (as_cur s)\<lparr>au_Order := n\<rparr>\<rparr>)
                   | None \<Rightarrow> Inr s)
             | None \<Rightarrow> Inr s))
     else Inr s)"

definition ParseAutostart :: "string \<Rightarrow> ((int, AutoStart) gomap) result" where
  "ParseAutostart s = and_then
     (fold_result auto_line (split_on nl s) \<lparr>as_out = [], as_id = 0, as_open = False, as_cur = zero_AutoStart\<rparr>)
     (\<lambda>st. if as_open st then Inl (Errorf ''unfinished autostart entry'') else Inr (as_out st))"

section \<open>Running VMs\<close>

definition ParseRunningVMX :: "string \<Rightarrow> string list" where
  "ParseRunningVMX s = concat (map (\<lambda>line. let t = trim_space line in
     if has_prefix t ''Config File:'' then
       let p = trim_space (drop (length ''Config File:'') t) in if p \<noteq> [] then [p] else []
     else []) (split_on nl s))"

definition canonicalVMX :: "string \<Rightarrow> Datastore list \<Rightarrow> string" where
  "canonicalVMX p ds =
     (if has_prefix p ''['' then (case ResolveReference p [] ds of Inr full \<Rightarrow> full | Inl _ \<Rightarrow> p)
      else if \<not> has_prefix p ''/vmfs/volumes/'' then p
      else let (volume, file, _) = cut (drop (length ''/vmfs/volumes/'') p) [slash] in
        (case find (\<lambda>d. ds_Name d = volume) ds of
           Some d \<Rightarrow> path_join [volumes, ds_UUID d, file]
         | None \<Rightarrow> p))"

text \<open>\<open>MarkRunning\<close>, given what the command answered.\<close>

definition mark_running :: "string result \<Rightarrow> Datastore list \<Rightarrow> VM list \<Rightarrow> VM list" where
  "mark_running r ds vms = (case r of
      Inl _ \<Rightarrow> vms
    | Inr s \<Rightarrow> (let running = map (\<lambda>p. canonicalVMX p ds) (ParseRunningVMX s) in
        map (\<lambda>vm. vm\<lparr>vm_Power := if canonicalVMX (vm_VMXPath vm) ds \<in> set running then ''on'' else ''off''\<rparr>) vms))"

section \<open>The progress of a clone\<close>

definition progressPattern :: rx where
  "progressPattern = rseq [rlit_fold ''Clone:'', Star rspace,
     Grp 1 (Seq rdigit (ropt (Seq rdigit (ropt rdigit)))), ropt (Seq (rchar (CHR ''.'')) (rplus rdigit)),
     rchar (CHR ''%''), Star rspace, rlit_fold ''done'']"

definition Progress :: "string \<Rightarrow> int" where
  "Progress s = fold (\<lambda>m p. if atoi_digits (rx_group m 1) \<le> 100 then atoi_digits (rx_group m 1) else p)
     (find_all_submatch progressPattern s) 0"

section \<open>What the parsers promise\<close>

text \<open>The lines of an answer that carry something.\<close>

definition told :: "string set \<Rightarrow> string \<Rightarrow> string list" where
  "told skip s = filter (\<lambda>t. t \<noteq> [] \<and> t \<notin> skip) (map trim_space (split_on nl s))"

definition power_states :: "string set" where "power_states = {Off, On, Suspended}"

lemma power_states_told: "[] \<notin> power_states" "''Retrieved runtime info'' \<notin> power_states"
  by (simp_all add: power_states_def Off_def On_def Suspended_def)

lemma parse_power_line_eq:
  "parse_power_line line found = (let t = trim_space line in
     if t = [] \<or> t = ''Retrieved runtime info'' then Inr found
     else if t \<in> power_states then
       if found \<noteq> [] then Inl (Errorf ''ambiguous power state'') else Inr t
     else Inl (Errorf ''unknown power state''))"
  by (simp only: parse_power_line_def power_states_def)

lemma parse_power_lines:
  defines "keep \<equiv> \<lambda>t. t \<noteq> [] \<and> t \<notin> {''Retrieved runtime info''}"
  shows "fold_result parse_power_line ls found = Inr p \<longleftrightarrow>
     set (filter keep (map trim_space ls)) \<subseteq> power_states \<and>
     (if found = [] then filter keep (map trim_space ls) = [] \<and> p = [] \<or> filter keep (map trim_space ls) = [p]
      else filter keep (map trim_space ls) = [] \<and> p = found)"
proof (induction ls arbitrary: found)
  case (Cons l ls)
  consider "\<not> keep (trim_space l)" | "keep (trim_space l)" "trim_space l \<in> power_states"
    | "keep (trim_space l)" "trim_space l \<notin> power_states" by blast
  then show ?case
  proof cases
    case 1
    then have "parse_power_line l found = Inr found" by (auto simp: parse_power_line_eq Let_def keep_def)
    with 1 show ?thesis by (simp add: Cons.IH)
  next
    case 2
    then have "parse_power_line l found = (if found \<noteq> [] then Inl (Errorf ''ambiguous power state'') else Inr (trim_space l))"
      by (simp add: parse_power_line_eq Let_def keep_def)
    moreover have "trim_space l \<noteq> []" using 2(1) by (simp add: keep_def)
    ultimately show ?thesis using 2 by (auto simp: Cons.IH)
  next
    case 3
    then have "parse_power_line l found = Inl (Errorf ''unknown power state'')"
      by (simp add: parse_power_line_eq Let_def keep_def)
    with 3 show ?thesis by auto
  qed
qed auto

lemma parse_power_told: "fold_result parse_power_line (split_on nl s) [] = Inr p \<longleftrightarrow>
    set (told {''Retrieved runtime info''} s) \<subseteq> power_states \<and>
    (told {''Retrieved runtime info''} s = [] \<and> p = [] \<or> told {''Retrieved runtime info''} s = [p])"
  by (simp only: parse_power_lines told_def refl if_True)

lemma ParsePower_told:
  "ParsePower s = Inr p \<longleftrightarrow> p \<in> power_states \<and> told {''Retrieved runtime info''} s = [p]"
proof
  assume "ParsePower s = Inr p"
  then have "fold_result parse_power_line (split_on nl s) [] = Inr p" "p \<noteq> []"
    by (auto simp: ParsePower_def split: if_splits)
  then have t: "set (told {''Retrieved runtime info''} s) \<subseteq> power_states" "told {''Retrieved runtime info''} s = [p]"
    unfolding parse_power_told by blast+
  then have "p \<in> set (told {''Retrieved runtime info''} s)" by simp
  with t show "p \<in> power_states \<and> told {''Retrieved runtime info''} s = [p]" by blast
next
  assume p: "p \<in> power_states \<and> told {''Retrieved runtime info''} s = [p]"
  then have "set (told {''Retrieved runtime info''} s) \<subseteq> power_states" by simp
  with p have "fold_result parse_power_line (split_on nl s) [] = Inr p"
    unfolding parse_power_told by simp
  moreover have "p \<noteq> []" using p power_states_told by auto
  ultimately show "ParsePower s = Inr p" by (simp add: ParsePower_def)
qed

lemma parse_int64_digits: "\<forall>c \<in> set w. is_digit c \<Longrightarrow> parse_int64 w = Some n \<Longrightarrow> 0 \<le> n"
proof (cases w)
  case (Cons a v)
  assume d: "\<forall>c \<in> set w. is_digit c" and n: "parse_int64 w = Some n"
  have "\<not> is_digit (CHR ''-'')" "\<not> is_digit (CHR ''+'')" by (simp_all add: is_digit_def between_def byte_def)
  with d Cons have "a \<noteq> CHR ''-''" "a \<noteq> CHR ''+''" by auto
  with n Cons show ?thesis by (auto simp: parse_int64_def Let_def split: if_splits)
qed (simp add: parse_int64_def)

lemma atoi_digits_nonneg: "\<forall>c \<in> set w. is_digit c \<Longrightarrow> 0 \<le> atoi_digits w"
  by (auto simp: atoi_digits_def max_int64_def dest: parse_int64_digits split: option.splits)

lemma rx_group_digits:
  assumes "ms = find_all_submatch r s" and "m \<in> set ms" and "\<And>w. (n, w) \<in> caps r \<Longrightarrow> word_of (rplus rdigit) w"
  shows "\<forall>x \<in> set (rx_group m n). is_digit x"
proof -
  from assms(1,2) have "rx_group m n = [] \<or> (n, rx_group m n) \<in> caps r"
    unfolding find_all_submatch_def by (intro rx_group_caps find_all_caps) simp
  with assms(3) word_of_plus_digits show ?thesis by fastforce
qed

lemma MovedAnswer_digits:
  assumes "MovedAnswer s = Inr (q, c)"
  shows "\<forall>x \<in> set q. is_digit x" and "\<forall>x \<in> set c. is_digit x"
proof -
  let ?i = "find_all_submatch messageID s" and ?c = "find_all_submatch movedChoice s"
  from assms have q: "length ?i = 1" "q = rx_group (hd ?i) 1" and c: "length ?c = 1" "c = rx_group (hd ?c) 1"
    by (auto simp: MovedAnswer_def Let_def split: if_splits)
  show "\<forall>x \<in> set q. is_digit x" unfolding q(2)
    by (rule rx_group_digits [OF refl]) (use q(1) in \<open>auto simp: messageID_def intro!: list.set_sel(1)\<close>)
  show "\<forall>x \<in> set c. is_digit x" unfolding c(2)
    by (rule rx_group_digits [OF refl]) (use c(1) in \<open>auto simp: movedChoice_def intro!: list.set_sel(1)\<close>)
qed

text \<open>Up to three digits.\<close>

lemma word_of_digits3:
  "word_of (Seq rdigit (ropt (Seq rdigit (ropt rdigit)))) w \<Longrightarrow> \<forall>c \<in> set w. is_digit c"
  unfolding ropt_def rdigit_def
  by (auto elim!: word_of_seqE word_of_charsE word_of_altE word_of_epsE)

lemma Progress_range: "0 \<le> Progress s \<and> Progress s \<le> 100"
proof -
  have f: "0 \<le> p \<Longrightarrow> p \<le> 100 \<Longrightarrow> (\<And>m. m \<in> set ms \<Longrightarrow> 0 \<le> f m) \<Longrightarrow>
      0 \<le> fold (\<lambda>m p. if f m \<le> 100 then f m else p) ms p \<and> fold (\<lambda>m p. if f m \<le> 100 then f m else p) ms p \<le> 100"
    for f :: "pos \<Rightarrow> int" and ms p
    by (induction ms arbitrary: p) auto
  have "0 \<le> atoi_digits (rx_group m 1)" if "m \<in> set (find_all_submatch progressPattern s)" for m
  proof -
    from that have "rx_group m 1 = [] \<or> (1, rx_group m 1) \<in> caps progressPattern"
      unfolding find_all_submatch_def by (intro rx_group_caps find_all_caps)
    then have "\<forall>c \<in> set (rx_group m 1). is_digit c"
      using word_of_digits3 by (fastforce simp: progressPattern_def)
    then show ?thesis by (rule atoi_digits_nonneg)
  qed
  from f [of 0 "find_all_submatch progressPattern s" "\<lambda>m. atoi_digits (rx_group m 1)", OF _ _ this]
  show ?thesis unfolding Progress_def by simp
qed

lemma ParseAutostart_wf:
  assumes "ParseAutostart s = Inr m"
  shows "wf_map m \<and> 0 \<notin> set (keys m)"
proof -
  from assms obtain st where st: "fold_result auto_line (split_on nl s)
      \<lparr>as_out = [], as_id = 0, as_open = False, as_cur = zero_AutoStart\<rparr> = Inr st" "m = as_out st"
    by (auto simp: ParseAutostart_def split: if_splits)
  have "wf_map (as_out st) \<and> 0 \<notin> set (keys (as_out st))"
    by (rule fold_result_invariant [OF _ _ st(1), where P = "\<lambda>st. wf_map (as_out st) \<and> 0 \<notin> set (keys (as_out st))"])
      (auto simp: auto_line_def Let_def keys_def [where m = "[]"] split: if_splits option.splits)
  with st(2) show ?thesis by simp
qed

lemma SnapshotNames_header:
  assumes "SnapshotNames s = Inr names"
  shows "\<exists>line \<in> set (split_on nl s). trim_space line = ''Get Snapshot:''"
proof -
  have step: "snapshot_line l st = Inr st' \<Longrightarrow> snd st' \<Longrightarrow> snd st \<or> trim_space l = ''Get Snapshot:''" for l st st'
    by (auto simp: snapshot_line_def Let_def split: if_splits option.splits prod.splits)
  from assms obtain st where st: "fold_result snapshot_line (split_on nl s) ([], False) = Inr st" "snd st"
    by (auto simp: SnapshotNames_def split: if_splits)
  have "snd st \<longrightarrow> (\<exists>line \<in> set (split_on nl s). trim_space line = ''Get Snapshot:'')"
    by (rule fold_result_invariant [OF _ _ st(1), where
        P = "\<lambda>st. snd st \<longrightarrow> (\<exists>line \<in> set (split_on nl s). trim_space line = ''Get Snapshot:'')"])
      (use step in blast, simp)
  with st(2) show ?thesis by blast
qed

section \<open>Properties\<close>

text \<open>
  a power state is believed only when ESXi says it once and says nothing else: \<open>ParsePower\<close> gives a state exactly when
  the lines of the output, blank ones and ESXi's banner aside, are that one known state.
\<close>

theorem power_state_unambiguous:
  "ParsePower s = Inr p \<longleftrightarrow> p \<in> power_states \<and> told {''Retrieved runtime info''} s = [p]"
  by (rule ParsePower_told)

text \<open>
  the answer to a question of a moved VM goes to one question only, \<open>msg.uuid.altered\<close>, of which the output has exactly one,
  and both the question's number and the choice sent to ESXi are digits.
\<close>

theorem moved_answer_sound:
  assumes "MovedAnswer s = Inr (q, c)"
  shows "contains s ''msg.uuid.altered'' \<and> length (find_all_submatch messageID s) = 1 \<and> length (find_all_submatch movedChoice s) = 1 \<and>
    (\<forall>x \<in> set q. is_digit x) \<and> (\<forall>x \<in> set c. is_digit x)"
  using MovedAnswer_digits [OF assms] assms by (auto simp: MovedAnswer_def Let_def split: if_splits)

definition moved_question :: string where
  "moved_question = (''Virtual machine message 42:'' @ [nl] @ ''msg.uuid.altered:This VM might have been moved or copied.'' @ [nl] @ ''1. I moved it'' @ [nl] @ ''2. I copied it [default]'')"

theorem moved_answer_sound_witness: "MovedAnswer moved_question = Inr (''42'', ''1'') \<and> list_all is_digit ''42''"
proof -
  have p: "MovedAnswer moved_question = Inr (''42'', ''1'')" by code_simp
  from moved_answer_sound [OF p] p show ?thesis by (simp add: list_all_iff)
qed

text \<open>
  progress is always a percentage, whatever the clone's log contains.
\<close>

theorem progress_percent: "0 \<le> Progress s \<and> Progress s \<le> 100"
  by (rule Progress_range)

text \<open>
  the autostart sequence that is returned has one entry for a VM, and none without a VM.
\<close>

theorem autostart_entries_sound:
  assumes "ParseAutostart s = Inr m"
  shows "wf_map m \<and> 0 \<notin> set (keys m)"
  using assms by (rule ParseAutostart_wf)

definition small_autostart :: string where
  "small_autostart = (''(vim.host.AutoStartManager.AutoPowerInfo) {'' @ [nl] @ ''key = '' @ [sq] @ ''vim.VirtualMachine:7'' @ [sq] @ '','' @ [nl] @ ''startOrder = 3,'' @ [nl] @ ''startAction = '' @ [dq] @ ''powerOn'' @ [dq] @ '','' @ [nl] @ ''}'')"

theorem autostart_entries_sound_witness: "\<exists>m. ParseAutostart small_autostart = Inr m \<and> 7 \<in> set (keys m) \<and> 0 \<notin> set (keys m)"
proof -
  have p: "ParseAutostart small_autostart = Inr [(7, \<lparr>au_Order = 3, au_Action = ''powerOn''\<rparr>)]" by code_simp
  from autostart_entries_sound [OF p] p show ?thesis by (auto simp: keys_def)
qed

end
