(* ===== verification/Vmdk.thy ===== *)
theory Vmdk
  imports Go_Regexp
begin

text \<open>
  \<open>internal/vmdk/descriptor.go\<close>: reading the text descriptor of a virtual disk. The sizes
  are Go \<open>int64\<close>; the model keeps them as \<^typ>\<open>int\<close>, and \<open>vmdk_Parse_bytes\<close> shows
  that the guard of the code keeps every sum below \<open>math.MaxInt64\<close>, so nothing wraps.
\<close>

record Extent =
  Sectors :: int
  Kind :: string
  File :: string

record Descriptor =
  CID :: string
  ParentCID :: string
  ParentHint :: string
  CreateType :: string
  Extents :: "Extent list"
  Thin :: bool
  Bytes :: int
  Fields :: "(string, string) gomap"

definition empty_descriptor :: Descriptor where
  "empty_descriptor = \<lparr>CID = [], ParentCID = [], ParentHint = [], CreateType = [], Extents = [],
     Thin = False, Bytes = 0, Fields = []\<rparr>"

definition extentPattern :: rx where
  "extentPattern = rseq [Bot, rlit ''RW'', rplus rspace, Grp 1 (rplus rdigit), rplus rspace,
     Grp 2 (rplus (Chars is_alnum)), rplus rspace, rchar dq, Grp 3 (rplus (rnot_in [dq, cr, nl])), rchar dq,
     ropt (Seq (rplus rspace) (rlit ''0'')), Eot]"

definition is_hex :: "char \<Rightarrow> bool" where
  "is_hex c = (is_digit c \<or> between 97 102 c \<or> between 65 70 c)"

definition cidPattern :: "string \<Rightarrow> bool" where
  "cidPattern s = (length s = 8 \<and> list_all is_hex s)"

definition fieldPattern :: "string \<Rightarrow> bool" where
  "fieldPattern s = (s \<noteq> [] \<and> list_all (\<lambda>c. is_alnum c \<or> c = CHR ''_'' \<or> c = CHR ''.'') s)"

text \<open>The quotes of a field value: \<open>None\<close> when the value is rejected.\<close>

definition unquote_field :: "string \<Rightarrow> string result" where
  "unquote_field v =
     (if has_prefix v [dq] then
        if length v < 2 \<or> \<not> has_suffix v [dq] then Inl (Errorf ''invalid quoted descriptor value'')
        else let w = take (length v - 2) (drop 1 v) in
          if contains w [dq] then Inl (Errorf ''ambiguous descriptor value'') else Inr w
      else Inr v)"

definition vmdk_parse_line :: "string \<Rightarrow> Descriptor \<Rightarrow> Descriptor result" where
  "vmdk_parse_line line d =
     (if line = [] \<or> has_prefix line ''#'' then Inr d
      else case find_submatch extentPattern line of
        Some m \<Rightarrow>
          (case parse_int64 (rx_group m 1) of
             None \<Rightarrow> Inl (Errorf ''invalid virtual size'')
           | Some n \<Rightarrow>
               if n \<le> 0 \<or> n > max_int64 div 512 - Bytes d div 512 then Inl (Errorf ''invalid virtual size'')
               else Inr (d\<lparr>Extents := Extents d @ [\<lparr>Sectors = n, Kind = rx_group m 2, File = rx_group m 3\<rparr>],
                           Bytes := Bytes d + n * 512\<rparr>))
      | None \<Rightarrow>
          let (k0, v0, ok) = cut line ''='';
              k = to_lower (trim_space k0);
              v = trim_space v0
          in if \<not> ok \<or> \<not> fieldPattern k \<or> v = [] then Inl (Errorf ''unrecognized descriptor syntax'')
             else and_then (unquote_field v) (\<lambda>w.
               if has_key (Fields d) k then Inl (Errorf ''duplicate descriptor field'')
               else Inr (d\<lparr>Fields := put (Fields d) k w\<rparr>)))"

fun vmdk_parse_lines :: "string option list \<Rightarrow> Descriptor \<Rightarrow> Descriptor result" where
  "vmdk_parse_lines [] d = Inr d"
| "vmdk_parse_lines (None # ls) d = Inl (Errorf ''bufio.Scanner: token too long'')"
| "vmdk_parse_lines (Some l # ls) d = and_then (vmdk_parse_line (trim_space l) d) (vmdk_parse_lines ls)"

text \<open>Reading the named fields off the map, and the checks after the loop.\<close>

definition name_fields :: "Descriptor \<Rightarrow> Descriptor" where
  "name_fields d = d\<lparr>CID := lookup0 (Fields d) ''cid'', ParentCID := lookup0 (Fields d) ''parentcid'',
     ParentHint := lookup0 (Fields d) ''parentfilenamehint'', CreateType := lookup0 (Fields d) ''createtype'',
     Thin := (lookup0 (Fields d) ''ddb.thinprovisioned'' = ''1'')\<rparr>"

text \<open>\<open>%q\<close> of a string: quotes, backslashes and control characters are escaped, other bytes stay as they are.\<close>

definition hex_digit :: "nat \<Rightarrow> char" where
  "hex_digit n = (''0123456789abcdef'' ! n)"

definition go_escape :: "char \<Rightarrow> string" where
  "go_escape c = (case map_of (zip [7, 8, 9, 10, 11, 12, 13, 34, 92] (''abtnvfr'' @ [dq, backslash])) (byte c) of
      Some e \<Rightarrow> [backslash, e]
    | None \<Rightarrow> if byte c < 32 \<or> byte c = 127 then [backslash, CHR ''x'', hex_digit (byte c div 16), hex_digit (byte c mod 16)] else [c])"

definition go_quoted :: "string \<Rightarrow> string" where
  "go_quoted s = [dq] @ concat (map go_escape s) @ [dq]"

definition check_fields :: "Descriptor \<Rightarrow> Descriptor result" where
  "check_fields d =
     (let version = lookup0 (Fields d) ''version'' in
      if version \<notin> {''1'', ''2'', ''3''} then Inl (Errorf (''unsupported descriptor version '' @ go_quoted version))
      else if \<not> cidPattern (CID d) \<or> \<not> cidPattern (ParentCID d) \<or> Extents d = [] \<or> CreateType d = []
      then Inl (Errorf ''incomplete or invalid descriptor'')
      else Inr d)"

definition vmdk_Parse :: "string \<Rightarrow> Descriptor result" where
  "vmdk_Parse text =
     (if length text > 2 ^ 20 \<or> nul \<in> set text then Inl (Errorf ''binary or oversized descriptor'')
      else and_then (vmdk_parse_lines (scan_lines 65536 text) empty_descriptor)
             (\<lambda>d. check_fields (name_fields d)))"

text \<open>\<open>Standalone\<close>: an ordinary VMFS disk that depends on no other disk; \<open>None\<close> is no error.\<close>

definition Standalone :: "Descriptor \<Rightarrow> err option" where
  "Standalone d =
     (if \<not> equal_fold (ParentCID d) ''ffffffff'' \<or> ParentHint d \<noteq> []
      then Some (Errorf ''snapshot/linked-clone parent chain'')
      else if CreateType d \<noteq> ''vmfs''
      then Some (Errorf (''unsupported disk createType '' @ CreateType d @ '' (snapshot, RDM or non-VMFS disk)''))
      else if length (Extents d) \<noteq> 1 \<or> Kind (hd (Extents d)) \<noteq> ''VMFS''
      then Some (Errorf ''only a single standard VMFS extent is supported'')
      else if list_ex (\<lambda>k. contains k ''encrypt'' \<or> contains k ''keyid'') (keys (Fields d))
      then Some (Errorf ''encrypted descriptor'')
      else None)"

section \<open>Sizes never wrap\<close>

definition sized :: "Descriptor \<Rightarrow> bool" where
  "sized d = (Bytes d = 512 * sum_list (map Sectors (Extents d)) \<and> Bytes d \<le> max_int64 \<and> 0 \<le> Bytes d \<and>
     (\<forall>e \<in> set (Extents d). 0 < Sectors e))"

lemma vmdk_parse_line_sized:
  assumes "vmdk_parse_line l d = Inr d'" and "sized d"
  shows "sized d'"
proof (cases "find_submatch extentPattern l")
  case None
  with assms show ?thesis
    by (auto simp: vmdk_parse_line_def sized_def Let_def split: if_splits prod.splits)
next
  case (Some m)
  show ?thesis
  proof (cases "l = [] \<or> has_prefix l ''#''")
    case True
    with assms show ?thesis by (auto simp: vmdk_parse_line_def)
  next
    case False
    with assms(1) Some obtain n where p: "parse_int64 (rx_group m 1) = Some n"
      by (cases "parse_int64 (rx_group m 1)") (auto simp: vmdk_parse_line_def)
    with assms(1) Some False have n: "0 < n" "n \<le> max_int64 div 512 - Bytes d div 512"
      and d': "d' = d\<lparr>Extents := Extents d @ [\<lparr>Sectors = n, Kind = rx_group m 2, File = rx_group m 3\<rparr>],
                           Bytes := Bytes d + n * 512\<rparr>"
      by (auto simp: vmdk_parse_line_def split: if_splits)
    have "Bytes d + n * 512 \<le> max_int64" using n assms(2) by (auto simp: sized_def max_int64_def)
    with assms(2) n(1) d' show ?thesis by (auto simp: sized_def)
  qed
qed

lemma vmdk_parse_lines_sized: "vmdk_parse_lines ls d = Inr d' \<Longrightarrow> sized d \<Longrightarrow> sized d'"
  by (induction ls d rule: vmdk_parse_lines.induct) (auto intro: vmdk_parse_line_sized)

lemma vmdk_parse_line_fields:
  assumes "vmdk_parse_line l d = Inr d'" and "wf_map (Fields d)"
  shows "wf_map (Fields d')"
  using assms
  by (auto simp: vmdk_parse_line_def Let_def split: if_splits prod.splits option.splits)

lemma vmdk_parse_lines_fields: "vmdk_parse_lines ls d = Inr d' \<Longrightarrow> wf_map (Fields d) \<Longrightarrow> wf_map (Fields d')"
  by (induction ls d rule: vmdk_parse_lines.induct) (auto intro: vmdk_parse_line_fields)

lemma check_fields_Inr: "check_fields d = Inr d' \<Longrightarrow> d' = d \<and> cidPattern (CID d) \<and> cidPattern (ParentCID d) \<and>
    Extents d \<noteq> [] \<and> CreateType d \<noteq> [] \<and> lookup0 (Fields d) ''version'' \<in> {''1'', ''2'', ''3''}"
  by (auto simp: check_fields_def Let_def split: if_splits)

lemma sized_name_fields [simp]: "sized (name_fields d) = sized d"
  by (simp add: sized_def name_fields_def)

lemma vmdk_Parse_Inr:
  assumes "vmdk_Parse text = Inr d"
  shows "sized d" "wf_map (Fields d)" "cidPattern (CID d)" "cidPattern (ParentCID d)" "Extents d \<noteq> []"
    "CreateType d \<noteq> []" "d = name_fields d"
proof -
  from assms obtain d0 where d0: "vmdk_parse_lines (scan_lines 65536 text) empty_descriptor = Inr d0"
    "check_fields (name_fields d0) = Inr d"
    by (auto simp: vmdk_Parse_def split: if_splits)
  have "sized empty_descriptor" "wf_map (Fields empty_descriptor)"
    by (simp_all add: sized_def empty_descriptor_def max_int64_def)
  with d0(1) have "sized d0" "wf_map (Fields d0)"
    by (blast intro: vmdk_parse_lines_sized vmdk_parse_lines_fields)+
  with check_fields_Inr [OF d0(2)] show "sized d" "wf_map (Fields d)" "cidPattern (CID d)" "cidPattern (ParentCID d)"
    "Extents d \<noteq> []" "CreateType d \<noteq> []" "d = name_fields d"
    by (auto simp: name_fields_def sized_def)
qed

lemma Standalone_None: "Standalone d = None \<Longrightarrow>
    equal_fold (ParentCID d) ''ffffffff'' \<and> ParentHint d = [] \<and> CreateType d = ''vmfs'' \<and>
    (\<exists>e. Extents d = [e] \<and> Kind e = ''VMFS'')"
  by (auto simp: Standalone_def length_Suc_conv split: if_splits)

section \<open>Properties\<close>

text \<open>
  C33: a descriptor that parses has a size that is exactly 512 bytes for each sector of its extents, all of them
  non-empty, computed without leaving 64 bits; its content ID and its parent's are eight hexadecimal digits, and
  it names each field once.
\<close>

theorem descriptor_size_exact:
  assumes "vmdk_Parse text = Inr d"
  shows "Bytes d = 512 * sum_list (map Sectors (Extents d)) \<and> 0 < Bytes d \<and> Bytes d \<le> max_int64 \<and>
    (\<forall>e \<in> set (Extents d). 0 < Sectors e) \<and> cidPattern (CID d) \<and> cidPattern (ParentCID d) \<and> wf_map (Fields d)"
proof -
  note d = vmdk_Parse_Inr [OF assms]
  from d(5) obtain x xs where x: "Extents d = x # xs" by (cases "Extents d") auto
  with d(1) have "0 \<le> sum_list (map Sectors xs)" "0 < Sectors x"
    by (auto simp: sized_def less_le intro!: sum_list_nonneg)
  with d(1) x have "0 < Bytes d" by (simp add: sized_def)
  with d show ?thesis by (auto simp: sized_def)
qed

definition small_vmdk :: string where
  "small_vmdk = (''version=1'' @ [nl] @ ''CID=fffffffe'' @ [nl] @ ''parentCID=ffffffff'' @ [nl] @ ''createType='' @ [dq] @ ''vmfs'' @ [dq, nl] @ ''RW 2048 VMFS '' @ [dq] @ ''d-flat.vmdk'' @ [dq])"

theorem descriptor_size_exact_witness: "\<exists>d. vmdk_Parse small_vmdk = Inr d \<and> Bytes d = 512 * sum_list (map Sectors (Extents d)) \<and> Bytes d = 1048576"
proof -
  obtain d where p: "vmdk_Parse small_vmdk = Inr d" "Bytes d = 1048576"
  proof -
    have "(case vmdk_Parse small_vmdk of Inr d \<Rightarrow> Bytes d = 1048576 | Inl _ \<Rightarrow> False)" by code_simp
    then show ?thesis using that by (auto split: sum.splits)
  qed
  with descriptor_size_exact [OF p(1)] show ?thesis by auto
qed

end
