(* ===== verification/Vmx.thy ===== *)
theory Vmx
  imports Go_Regexp
begin

text \<open>
  \<open>internal/vmx/parser.go\<close>: the line-oriented VMware configuration format. A \<open>Config\<close>
  is a Go map from keys to values; here an association list with distinct keys.
  The lemmas show that the parser accepts only configurations that satisfy \<open>wf_config\<close>, and
  that writing such a configuration and reading it back gives the same map.
\<close>

section \<open>Parsing\<close>

type_synonym config = "(string, string) gomap"

definition keyPattern :: "string \<Rightarrow> bool" where
  "keyPattern k = (k \<noteq> [] \<and> list_all (\<lambda>c. is_alnum c \<or> c \<in> set ''_.:-'') k)"

fun decode_bytes :: "string \<Rightarrow> string option" where
  "decode_bytes [] = Some []"
| "decode_bytes (c # cs) =
     (if c = CHR ''|'' then
        (case cs of
           a # b # ds \<Rightarrow>
             (case (hex_value a, hex_value b) of
                (Some x, Some y) \<Rightarrow> map_option (\<lambda>r. char_of (16 * x + y) # r) (decode_bytes ds)
              | _ \<Rightarrow> None)
         | _ \<Rightarrow> None)
      else map_option (\<lambda>r. c # r) (decode_bytes cs))"

definition decode :: "string \<Rightarrow> string result" where
  "decode s = (case decode_bytes s of
      None \<Rightarrow> Inl (Errorf ''invalid escape'')
    | Some b \<Rightarrow> if \<not> valid_utf8 b \<or> nul \<in> set b then Inl (Errorf ''invalid text'') else Inr b)"

definition needs_escape :: "char \<Rightarrow> bool" where
  "needs_escape c = (c = CHR ''|'' \<or> c = dq \<or> byte c < 32 \<or> byte c = 127)"

fun encode :: "string \<Rightarrow> string" where
  "encode [] = []"
| "encode (c # cs) =
     (if needs_escape c then CHR ''|'' # hex_digit (byte c div 16) # hex_digit (byte c mod 16) # encode cs
      else c # encode cs)"

definition at_line :: "string \<Rightarrow> nat \<Rightarrow> err" where
  "at_line what n = Errorf (what @ '' at line '' @ itoa (int n))"

text \<open>One trimmed line of the file, the \<open>n\<close>th.\<close>

definition vmx_parse_line :: "nat \<Rightarrow> string \<Rightarrow> config \<Rightarrow> config result" where
  "vmx_parse_line n t c =
     (if t = [] \<or> has_prefix t ''#'' then Inr c
      else
        let (k0, v0, ok) = cut t ''='';
            k = to_lower (trim_space k0);
            v = trim_space v0
        in if \<not> ok \<or> \<not> keyPattern k \<or> \<not> has_prefix v [dq] then Inl (at_line ''invalid configuration'' n)
           else (case index_of (drop 1 v) [dq] of
               None \<Rightarrow> Inl (at_line ''unterminated value'' n)
             | Some e \<Rightarrow>
                 let rest = trim_space (drop (e + 2) v)
                 in if rest \<noteq> [] \<and> \<not> has_prefix rest ''#'' then Inl (at_line ''trailing data'' n)
                    else (case decode (take e (drop 1 v)) of
                        Inl _ \<Rightarrow> Inl (at_line ''invalid escape'' n)
                      | Inr value \<Rightarrow>
                          if has_key c k then Inl (Errorf (''duplicate key '' @ k))
                          else Inr (put c k value))))"

fun vmx_parse_lines :: "nat \<Rightarrow> string option list \<Rightarrow> config \<Rightarrow> config result" where
  "vmx_parse_lines n [] c = Inr c"
| "vmx_parse_lines n (None # ls) c = Inl (Errorf ''bufio.Scanner: token too long'')"
| "vmx_parse_lines n (Some l # ls) c =
     and_then (vmx_parse_line (n + 1) (trim_space l) c) (vmx_parse_lines (n + 1) ls)"

definition vmx_Parse :: "string \<Rightarrow> config result" where
  "vmx_Parse text =
     and_then (vmx_parse_lines 0 (scan_lines (2 ^ 20) text) []) (\<lambda>c.
       if c = [] then Inl (Errorf ''empty configuration'')
       else (case map_of c ''.encoding'' of
           Some encoding \<Rightarrow> if equal_fold encoding ''UTF-8'' then Inr c
             else Inl (Errorf ''unsupported configuration encoding'')
         | None \<Rightarrow> Inr c))"

section \<open>Writing\<close>

definition vmx_line :: "string \<Rightarrow> string \<Rightarrow> string" where
  "vmx_line k v = k @ '' = '' @ dq # encode v @ [dq]"

definition vmx_String :: "config \<Rightarrow> string" where
  "vmx_String c = concat (map (\<lambda>k. vmx_line k (lookup0 c k) @ [nl]) (sort (keys c)))"

text \<open>\<open>Clone\<close> copies the map; values are immutable, so the model's copy is the value itself.\<close>

definition vmx_Clone :: "config \<Rightarrow> config" where
  "vmx_Clone c = fold (\<lambda>(k, v) out. put out k v) c []"

definition vmx_True :: "config \<Rightarrow> string \<Rightarrow> bool" where
  "vmx_True c k = equal_fold (lookup0 c (to_lower k)) ''true''"

section \<open>What the parser accepts\<close>

definition wf_key :: "string \<Rightarrow> bool" where
  "wf_key k = (keyPattern k \<and> list_all (\<lambda>c. \<not> is_upper c) k)"

definition wf_value :: "string \<Rightarrow> bool" where
  "wf_value v = (valid_utf8 v \<and> nul \<notin> set v)"

definition wf_entries :: "config \<Rightarrow> bool" where
  "wf_entries c = (wf_map c \<and> (\<forall>(k, v) \<in> set c. wf_key k \<and> wf_value v))"

definition wf_config :: "config \<Rightarrow> bool" where
  "wf_config c = (wf_entries c \<and> c \<noteq> [] \<and>
     (case map_of c ''.encoding'' of None \<Rightarrow> True | Some e \<Rightarrow> equal_fold e ''UTF-8''))"

lemma decode_wf: "decode s = Inr v \<Longrightarrow> wf_value v"
  by (auto simp: decode_def wf_value_def split: option.splits if_splits)

lemma to_lower_not_upper: "c \<in> set (to_lower s) \<Longrightarrow> \<not> is_upper c"
proof (induction s rule: to_lower.induct)
  case (2 c' cs)
  have l: "\<not> is_upper (lower_byte x)" for x
    by (auto simp: lower_byte_def is_upper_def between_def)
  have ki: "\<not> is_upper CHR ''k''" "\<not> is_upper CHR ''i''"
    by (simp_all add: is_upper_def between_def byte_def)
  from "2.prems" have "c \<in> set (case cs of [] \<Rightarrow> [lower_byte c']
     | d # ds \<Rightarrow>
        if byte c' = 0xC4 \<and> byte d = 0xB0 then CHR ''i'' # to_lower ds
        else (case ds of [] \<Rightarrow> lower_byte c' # to_lower cs
          | e # es \<Rightarrow>
             if byte c' = 0xE2 \<and> byte d = 0x84 \<and> byte e = 0xAA then CHR ''k'' # to_lower es
             else lower_byte c' # to_lower cs))"
    by (simp only: to_lower.simps)
  with "2.IH" show ?case
    by (auto simp: l ki simp del: to_lower.simps split: list.split_asm if_split_asm)
qed simp

lemma keyPattern_lower_wf: "keyPattern (to_lower s) \<Longrightarrow> wf_key (to_lower s)"
  using to_lower_not_upper by (auto simp: wf_key_def list_all_iff)

lemma wf_entries_put:
  assumes "wf_entries c" and "wf_key k" and "wf_value v" and "\<not> has_key c k"
  shows "wf_entries (put c k v)"
proof -
  from assms(1) have "wf_map (put c k v)" by (simp add: wf_entries_def)
  with assms show ?thesis by (auto simp: put_fresh wf_entries_def)
qed

lemma vmx_parse_line_wf:
  assumes "vmx_parse_line n t c = Inr c'" and "wf_entries c"
  shows "wf_entries c'"
  using assms
  by (auto simp: vmx_parse_line_def Let_def split: if_splits prod.splits option.splits sum.splits
      intro!: wf_entries_put keyPattern_lower_wf decode_wf)

lemma vmx_parse_lines_wf:
  "vmx_parse_lines n ls c = Inr c' \<Longrightarrow> wf_entries c \<Longrightarrow> wf_entries c'"
  by (induction n ls c rule: vmx_parse_lines.induct) (auto intro: vmx_parse_line_wf)

lemma wf_entries_Nil [simp]: "wf_entries []"
  by (simp add: wf_entries_def)

lemma vmx_Parse_wf_config: "vmx_Parse t = Inr c \<Longrightarrow> wf_config c"
  by (auto simp: vmx_Parse_def wf_config_def split: if_splits option.splits intro: vmx_parse_lines_wf)

section \<open>Reading back what was written\<close>

lemma decode_bytes_encode: "decode_bytes (encode v) = Some v"
proof (induction v)
  case (Cons c v)
  have "16 * (byte c div 16) + byte c mod 16 = byte c" by simp
  moreover have "byte c div 16 < 16" using byte_less [of c] by arith
  ultimately show ?case using Cons
    by (simp add: hex_value_digit needs_escape_def)
qed simp

lemma decode_encode: "wf_value v \<Longrightarrow> decode (encode v) = Inr v"
  by (simp add: decode_def decode_bytes_encode wf_value_def)

lemma hex_digit_plain: "n < 16 \<Longrightarrow> between 48 70 (hex_digit n)"
  by (auto simp: hex_digit_def between_def)

lemma encode_bytes: "c \<in> set (encode v) \<Longrightarrow> c \<noteq> dq \<and> c \<noteq> nl"
proof (induction v)
  case (Cons a v)
  have h: "hex_digit (byte a div 16) \<noteq> dq" "hex_digit (byte a mod 16) \<noteq> dq"
    "hex_digit (byte a div 16) \<noteq> nl" "hex_digit (byte a mod 16) \<noteq> nl"
  proof -
    have "byte a div 16 < 16" using byte_less [of a] by arith
    then have "between 48 70 (hex_digit (byte a div 16))" "between 48 70 (hex_digit (byte a mod 16))"
      by (simp_all add: hex_digit_plain)
    moreover have "\<not> between 48 70 dq" "\<not> between 48 70 nl" by (simp_all add: between_def byte_def)
    ultimately show "hex_digit (byte a div 16) \<noteq> dq" "hex_digit (byte a mod 16) \<noteq> dq"
      "hex_digit (byte a div 16) \<noteq> nl" "hex_digit (byte a mod 16) \<noteq> nl" by metis+
  qed
  have e: "needs_escape dq" "needs_escape nl" by (simp_all add: needs_escape_def byte_def)
  have bar: "CHR ''|'' \<noteq> dq" "CHR ''|'' \<noteq> nl" by simp_all
  show ?case
  proof (cases "needs_escape a")
    case True
    with Cons.prems have "c \<in> {CHR ''|'', hex_digit (byte a div 16), hex_digit (byte a mod 16)} \<or> c \<in> set (encode v)"
      by auto
    with Cons.IH h bar show ?thesis by (metis insertE empty_iff)
  next
    case False
    with e have "a \<noteq> dq" "a \<noteq> nl" by blast+
    with False Cons show ?thesis by auto
  qed
qed simp

lemma key_char: "wf_key k \<Longrightarrow> c \<in> set k \<Longrightarrow> graphic c \<and> c \<noteq> CHR ''='' \<and> c \<noteq> CHR ''#'' \<and> byte c < 128 \<and> \<not> is_upper c"
  by (auto simp: wf_key_def keyPattern_def list_all_iff is_alnum_def is_digit_def is_lower_def is_upper_def
      graphic_def between_def byte_def)

lemma wf_key_to_lower: "wf_key k \<Longrightarrow> to_lower k = k"
proof -
  assume k: "wf_key k"
  then have "is_ascii k" by (auto simp: is_ascii_def list_all_iff dest: key_char)
  moreover from k have "map lower_byte k = k"
    by (intro map_idI lower_byte_not_upper) (auto dest: key_char)
  ultimately show ?thesis by (simp add: to_lower_ascii)
qed

lemma trim_space_key: "wf_key k \<Longrightarrow> trim_space (k @ [CHR '' '']) = k"
proof -
  assume k: "wf_key k"
  then obtain a l where al: "k = a # l" by (cases k) (auto simp: wf_key_def keyPattern_def)
  with k have "graphic a" by (auto dest: key_char)
  then have "trim_left (k @ [CHR '' '']) = k @ [CHR '' '']" "trim_left k = k"
    by (simp_all add: al trim_left_graphic del: trim_left.simps)
  moreover have "trim_space k = k" using k by (intro trim_space_all_graphic) (auto dest: key_char)
  ultimately show ?thesis by (simp add: trim_space_def)
qed

lemma graphic_dq [simp]: "graphic dq"
  by (simp add: graphic_def between_def byte_def)

lemma trim_space_vmx_line: "wf_key k \<Longrightarrow> trim_space (vmx_line k v) = vmx_line k v"
proof -
  assume k: "wf_key k"
  then obtain a l where al: "k = a # l" by (cases k) (auto simp: wf_key_def keyPattern_def)
  with k have "graphic a" by (auto dest: key_char)
  then have "trim_space (a # (l @ '' = '' @ dq # encode v) @ [dq]) = a # (l @ '' = '' @ dq # encode v) @ [dq]"
    by (intro trim_space_graphic) simp_all
  then show ?thesis by (simp add: vmx_line_def al)
qed

lemma vmx_parse_vmx_line:
  assumes k: "wf_key k" and v: "wf_value v" and fresh: "\<not> has_key c k"
  shows "vmx_parse_line n (vmx_line k v) c = Inr (put c k v)"
proof -
  obtain a l where al: "k = a # l" using k by (cases k) (auto simp: wf_key_def keyPattern_def)
  have "CHR ''='' \<notin> set (k @ '' '')" using k by (auto dest: key_char)
  from cut_single [OF this, of "CHR '' '' # dq # encode v @ [dq]"]
  have c1: "cut (vmx_line k v) ''='' = (k @ '' '', CHR '' '' # dq # encode v @ [dq], True)"
    by (simp add: vmx_line_def)
  have "trim_space (dq # encode v @ [dq]) = dq # encode v @ [dq]"
    by (rule trim_space_graphic) simp_all
  then have tv: "trim_space (CHR '' '' # dq # encode v @ [dq]) = dq # encode v @ [dq]"
    by (simp add: trim_space_def del: trim_left.simps add: trim_left_space)
  have ix: "index_of (encode v @ [dq]) [dq] = Some (length (encode v))"
    using index_of_single [of dq "encode v" "[]"] encode_bytes by blast
  have a: "a \<noteq> CHR ''#''" "vmx_line k v \<noteq> []" using k al by (auto dest: key_char simp: vmx_line_def)
  have "\<not> has_prefix (vmx_line k v) ''#''" using a al by (simp add: vmx_line_def)
  moreover have "keyPattern k" using k by (simp add: wf_key_def)
  ultimately show ?thesis
    using a(2) fresh
    by (simp add: vmx_parse_line_def c1 tv ix trim_space_key [OF k] wf_key_to_lower [OF k] decode_encode [OF v])
qed

text \<open>Every line of the written file fits the scanner's buffer.\<close>

definition lines_fit :: "config \<Rightarrow> bool" where
  "lines_fit c = list_all (\<lambda>(k, v). length (vmx_line k v) < 2 ^ 20) c"

lemma vmx_parse_written:
  assumes "distinct (map fst kvs)" and "\<forall>(k, v) \<in> set kvs. wf_key k \<and> wf_value v"
    and "\<forall>k \<in> fst ` set kvs. \<not> has_key c k"
  shows "vmx_parse_lines n (map (\<lambda>(k, v). Some (vmx_line k v)) kvs) c = Inr (c @ kvs)"
  using assms
proof (induction kvs arbitrary: n c)
  case Nil
  then show ?case by simp
next
  case (Cons kv kvs)
  obtain k v where kv: "kv = (k, v)" by (cases kv)
  from Cons.prems kv have k: "wf_key k" "wf_value v" "\<not> has_key c k" by auto
  then have "vmx_parse_line (n + 1) (trim_space (vmx_line k v)) c = Inr (c @ [(k, v)])"
    by (simp add: trim_space_vmx_line vmx_parse_vmx_line put_fresh)
  moreover have "vmx_parse_lines (n + 1) (map (\<lambda>(k, v). Some (vmx_line k v)) kvs) (c @ [(k, v)]) = Inr ((c @ [(k, v)]) @ kvs)"
    using Cons.prems kv by (intro Cons.IH) (auto simp: has_key_iff keys_def)
  ultimately show ?case by (simp add: kv)
qed

definition sorted_config :: "config \<Rightarrow> config" where
  "sorted_config c = map (\<lambda>k. (k, lookup0 c k)) (sort (keys c))"

lemma lookup0_in: "wf_map c \<Longrightarrow> (k, v) \<in> set c \<Longrightarrow> lookup0 c k = v"
  by (simp add: lookup0_def wf_map_def keys_def)

lemma set_sorted_config: "wf_map c \<Longrightarrow> set (sorted_config c) = set c"
  by (force simp: sorted_config_def keys_def lookup0_in)

lemma map_of_sorted_config: "wf_map c \<Longrightarrow> map_of (sorted_config c) = map_of c"
proof -
  assume c: "wf_map c"
  then have "distinct (map fst (sorted_config c))"
    by (simp add: sorted_config_def comp_def wf_map_def)
  with c show ?thesis
    by (simp add: map_of_inject_set set_sorted_config wf_map_def keys_def)
qed

lemma vmx_line_no_nl: "wf_key k \<Longrightarrow> nl \<notin> set (vmx_line k v)"
  using encode_bytes by (auto simp: vmx_line_def byte_def graphic_def between_def dest: key_char)

lemma scan_lines_vmx_String:
  assumes "wf_entries c" and "lines_fit c"
  shows "scan_lines (2 ^ 20) (vmx_String c) = map (\<lambda>(k, v). Some (vmx_line k v)) (sorted_config c)"
proof -
  let ?kvs = "sorted_config c"
  have s: "set ?kvs = set c" using assms(1) by (simp add: set_sorted_config wf_entries_def)
  have str: "vmx_String c = concat (map (\<lambda>l. l @ [nl]) (map (\<lambda>(k, v). vmx_line k v) ?kvs))"
    by (simp add: vmx_String_def sorted_config_def comp_def)
  have "raw_lines (vmx_String c) = map (\<lambda>(k, v). vmx_line k v) ?kvs"
    unfolding str
    by (rule raw_lines_concat) (use assms(1) s in \<open>auto simp: wf_entries_def vmx_line_no_nl\<close>)
  moreover have "drop_cr (vmx_line k v) = vmx_line k v" for k v
    by (simp add: drop_cr_def vmx_line_def)
  moreover have "\<forall>(k, v) \<in> set ?kvs. length (vmx_line k v) < 2 ^ 20"
    using assms(2) s by (auto simp: lines_fit_def list_all_iff)
  ultimately show ?thesis by (auto simp: scan_lines_def)
qed

lemma vmx_Parse_vmx_String:
  assumes "wf_config c" and "lines_fit c"
  shows "vmx_Parse (vmx_String c) = Inr (sorted_config c)"
proof -
  have wf: "wf_entries c" "c \<noteq> []" using assms(1) by (auto simp: wf_config_def)
  then have m: "wf_map c" by (simp add: wf_entries_def)
  have "distinct (map fst (sorted_config c))"
    using m by (simp add: sorted_config_def comp_def wf_map_def)
  then have "vmx_parse_lines 0 (map (\<lambda>(k, v). Some (vmx_line k v)) (sorted_config c)) [] = Inr ([] @ sorted_config c)"
    using wf(1) m by (intro vmx_parse_written) (auto simp: wf_entries_def set_sorted_config has_key_iff keys_def)
  moreover have "sorted_config c \<noteq> []"
    using wf(2) set_sorted_config [OF m] by (metis set_empty)
  moreover have "scan_lines (2 ^ 20) (vmx_String c) = map (\<lambda>(k, v). Some (vmx_line k v)) (sorted_config c)"
    using wf(1) assms(2) by (rule scan_lines_vmx_String)
  moreover have "case map_of c ''.encoding'' of None \<Rightarrow> True | Some e \<Rightarrow> equal_fold e ''UTF-8''"
    using assms(1) by (simp add: wf_config_def)
  ultimately show ?thesis
    by (cases "map_of c ''.encoding''")
      (simp_all add: vmx_Parse_def map_of_sorted_config [OF m] del: power_numeral)
qed

lemma vmx_String_perm: "wf_map c \<Longrightarrow> mset c = mset c' \<Longrightarrow> vmx_String c = vmx_String c'"
proof -
  assume a: "wf_map c" "mset c = mset c'"
  then have "mset (keys c) = mset (keys c')" by (simp add: keys_def)
  then have "sort (keys c) = sort (keys c')" by (rule sort_perm_unique)
  with map_of_perm [OF a] show ?thesis by (simp add: vmx_String_def lookup0_def)
qed

lemma map_of_Clone: "wf_map c \<Longrightarrow> map_of (vmx_Clone c) = map_of c"
proof -
  have "wf_map (acc @ c) \<Longrightarrow> fold (\<lambda>(k, v) out. put out k v) c acc = acc @ c" for acc :: config
  proof (induction c arbitrary: acc)
    case (Cons kv c)
    obtain k v where kv: "kv = (k, v)" by (cases kv)
    with Cons.prems have "put acc k v = acc @ [(k, v)]"
      by (intro put_fresh) (auto simp: has_key_iff wf_map_def keys_def)
    with Cons kv show ?case by simp
  qed simp
  from this [of "[]"] show "wf_map c \<Longrightarrow> ?thesis" by (simp add: vmx_Clone_def)
qed

section \<open>Properties\<close>

lemma sorted_config_mset:
  assumes "wf_map c"
  shows "mset (sorted_config c) = mset c"
proof -
  from assms have "distinct (keys c)" by (simp add: wf_map_def)
  then have "distinct (sorted_config c)" "distinct c"
    by (auto simp: sorted_config_def distinct_map keys_def intro: inj_onI)
  then show ?thesis using set_sorted_config [OF assms] set_eq_iff_mset_eq_distinct by blast
qed

text \<open>
  C29: what a VMX file says survives being written and read again. A parsed configuration is
  well-formed (lower-case keys, each once, valid text), and, as long as no written line reaches the
  scanner's limit, parsing what \<open>Config.String\<close> writes gives the same entries, and writing those gives
  the same text.
\<close>

theorem vmx_parse_print:
  assumes "vmx_Parse text = Inr c" and "lines_fit c"
  shows "wf_config c \<and> (\<exists>c'. vmx_Parse (vmx_String c) = Inr c' \<and> map_of c' = map_of c \<and> vmx_String c' = vmx_String c)"
proof -
  from assms(1) have wf: "wf_config c" by (rule vmx_Parse_wf_config)
  then have m: "wf_map c" by (simp add: wf_config_def wf_entries_def)
  from wf assms(2) have "vmx_Parse (vmx_String c) = Inr (sorted_config c)" by (rule vmx_Parse_vmx_String)
  moreover have "vmx_String (sorted_config c) = vmx_String c"
    using vmx_String_perm [OF m, of "sorted_config c"] set_sorted_config [OF m] sorted_config_mset [OF m] by simp
  ultimately show ?thesis using wf m by (auto simp: map_of_sorted_config)
qed

definition small_vmx :: string where
  "small_vmx = (''displayName = '' @ [dq] @ ''web'' @ [dq] @ '' # a comment'' @ [nl] @ ''memsize = '' @ [dq] @ ''1|32'' @ [dq])"

theorem vmx_parse_print_witness:
  "\<exists>c'. vmx_Parse (vmx_String [(''displayname'', ''web''), (''memsize'', ''12'')]) = Inr c' \<and> map_of c' ''memsize'' = Some ''12''"
proof -
  have p: "vmx_Parse small_vmx = Inr [(''displayname'', ''web''), (''memsize'', ''12'')]" by code_simp
  have l: "lines_fit [(''displayname'', ''web''), (''memsize'', ''12'')]" by code_simp
  from vmx_parse_print [OF p l] show ?thesis by auto
qed

end
