(* ===== verification/Migration_Types.thy ===== *)
theory Migration_Types
  imports Esxi_Output Vmdk Vmx
begin

text \<open>
  \<open>internal/migration/types.go\<close>: requests, checks, disks, the report of an analysis and
  how a check is recorded in it, options. Durations are nanoseconds.
\<close>

section \<open>Data\<close>

record Request =
  rq_VMID :: int
  rq_TargetUUID :: string
  rq_Mode :: string
  rq_PowerOn :: bool
  rq_TargetName :: string
  rq_Live :: bool
  rq_BringDisks :: bool

definition modeCopy :: string where "modeCopy = ''COPY''"
definition modeMove :: string where "modeMove = ''MOVE''"

datatype status = StatusOK | StatusWarning | StatusBlock

record Step =
  stp_Text :: string
  stp_Command :: string

record advice =
  ad_title :: string
  ad_why :: string
  ad_steps :: "Step list"

record Check =
  ck_Name :: string
  ck_Status :: status
  ck_Detail :: string
  ck_Title :: string
  ck_Why :: string
  ck_Steps :: "Step list"

record Disk =
  dk_Key :: string
  dk_Source :: string
  dk_Target :: string
  dk_Extent :: string
  dk_Provisioned :: int
  dk_Allocated :: int
  dk_AllocationKnown :: bool
  dk_Thin :: bool
  dk_Descriptor :: Descriptor
  dk_External :: bool

record ConfigFile =
  cf_Key :: string
  cf_Source :: string
  cf_Name :: string

record Report =
  rp_ID :: string
  rp_Request :: Request
  rp_VM :: VM
  rp_SourceVMX :: string
  rp_SourceDir :: string
  rp_SourceDatastore :: string
  rp_TargetDir :: string
  rp_TargetVMX :: string
  rp_Fingerprint :: string
  rp_Power :: Power
  rp_Disks :: "Disk list"
  rp_ConfigFiles :: "ConfigFile list"
  rp_TargetFree :: int
  rp_Required :: int
  rp_Provisioned :: int
  rp_Allocated :: int
  rp_Autostart :: int
  rp_Ready :: bool
  rp_Checks :: "Check list"
  rp_Config :: config
  rp_TargetConfig :: config

definition zero_Report :: "string \<Rightarrow> Request \<Rightarrow> Report" where
  "zero_Report i q = \<lparr>rp_ID = i, rp_Request = q, rp_VM = zero_VM, rp_SourceVMX = [], rp_SourceDir = [],
     rp_SourceDatastore = [], rp_TargetDir = [], rp_TargetVMX = [], rp_Fingerprint = [], rp_Power = [],
     rp_Disks = [], rp_ConfigFiles = [], rp_TargetFree = 0, rp_Required = 0, rp_Provisioned = 0, rp_Allocated = 0,
     rp_Autostart = 0, rp_Ready = False, rp_Checks = [], rp_Config = [], rp_TargetConfig = []\<rparr>"

record Options =
  op_ShutdownTimeout :: int
  op_PollInterval :: int
  op_DisconnectTimeout :: int
  op_CloneTimeout :: int
  op_PowerOnTimeout :: int
  op_ApplianceUUID :: string

definition second :: int where "second = 1000000000"
definition minute :: int where "minute = 60 * second"
definition hour :: int where "hour = 60 * minute"

definition DefaultOptions :: Options where
  "DefaultOptions = \<lparr>op_ShutdownTimeout = 5 * minute, op_PollInterval = 3 * second, op_DisconnectTimeout = 5 * minute,
     op_CloneTimeout = 7 * 24 * hour, op_PowerOnTimeout = 2 * minute, op_ApplianceUUID = []\<rparr>"

definition validateRequest :: "Request \<Rightarrow> err option" where
  "validateRequest r =
     (if rq_VMID r \<le> 0 \<or> rq_TargetUUID r = [] \<or> (rq_Mode r \<noteq> modeCopy \<and> rq_Mode r \<noteq> modeMove) \<or>
         (rq_Mode r = modeCopy \<and> rq_PowerOn r)
      then Some (Errorf ''invalid migration options'') else None)"

section \<open>Recording a check\<close>

definition no_advice :: advice where
  "no_advice = \<lparr>ad_title = [], ad_why = [], ad_steps = []\<rparr>"

text \<open>One problem found under several keys is one row: the first row it can be joined to.\<close>

fun join_row :: "string \<Rightarrow> status \<Rightarrow> string \<Rightarrow> string \<Rightarrow> string \<Rightarrow> Check list \<Rightarrow> Check list option" where
  "join_row name st title prefix key [] = None"
| "join_row name st title prefix key (c # cs) =
     (if ck_Name c = name \<and> ck_Status c = st \<and> ck_Title c = title \<and> has_prefix (ck_Detail c) (prefix @ '': '')
      then Some (c\<lparr>ck_Detail := ck_Detail c @ '', '' @ key\<rparr> # cs)
      else map_option (\<lambda>cs'. c # cs') (join_row name st title prefix key cs))"

definition new_row :: "string \<Rightarrow> status \<Rightarrow> string \<Rightarrow> advice \<Rightarrow> Check" where
  "new_row name st detail a = \<lparr>ck_Name = name, ck_Status = st, ck_Detail = detail, ck_Title = ad_title a,
     ck_Why = ad_why a, ck_Steps = ad_steps a\<rparr>"

definition advised :: "string \<Rightarrow> status \<Rightarrow> string \<Rightarrow> advice \<Rightarrow> Report \<Rightarrow> Report" where
  "advised name st detail a r =
     (let r = (if st = StatusBlock then r\<lparr>rp_Ready := False\<rparr> else r);
          (prefix, key, split) = cut detail '': '';
          joined = (if ad_title a \<noteq> [] \<and> split then join_row name st (ad_title a) prefix key (rp_Checks r) else None)
      in (case joined of
            Some cs \<Rightarrow> r\<lparr>rp_Checks := cs\<rparr>
          | None \<Rightarrow> r\<lparr>rp_Checks := rp_Checks r @ [new_row name st detail a]\<rparr>))"

section \<open>How grave a row is\<close>

text \<open>The three statuses in the order of their gravity: OK, a warning, a block.\<close>

fun gravity :: "status \<Rightarrow> nat" where
  "gravity StatusOK = 0"
| "gravity StatusWarning = 1"
| "gravity StatusBlock = 2"

lemma gravity_inj [simp]: "gravity x = gravity y \<longleftrightarrow> x = y"
  by (cases x; cases y) simp_all

instantiation status :: linorder
begin

definition less_eq_status :: "status \<Rightarrow> status \<Rightarrow> bool" where
  "less_eq_status x y = (gravity x \<le> gravity y)"

definition less_status :: "status \<Rightarrow> status \<Rightarrow> bool" where
  "less_status x y = (gravity x < gravity y)"

instance
  by standard (auto simp: less_eq_status_def less_status_def)

end

lemma block_is_gravest [simp]: "x \<le> StatusBlock" "x < StatusBlock \<longleftrightarrow> x \<noteq> StatusBlock"
  by (cases x; simp add: less_eq_status_def less_status_def)+

section \<open>Ready means no blocking row\<close>

definition no_block :: "Report \<Rightarrow> bool" where
  "no_block r = (\<forall>c \<in> set (rp_Checks r). ck_Status c \<noteq> StatusBlock)"

text \<open>The state of a report under construction, once \<open>Ready\<close> was set.\<close>

definition ready_iff :: "Report \<Rightarrow> bool" where
  "ready_iff r = (rp_Ready r = no_block r)"

lemma join_row_status: "join_row name st title prefix key cs = Some cs' \<Longrightarrow>
    map ck_Status cs' = map ck_Status cs \<and> st \<in> set (map ck_Status cs)"
  by (induction cs arbitrary: cs') (auto split: if_splits)

lemma advised_ready:
  "rp_Ready (advised name st detail a r) = (rp_Ready r \<and> st \<noteq> StatusBlock)"
  by (auto simp: advised_def Let_def split: option.splits prod.splits)

definition statuses :: "Report \<Rightarrow> status set" where
  "statuses r = set (map ck_Status (rp_Checks r))"

lemma no_block_statuses: "no_block r \<longleftrightarrow> StatusBlock \<notin> statuses r"
  unfolding no_block_def statuses_def set_map image_iff by metis

lemma advised_statuses: "statuses (advised name st detail a r) = insert st (statuses r)"
proof -
  obtain prefix key split where c: "cut detail '': '' = (prefix, key, split)" by (metis prod_cases3)
  let ?q = "if st = StatusBlock then r\<lparr>rp_Ready := False\<rparr> else r"
  show ?thesis
  proof (cases "if ad_title a \<noteq> [] \<and> split then join_row name st (ad_title a) prefix key (rp_Checks ?q) else None")
    case None
    then show ?thesis by (simp add: advised_def c statuses_def new_row_def Let_def)
  next
    case (Some cs)
    then have "map ck_Status cs = map ck_Status (rp_Checks ?q) \<and> st \<in> set (map ck_Status (rp_Checks ?q))"
      by (intro join_row_status) (auto split: if_splits)
    with Some show ?thesis
      unfolding advised_def c statuses_def Let_def prod.case option.case by (auto simp del: set_map)
  qed
qed

lemma advised_no_block: "no_block (advised name st detail a r) = (no_block r \<and> st \<noteq> StatusBlock)"
  unfolding no_block_statuses advised_statuses by auto

lemma advised_ready_iff: "ready_iff r \<Longrightarrow> ready_iff (advised name st detail a r)"
  by (simp add: ready_iff_def advised_ready advised_no_block)

text \<open>Everything else of the report stays as it was.\<close>

lemma advised_other [simp]:
  "rp_ID (advised n s d a r) = rp_ID r" "rp_Request (advised n s d a r) = rp_Request r" "rp_VM (advised n s d a r) = rp_VM r"
  "rp_SourceVMX (advised n s d a r) = rp_SourceVMX r" "rp_SourceDir (advised n s d a r) = rp_SourceDir r"
  "rp_TargetDir (advised n s d a r) = rp_TargetDir r" "rp_TargetVMX (advised n s d a r) = rp_TargetVMX r"
  "rp_Disks (advised n s d a r) = rp_Disks r" "rp_Power (advised n s d a r) = rp_Power r"
  "rp_Required (advised n s d a r) = rp_Required r" "rp_TargetFree (advised n s d a r) = rp_TargetFree r"
  "rp_ConfigFiles (advised n s d a r) = rp_ConfigFiles r" "rp_Config (advised n s d a r) = rp_Config r"
  "rp_TargetConfig (advised n s d a r) = rp_TargetConfig r" "rp_Fingerprint (advised n s d a r) = rp_Fingerprint r"
  by (auto simp: advised_def Let_def split: option.splits prod.splits)

end
