(* ===== verification/Job.thy ===== *)
theory Job
  imports Migration_Types
begin

text \<open>
  \<open>internal/migration/state.go\<close>: the state of a job, its phases, and what the operator may
  ask of it. Every function here runs under the job's mutex, so each is one atomic step; the
  two halves of \<open>Control\<close> (the look at the phase and the send on the channel) are two steps,
  because the engine may move in between.
\<close>

section \<open>Data\<close>

datatype Phase =
    PhaseQueued | PhasePreflight | PhaseShutdown | PhaseAwaitingShutdown | PhaseCloning | PhaseReconnecting
  | PhaseVerifyingDisk | PhaseVerifyingConfig | PhaseCommit | PhasePowerOn | PhaseCompleted | PhaseFailed
  | PhaseUnknown | PhaseRolledBack | PhaseSnapshot | PhaseCutover | PhaseConsolidating | PhaseRestoring
  | PhaseStopped

text \<open>A time is a number of nanoseconds; \<^const>\<open>None\<close> is Go's zero time where the code asks for it.\<close>

record State =
  js_ID :: string
  js_Phase :: Phase
  js_Message :: string
  js_Error :: string
  js_CurrentDisk :: string
  js_TechnicalLog :: string
  js_Mode :: string
  js_Progress :: int
  js_DiskIndex :: int
  js_DiskCount :: int
  js_TargetVMID :: int
  js_Started :: int
  js_Updated :: int
  js_DiskStarted :: int
  js_DiskBytes :: int
  js_Complete :: bool
  js_TargetVerified :: bool
  js_SourceFilesPreserved :: bool
  js_CanRollback :: bool
  js_Live :: bool
  js_CanStop :: bool
  js_SourceRegistration :: string
  js_TargetRegistration :: string
  js_SourcePower :: string
  js_TargetPower :: string
  js_SourceVMX :: string
  js_TargetVMX :: string
  js_DownSince :: "int option"
  js_DowntimeMS :: int

text \<open>\<open>actions\<close> is a channel with room for one action.\<close>

record Job =
  jb_state :: State
  jb_plan :: Report
  jb_actions :: "string option"
  jb_stop :: bool
  jb_final :: bool
  jb_cloneLogs :: "string list"

definition NewJob :: "Report \<Rightarrow> int \<Rightarrow> int \<Rightarrow> Job" where
  "NewJob r now now' = \<lparr>
     jb_state = \<lparr>js_ID = rp_ID r, js_Phase = PhaseQueued, js_Message = ''Waiting for final preflight'', js_Error = [],
       js_CurrentDisk = [], js_TechnicalLog = [], js_Mode = rq_Mode (rp_Request r), js_Progress = 0, js_DiskIndex = 0,
       js_DiskCount = int (length (rp_Disks r)), js_TargetVMID = 0, js_Started = now, js_Updated = now',
       js_DiskStarted = 0, js_DiskBytes = 0, js_Complete = False, js_TargetVerified = False,
       js_SourceFilesPreserved = True, js_CanRollback = False, js_Live = rq_Live (rp_Request r), js_CanStop = False,
       js_SourceRegistration = ''registered'', js_TargetRegistration = ''not registered'',
       js_SourcePower = rp_Power r, js_TargetPower = ''not running (unregistered)'',
       js_SourceVMX = rp_SourceVMX r, js_TargetVMX = rp_TargetVMX r, js_DownSince = None, js_DowntimeMS = 0\<rparr>,
     jb_plan = r, jb_actions = None, jb_stop = False, jb_final = False, jb_cloneLogs = []\<rparr>"

section \<open>Operations\<close>

definition stoppable :: "Phase \<Rightarrow> bool" where
  "stoppable p = (p \<in> {PhaseQueued, PhasePreflight, PhaseShutdown, PhaseAwaitingShutdown, PhaseSnapshot, PhaseCloning,
     PhaseReconnecting, PhaseVerifyingDisk})"

definition Snapshot :: "Job \<Rightarrow> State" where
  "Snapshot j = (jb_state j)\<lparr>js_CanStop :=
     \<not> js_Complete (jb_state j) \<and> \<not> jb_stop j \<and> \<not> jb_final j \<and> stoppable (js_Phase (jb_state j))\<rparr>"

text \<open>A send that does not block: it fails where the channel is full.\<close>

definition try_send :: "string \<Rightarrow> Job \<Rightarrow> Job" where
  "try_send a j = (case jb_actions j of None \<Rightarrow> j\<lparr>jb_actions := Some a\<rparr> | Some _ \<Rightarrow> j)"

definition requestStop :: "bool \<Rightarrow> Job \<Rightarrow> err option \<times> Job" where
  "requestStop confirmed j =
     (if \<not> confirmed then (Some (Errorf ''explicit stop confirmation is required''), j)
      else if js_Complete (jb_state j) \<or> jb_final j \<or> \<not> stoppable (js_Phase (jb_state j))
      then (Some (Errorf ''the migration is past the point where it can be stopped''), j)
      else (None, try_send ''stop'' (j\<lparr>jb_stop := True,
        jb_state := (jb_state j)\<lparr>js_Message := ''Stopping at the next safe point''\<rparr>\<rparr>)))"

definition stopRequested :: "Job \<Rightarrow> bool" where
  "stopRequested j = jb_stop j"

definition proceed :: "Phase \<Rightarrow> string \<Rightarrow> int \<Rightarrow> Job \<Rightarrow> err option \<times> Job" where
  "proceed p m now j =
     (if jb_stop j then (Some Stopped, j)
      else (None, j\<lparr>jb_final := True, jb_state := (jb_state j)\<lparr>js_Phase := p, js_Message := m, js_Updated := now\<rparr>\<rparr>))"

definition update_job :: "(State \<Rightarrow> State) \<Rightarrow> int \<Rightarrow> Job \<Rightarrow> Job" where
  "update_job f now j = j\<lparr>jb_state := (f (jb_state j))\<lparr>js_Updated := now\<rparr>\<rparr>"

definition set_phase :: "Phase \<Rightarrow> string \<Rightarrow> State \<Rightarrow> State" where
  "set_phase p m s = s\<lparr>js_Phase := p, js_Message := m\<rparr>"

text \<open>The first half of \<open>Control\<close>: what is refused, and what goes on to the send.\<close>

definition control_check :: "string \<Rightarrow> bool \<Rightarrow> Job \<Rightarrow> err option" where
  "control_check action confirmed j =
     (if js_Phase (Snapshot j) \<noteq> PhaseAwaitingShutdown then Some (Errorf ''job is not waiting for shutdown'')
      else if action \<noteq> ''wait'' \<and> action \<noteq> ''manual'' \<and> action \<noteq> ''force'' then Some (Errorf ''unknown action'')
      else if action = ''force'' \<and> \<not> confirmed
      then Some (Errorf ''explicit force power-off confirmation is required'')
      else None)"

text \<open>The second half.\<close>

definition control_send :: "string \<Rightarrow> Job \<Rightarrow> err option \<times> Job" where
  "control_send action j = (case jb_actions j of
      None \<Rightarrow> (None, j\<lparr>jb_actions := Some action\<rparr>)
    | Some _ \<Rightarrow> (Some (Errorf ''an action is already pending''), j))"

text \<open>\<open>Control\<close> where nothing comes between its halves.\<close>

definition Control :: "string \<Rightarrow> bool \<Rightarrow> Job \<Rightarrow> err option \<times> Job" where
  "Control action confirmed j =
     (if action = ''stop'' then requestStop confirmed j
      else case control_check action confirmed j of
        Some e \<Rightarrow> (Some e, j)
      | None \<Rightarrow> control_send action j)"

section \<open>Stops\<close>

text \<open>
  A job past its point of no return has no stop pending. Every operation keeps this, and a
  stop that was accepted stays recorded.
\<close>

definition stop_inv :: "Job \<Rightarrow> bool" where
  "stop_inv j = (\<not> (jb_stop j \<and> jb_final j))"

lemma try_send_simps [simp]:
  "jb_stop (try_send a j) = jb_stop j" "jb_final (try_send a j) = jb_final j" "jb_state (try_send a j) = jb_state j"
  "jb_plan (try_send a j) = jb_plan j" "jb_cloneLogs (try_send a j) = jb_cloneLogs j"
  by (auto simp: try_send_def split: option.splits)

lemma update_job_simps [simp]:
  "jb_stop (update_job f n j) = jb_stop j" "jb_final (update_job f n j) = jb_final j"
  "jb_plan (update_job f n j) = jb_plan j" "jb_actions (update_job f n j) = jb_actions j"
  "jb_state (update_job f n j) = (f (jb_state j))\<lparr>js_Updated := n\<rparr>" "jb_cloneLogs (update_job f n j) = jb_cloneLogs j"
  by (simp_all add: update_job_def)

lemma stop_inv_NewJob: "stop_inv (NewJob r n n')"
  by (simp add: stop_inv_def NewJob_def)

lemma stop_inv_update: "stop_inv (update_job f n j) = stop_inv j"
  by (simp add: stop_inv_def)

lemma stop_inv_proceed: "stop_inv j \<Longrightarrow> stop_inv (snd (proceed p m n j))"
  by (simp add: stop_inv_def proceed_def)

lemma stop_inv_requestStop: "stop_inv j \<Longrightarrow> stop_inv (snd (requestStop c j))"
  by (auto simp: stop_inv_def requestStop_def)

lemma control_send_simps [simp]:
  "jb_stop (snd (control_send a j)) = jb_stop j" "jb_final (snd (control_send a j)) = jb_final j"
  "jb_state (snd (control_send a j)) = jb_state j" "jb_plan (snd (control_send a j)) = jb_plan j"
  by (auto simp: control_send_def split: option.splits)

lemma stop_inv_Control: "stop_inv j \<Longrightarrow> stop_inv (snd (Control a c j))"
  by (auto simp: Control_def stop_inv_requestStop split: option.splits) (simp add: stop_inv_def)

lemma requestStop_accepts:
  "fst (requestStop c j) = None \<longleftrightarrow> c \<and> \<not> js_Complete (jb_state j) \<and> \<not> jb_final j \<and> stoppable (js_Phase (jb_state j))"
  by (simp add: requestStop_def)

text \<open>The button the operator sees is offered exactly when a first stop would be accepted.\<close>

lemma CanStop_offers: "js_CanStop (Snapshot j) \<longleftrightarrow> fst (requestStop True j) = None \<and> \<not> jb_stop j"
  by (auto simp: requestStop_accepts Snapshot_def)

lemma Control_stop_recorded:
  assumes "fst (Control ''stop'' c j) = None"
  shows "jb_stop (snd (Control ''stop'' c j)) \<and> fst (proceed p m n (snd (Control ''stop'' c j))) = Some Stopped"
  using assms by (auto simp: Control_def requestStop_def proceed_def split: if_splits)

lemma Control_force_confirmed:
  assumes "fst (Control ''force'' c j) = None"
  shows "c \<and> js_Phase (jb_state j) = PhaseAwaitingShutdown \<and> jb_actions (snd (Control ''force'' c j)) = Some ''force''"
  using assms by (auto simp: Control_def control_check_def control_send_def Snapshot_def split: if_splits option.splits)

end
