(* ===== verification/Host.thy ===== *)
theory Host
  imports Job
begin

text \<open>
  The management boundary of the migration (\<open>Host\<close> in \<open>internal/migration/types.go\<close>) and
  the way the engine's code runs against it. A host is a record of operations on a world of
  any type; beside the 31 operations of the interface it has what else the engine observes: the
  clock, the end of a pause, and the operator, whose requests arrive between the engine's steps.
  The engine's code is state passing: it reads and changes the job, calls the host, and every call is
  kept, with the job's state at that moment and its answer, in a trace that the theorems speak of.
\<close>

section \<open>The interface\<close>

record CloneStatus =
  cl_Done :: bool
  cl_Alive :: bool
  cl_ExitCode :: int
  cl_Progress :: int
  cl_Log :: string

text \<open>
  What an operator does: ask (the whole of a stop, or the first half of another action), or
  complete the send of an action that was granted earlier.
\<close>

datatype request = Ask string bool | Send nat

text \<open>What a select on the context and the actions channel does next.\<close>

datatype wake = Cancelled err | Requests "request list"

type_synonym ('w, 'a) act = "'w \<Rightarrow> 'a result \<times> 'w"

record 'w host =
  h_Inventory :: "('w, Inventory) act"
  h_VMs :: "('w, VM list) act"
  h_Datastores :: "('w, Datastore list) act"
  h_ReadFile :: "string \<Rightarrow> ('w, string) act"
  h_Exists :: "string \<Rightarrow> ('w, bool) act"
  h_Canonical :: "string \<Rightarrow> ('w, string) act"
  h_List :: "string \<Rightarrow> ('w, string list) act"
  h_Size :: "string \<Rightarrow> ('w, int) act"
  h_Allocated :: "string \<Rightarrow> ('w, int) act"
  h_Power :: "int \<Rightarrow> ('w, Power) act"
  h_Snapshot :: "int \<Rightarrow> ('w, string) act"
  h_ToolsRunning :: "int \<Rightarrow> ('w, bool) act"
  h_Autostart :: "('w, (int, AutoStart) gomap) act"
  h_Shutdown :: "int \<Rightarrow> ('w, unit) act"
  h_ForceOff :: "int \<Rightarrow> ('w, unit) act"
  h_VerifyChain :: "string \<Rightarrow> ('w, unit) act"
  h_Acquire :: "string \<Rightarrow> string \<Rightarrow> ('w, unit) act"
  h_Finish :: "string \<Rightarrow> ('w, unit) act"
  h_CreateTarget :: "string \<Rightarrow> ('w, unit) act"
  h_WriteTarget :: "string \<Rightarrow> string \<Rightarrow> string \<Rightarrow> ('w, unit) act"
  h_StartClone :: "string \<Rightarrow> int \<Rightarrow> int \<Rightarrow> string \<Rightarrow> string \<Rightarrow> bool \<Rightarrow> ('w, unit) act"
  h_CloneStatus :: "int \<Rightarrow> ('w, CloneStatus) act"
  h_StopClone :: "int \<Rightarrow> ('w, unit) act"
  h_Unregister :: "int \<Rightarrow> ('w, unit) act"
  h_Register :: "string \<Rightarrow> ('w, int) act"
  h_PowerOn :: "int \<Rightarrow> ('w, unit) act"
  h_Message :: "int \<Rightarrow> ('w, string) act"
  h_Answer :: "int \<Rightarrow> string \<Rightarrow> string \<Rightarrow> ('w, unit) act"
  h_CreateSnapshot :: "int \<Rightarrow> string \<Rightarrow> ('w, unit) act"
  h_ConsolidateOwnSnapshot :: "int \<Rightarrow> string \<Rightarrow> ('w, unit) act"
  h_CopyToTarget :: "string \<Rightarrow> string \<Rightarrow> ('w, unit) act"
  h_now :: "'w \<Rightarrow> int \<times> 'w"
  h_pause :: "int \<Rightarrow> ('w, unit) act"
  h_operator :: "'w \<Rightarrow> request list \<times> 'w"
  h_wake :: "'w \<Rightarrow> wake \<times> 'w"

text \<open>What the trace keeps: a call of each operation with its arguments and answer, and the operator's part.\<close>

datatype call =
    GotInventory "Inventory result"
  | GotVMs "VM list result"
  | GotDatastores "Datastore list result"
  | GotReadFile string "string result"
  | GotExists string "bool result"
  | GotCanonical string "string result"
  | GotList string "string list result"
  | GotSize string "int result"
  | GotAllocated string "int result"
  | GotPower int "Power result"
  | GotSnapshot int "string result"
  | GotToolsRunning int "bool result"
  | GotAutostart "(int, AutoStart) gomap result"
  | GotVerifyChain string "unit result"
  | GotCloneStatus int "CloneStatus result"
  | GotMessage int "string result"
  | DidShutdown int "unit result"
  | DidForceOff int "unit result"
  | DidAcquire string string "unit result"
  | DidFinish string "unit result"
  | DidCreateTarget string "unit result"
  | DidWriteTarget string string string "unit result"
  | DidStartClone string int int string string bool "unit result"
  | DidStopClone int "unit result"
  | DidUnregister int "unit result"
  | DidRegister string "int result"
  | DidPowerOn int "unit result"
  | DidAnswer int string string "unit result"
  | DidCreateSnapshot int string "unit result"
  | DidConsolidate int string "unit result"
  | DidCopyToTarget string string "unit result"
  | Asked string bool bool \<comment> \<open>action, confirmed, granted\<close>
  | Sent string bool \<comment> \<open>action, accepted by the channel\<close>
  | Taken string \<comment> \<open>the engine took this action from the channel\<close>

text \<open>A call that changes nothing on the host.\<close>

fun is_read :: "call \<Rightarrow> bool" where
  "is_read (GotInventory r) = True"
| "is_read (GotVMs r) = True"
| "is_read (GotDatastores r) = True"
| "is_read (GotReadFile p r) = True"
| "is_read (GotExists p r) = True"
| "is_read (GotCanonical p r) = True"
| "is_read (GotList p r) = True"
| "is_read (GotSize p r) = True"
| "is_read (GotAllocated p r) = True"
| "is_read (GotPower i r) = True"
| "is_read (GotSnapshot i r) = True"
| "is_read (GotToolsRunning i r) = True"
| "is_read (GotAutostart r) = True"
| "is_read (GotVerifyChain p r) = True"
| "is_read (GotCloneStatus i r) = True"
| "is_read (GotMessage i r) = True"
| "is_read c = False"

fun is_operator :: "call \<Rightarrow> bool" where
  "is_operator (Asked a c g) = True"
| "is_operator (Sent a g) = True"
| "is_operator c = False"

section \<open>Running code against a host\<close>

type_synonym trace = "(State \<times> call) list"

record 'w st =
  s_world :: 'w
  s_job :: Job
  s_granted :: "string list"
  s_trace :: trace

text \<open>
  A computation ends with a value, with a Go error, or because the fuel of one of its loops
  ran out: everything it did until then stays in the trace.
\<close>

datatype exn = Err err | OutOfFuel

type_synonym ('w, 'a) M = "'w st \<Rightarrow> (exn + 'a) \<times> 'w st"

definition ret :: "'a \<Rightarrow> ('w, 'a) M" where
  "ret x s = (Inr x, s)"

definition throw :: "exn \<Rightarrow> ('w, 'a) M" where
  "throw e s = (Inl e, s)"

definition fail :: "err \<Rightarrow> ('w, 'a) M" where
  "fail e = throw (Err e)"

definition bind :: "('w, 'a) M \<Rightarrow> ('a \<Rightarrow> ('w, 'b) M) \<Rightarrow> ('w, 'b) M" where
  "bind m f s = (case m s of (Inl e, s') \<Rightarrow> (Inl e, s') | (Inr x, s') \<Rightarrow> f x s')"

definition seq :: "('w, unit) M \<Rightarrow> ('w, 'b) M \<Rightarrow> ('w, 'b) M" where
  "seq m k = bind m (\<lambda>_. k)"

text \<open>\<open>x, err := f()\<close> where the code goes on with the error in hand.\<close>

definition attempt :: "('w, 'a) M \<Rightarrow> ('w, 'a result) M" where
  "attempt m s = (case m s of
      (Inr x, s') \<Rightarrow> (Inr (Inr x), s')
    | (Inl (Err e), s') \<Rightarrow> (Inr (Inl e), s')
    | (Inl OutOfFuel, s') \<Rightarrow> (Inl OutOfFuel, s'))"

definition lift :: "'a result \<Rightarrow> ('w, 'a) M" where
  "lift r = (case r of Inl e \<Rightarrow> fail e | Inr x \<Rightarrow> ret x)"

definition require :: "bool \<Rightarrow> err \<Rightarrow> ('w, unit) M" where
  "require b e = (if b then ret () else fail e)"

definition lift_opt :: "err option \<Rightarrow> ('w, unit) M" where
  "lift_opt r = (case r of Some e \<Rightarrow> fail e | None \<Rightarrow> ret ())"

fun each :: "('a \<Rightarrow> ('w, unit) M) \<Rightarrow> 'a list \<Rightarrow> ('w, unit) M" where
  "each f [] = ret ()"
| "each f (x # xs) = seq (f x) (each f xs)"

fun foldM :: "('a \<Rightarrow> 's \<Rightarrow> ('w, 's) M) \<Rightarrow> 'a list \<Rightarrow> 's \<Rightarrow> ('w, 's) M" where
  "foldM f [] a = ret a"
| "foldM f (x # xs) a = bind (f x a) (foldM f xs)"

section \<open>Steps\<close>

definition noted :: "call \<Rightarrow> 'w st \<Rightarrow> 'w st" where
  "noted c s = s\<lparr>s_trace := (jb_state (s_job s), c) # s_trace s\<rparr>"

definition call_host :: "('w, 'a) act \<Rightarrow> ('a result \<Rightarrow> call) \<Rightarrow> ('w, 'a) M" where
  "call_host f c s = (case f (s_world s) of (r, w) \<Rightarrow>
     ((case r of Inl e \<Rightarrow> Inl (Err e) | Inr x \<Rightarrow> Inr x), noted (c r) (s\<lparr>s_world := w\<rparr>)))"

definition now :: "'w host \<Rightarrow> ('w, int) M" where
  "now h s = (case h_now h (s_world s) of (t, w) \<Rightarrow> (Inr t, s\<lparr>s_world := w\<rparr>))"

definition pause :: "'w host \<Rightarrow> int \<Rightarrow> ('w, unit) M" where
  "pause h d s = (case h_pause h d (s_world s) of (r, w) \<Rightarrow>
     ((case r of Inl e \<Rightarrow> Inl (Err e) | Inr x \<Rightarrow> Inr x), s\<lparr>s_world := w\<rparr>))"

text \<open>One request of the operator.\<close>

fun serve :: "request \<Rightarrow> 'w st \<Rightarrow> 'w st" where
  "serve (Ask a c) s =
     (if a = ''stop'' then
        (case requestStop c (s_job s) of (e, j) \<Rightarrow> noted (Asked a c (e = None)) (s\<lparr>s_job := j\<rparr>))
      else
        (let g = (control_check a c (s_job s) = None) in
          noted (Asked a c g) (if g then s\<lparr>s_granted := s_granted s @ [a]\<rparr> else s)))"
| "serve (Send i) s =
     (if i < length (s_granted s) then
        (case control_send (s_granted s ! i) (s_job s) of (e, j) \<Rightarrow>
          noted (Sent (s_granted s ! i) (e = None))
            (s\<lparr>s_job := j, s_granted := take i (s_granted s) @ drop (Suc i) (s_granted s)\<rparr>))
      else s)"

definition operator_turn :: "'w host \<Rightarrow> ('w, unit) M" where
  "operator_turn h s = (case h_operator h (s_world s) of (rs, w) \<Rightarrow> (Inr (), fold serve rs (s\<lparr>s_world := w\<rparr>)))"

definition on_job :: "(Job \<Rightarrow> 'a \<times> Job) \<Rightarrow> ('w, 'a) M" where
  "on_job f s = (case f (s_job s) of (x, j) \<Rightarrow> (Inr x, s\<lparr>s_job := j\<rparr>))"

text \<open>The job's operations as the engine calls them: each takes the mutex after the operator's turn.\<close>

definition j_update :: "'w host \<Rightarrow> (State \<Rightarrow> State) \<Rightarrow> ('w, unit) M" where
  "j_update h f = seq (operator_turn h) (bind (now h) (\<lambda>t. on_job (\<lambda>j. ((), update_job f t j))))"

text \<open>An update whose function also changes the rest of the job.\<close>

definition j_update_job :: "'w host \<Rightarrow> (Job \<Rightarrow> Job) \<Rightarrow> ('w, unit) M" where
  "j_update_job h f = seq (operator_turn h) (bind (now h) (\<lambda>t. on_job (\<lambda>j. ((), update_job (\<lambda>s. s) t (f j)))))"

text \<open>An update whose function reads the clock itself.\<close>

definition j_update_at :: "'w host \<Rightarrow> (int \<Rightarrow> State \<Rightarrow> State) \<Rightarrow> ('w, unit) M" where
  "j_update_at h f = seq (operator_turn h) (bind (now h) (\<lambda>t. bind (now h) (\<lambda>t'. on_job (\<lambda>j. ((), update_job (f t) t' j)))))"

definition j_phase :: "'w host \<Rightarrow> Phase \<Rightarrow> string \<Rightarrow> ('w, unit) M" where
  "j_phase h p m = j_update h (set_phase p m)"

definition j_stopRequested :: "'w host \<Rightarrow> ('w, bool) M" where
  "j_stopRequested h = seq (operator_turn h) (on_job (\<lambda>j. (stopRequested j, j)))"

definition j_proceed :: "'w host \<Rightarrow> Phase \<Rightarrow> string \<Rightarrow> ('w, unit) M" where
  "j_proceed h p m = seq (operator_turn h) (bind (now h) (\<lambda>t. bind (on_job (proceed p m t)) lift_opt))"

definition j_Snapshot :: "'w host \<Rightarrow> ('w, State) M" where
  "j_Snapshot h = seq (operator_turn h) (on_job (\<lambda>j. (Snapshot j, j)))"

text \<open>\<open>j.plan\<close> is read and written by the engine alone, without the mutex.\<close>

definition j_plan :: "('w, Report) M" where
  "j_plan = on_job (\<lambda>j. (jb_plan j, j))"

definition j_set_plan :: "Report \<Rightarrow> ('w, unit) M" where
  "j_set_plan r = on_job (\<lambda>j. ((), j\<lparr>jb_plan := r\<rparr>))"

definition take_action :: "'w st \<Rightarrow> string option \<times> 'w st" where
  "take_action s = (case jb_actions (s_job s) of
      None \<Rightarrow> (None, s)
    | Some a \<Rightarrow> (Some a, noted (Taken a) (s\<lparr>s_job := (s_job s)\<lparr>jb_actions := None\<rparr>\<rparr>)))"

text \<open>The select on the context and the actions channel: it waits until one of them is ready.\<close>

fun await_action :: "nat \<Rightarrow> 'w host \<Rightarrow> ('w, string) M" where
  "await_action 0 h s = (Inl OutOfFuel, s)"
| "await_action (Suc n) h s = (case h_wake h (s_world s) of (k, w) \<Rightarrow>
     (case k of
        Cancelled e \<Rightarrow> (Inl (Err e), s\<lparr>s_world := w\<rparr>)
      | Requests rs \<Rightarrow>
          (case take_action (fold serve rs (s\<lparr>s_world := w\<rparr>)) of
             (Some a, s') \<Rightarrow> (Inr a, s')
           | (None, s') \<Rightarrow> await_action n h s')))"

section \<open>The operations\<close>

definition x_Inventory :: "'w host \<Rightarrow> ('w, Inventory) M" where
  "x_Inventory h = call_host (h_Inventory h) GotInventory"

definition x_VMs :: "'w host \<Rightarrow> ('w, VM list) M" where
  "x_VMs h = call_host (h_VMs h) GotVMs"

definition x_Datastores :: "'w host \<Rightarrow> ('w, Datastore list) M" where
  "x_Datastores h = call_host (h_Datastores h) GotDatastores"

definition x_ReadFile :: "'w host \<Rightarrow> string \<Rightarrow> ('w, string) M" where
  "x_ReadFile h a = call_host (h_ReadFile h a) (GotReadFile a)"

definition x_Exists :: "'w host \<Rightarrow> string \<Rightarrow> ('w, bool) M" where
  "x_Exists h a = call_host (h_Exists h a) (GotExists a)"

definition x_Canonical :: "'w host \<Rightarrow> string \<Rightarrow> ('w, string) M" where
  "x_Canonical h a = call_host (h_Canonical h a) (GotCanonical a)"

definition x_List :: "'w host \<Rightarrow> string \<Rightarrow> ('w, string list) M" where
  "x_List h a = call_host (h_List h a) (GotList a)"

definition x_Size :: "'w host \<Rightarrow> string \<Rightarrow> ('w, int) M" where
  "x_Size h a = call_host (h_Size h a) (GotSize a)"

definition x_Allocated :: "'w host \<Rightarrow> string \<Rightarrow> ('w, int) M" where
  "x_Allocated h a = call_host (h_Allocated h a) (GotAllocated a)"

definition x_Power :: "'w host \<Rightarrow> int \<Rightarrow> ('w, Power) M" where
  "x_Power h a = call_host (h_Power h a) (GotPower a)"

definition x_Snapshot :: "'w host \<Rightarrow> int \<Rightarrow> ('w, string) M" where
  "x_Snapshot h a = call_host (h_Snapshot h a) (GotSnapshot a)"

definition x_ToolsRunning :: "'w host \<Rightarrow> int \<Rightarrow> ('w, bool) M" where
  "x_ToolsRunning h a = call_host (h_ToolsRunning h a) (GotToolsRunning a)"

definition x_Autostart :: "'w host \<Rightarrow> ('w, (int, AutoStart) gomap) M" where
  "x_Autostart h = call_host (h_Autostart h) GotAutostart"

definition x_Shutdown :: "'w host \<Rightarrow> int \<Rightarrow> ('w, unit) M" where
  "x_Shutdown h a = call_host (h_Shutdown h a) (DidShutdown a)"

definition x_ForceOff :: "'w host \<Rightarrow> int \<Rightarrow> ('w, unit) M" where
  "x_ForceOff h a = call_host (h_ForceOff h a) (DidForceOff a)"

definition x_VerifyChain :: "'w host \<Rightarrow> string \<Rightarrow> ('w, unit) M" where
  "x_VerifyChain h a = call_host (h_VerifyChain h a) (GotVerifyChain a)"

definition x_Acquire :: "'w host \<Rightarrow> string \<Rightarrow> string \<Rightarrow> ('w, unit) M" where
  "x_Acquire h a b = call_host (h_Acquire h a b) (DidAcquire a b)"

definition x_Finish :: "'w host \<Rightarrow> string \<Rightarrow> ('w, unit) M" where
  "x_Finish h a = call_host (h_Finish h a) (DidFinish a)"

definition x_CreateTarget :: "'w host \<Rightarrow> string \<Rightarrow> ('w, unit) M" where
  "x_CreateTarget h a = call_host (h_CreateTarget h a) (DidCreateTarget a)"

definition x_WriteTarget :: "'w host \<Rightarrow> string \<Rightarrow> string \<Rightarrow> string \<Rightarrow> ('w, unit) M" where
  "x_WriteTarget h a b c = call_host (h_WriteTarget h a b c) (DidWriteTarget a b c)"

definition x_StartClone :: "'w host \<Rightarrow> string \<Rightarrow> int \<Rightarrow> int \<Rightarrow> string \<Rightarrow> string \<Rightarrow> bool \<Rightarrow> ('w, unit) M" where
  "x_StartClone h a b c d e f = call_host (h_StartClone h a b c d e f) (DidStartClone a b c d e f)"

definition x_CloneStatus :: "'w host \<Rightarrow> int \<Rightarrow> ('w, CloneStatus) M" where
  "x_CloneStatus h a = call_host (h_CloneStatus h a) (GotCloneStatus a)"

definition x_StopClone :: "'w host \<Rightarrow> int \<Rightarrow> ('w, unit) M" where
  "x_StopClone h a = call_host (h_StopClone h a) (DidStopClone a)"

definition x_Unregister :: "'w host \<Rightarrow> int \<Rightarrow> ('w, unit) M" where
  "x_Unregister h a = call_host (h_Unregister h a) (DidUnregister a)"

definition x_Register :: "'w host \<Rightarrow> string \<Rightarrow> ('w, int) M" where
  "x_Register h a = call_host (h_Register h a) (DidRegister a)"

definition x_PowerOn :: "'w host \<Rightarrow> int \<Rightarrow> ('w, unit) M" where
  "x_PowerOn h a = call_host (h_PowerOn h a) (DidPowerOn a)"

definition x_Message :: "'w host \<Rightarrow> int \<Rightarrow> ('w, string) M" where
  "x_Message h a = call_host (h_Message h a) (GotMessage a)"

definition x_Answer :: "'w host \<Rightarrow> int \<Rightarrow> string \<Rightarrow> string \<Rightarrow> ('w, unit) M" where
  "x_Answer h a b c = call_host (h_Answer h a b c) (DidAnswer a b c)"

definition x_CreateSnapshot :: "'w host \<Rightarrow> int \<Rightarrow> string \<Rightarrow> ('w, unit) M" where
  "x_CreateSnapshot h a b = call_host (h_CreateSnapshot h a b) (DidCreateSnapshot a b)"

definition x_ConsolidateOwnSnapshot :: "'w host \<Rightarrow> int \<Rightarrow> string \<Rightarrow> ('w, unit) M" where
  "x_ConsolidateOwnSnapshot h a b = call_host (h_ConsolidateOwnSnapshot h a b) (DidConsolidate a b)"

definition x_CopyToTarget :: "'w host \<Rightarrow> string \<Rightarrow> string \<Rightarrow> ('w, unit) M" where
  "x_CopyToTarget h a b = call_host (h_CopyToTarget h a b) (DidCopyToTarget a b)"

lemmas x_defs = x_Inventory_def x_VMs_def x_Datastores_def x_ReadFile_def x_Exists_def x_Canonical_def x_List_def x_Size_def x_Allocated_def x_Power_def x_Snapshot_def x_ToolsRunning_def x_Autostart_def x_Shutdown_def x_ForceOff_def x_VerifyChain_def x_Acquire_def x_Finish_def x_CreateTarget_def x_WriteTarget_def x_StartClone_def x_CloneStatus_def x_StopClone_def x_Unregister_def x_Register_def x_PowerOn_def x_Message_def x_Answer_def x_CreateSnapshot_def x_ConsolidateOwnSnapshot_def x_CopyToTarget_def

end
