(* ===== verification/Host_Rules.thy ===== *)
theory Host_Rules
  imports Host
begin

text \<open>
  How the engine's code is reasoned about. \<open>quiet C m\<close> says that \<open>m\<close> only makes host calls of a
  kind \<open>C\<close>, leaves the job alone and ends; it holds by the structure of the code. \<open>hoare P m Q E\<close>
  is a triple with one postcondition for values and one for errors, where running out of fuel
  counts as an error: so an invariant proved for it holds at every point a run can reach.
\<close>

section \<open>Code that only calls the host\<close>

text \<open>A state after some calls were made, newest first, all with the same job state.\<close>

definition after :: "'w st \<Rightarrow> 'w \<Rightarrow> call list \<Rightarrow> 'w st" where
  "after s w new = s\<lparr>s_world := w, s_trace := map (Pair (jb_state (s_job s))) new @ s_trace s\<rparr>"

lemma after_simps [simp]:
  "s_job (after s w new) = s_job s" "s_granted (after s w new) = s_granted s" "s_world (after s w new) = w"
  "s_trace (after s w new) = map (Pair (jb_state (s_job s))) new @ s_trace s"
  "after (after s w new) w' new' = after s w' (new' @ new)"
  by (simp_all add: after_def)

lemma world_after: "s\<lparr>s_world := w\<rparr> = after s w []"
  by (simp add: after_def)

text \<open>Code that always ends; and code that always ends and only calls the host.\<close>

definition fuelled :: "('w, 'a) M \<Rightarrow> bool" where
  "fuelled m = (\<forall>s. fst (m s) \<noteq> Inl OutOfFuel)"

definition quiet :: "(call \<Rightarrow> bool) \<Rightarrow> ('w, 'a) M \<Rightarrow> bool" where
  "quiet C m = ((\<forall>s. \<exists>w new. snd (m s) = after s w new \<and> (\<forall>c \<in> set new. C c)) \<and> fuelled m)"

named_theorems quiet_intros \<open>code that only calls the host\<close>

lemma quietI:
  assumes "\<And>s. \<exists>w new. snd (m s) = after s w new \<and> (\<forall>c \<in> set new. C c)" and "fuelled m"
  shows "quiet C m"
  using assms by (simp add: quiet_def)

lemma quietD:
  assumes "quiet C m"
  obtains w new where "snd (m s) = after s w new" "\<forall>c \<in> set new. C c"
  using assms unfolding quiet_def by blast

lemma quiet_fuelled: "quiet C m \<Longrightarrow> fuelled m"
  by (simp add: quiet_def)

lemma fuelled_simple: "fuelled (ret x)" "fuelled (fail e)" "fuelled (call_host f c)" "fuelled (now h)" "fuelled (pause h d)" "fuelled (on_job g)"
    "fuelled (operator_turn h)"
  by (auto simp: fuelled_def ret_def fail_def throw_def call_host_def now_def pause_def on_job_def operator_turn_def split: prod.split sum.split)

lemma fuelled_bind: "fuelled m \<Longrightarrow> (\<And>x. fuelled (f x)) \<Longrightarrow> fuelled (bind m f)"
  by (auto simp: fuelled_def bind_def split: prod.split sum.split) (metis fst_conv)+

lemma fuelled_attempt: "fuelled m \<Longrightarrow> fuelled (attempt m)"
  by (auto simp: fuelled_def attempt_def split: prod.split sum.split exn.split) (metis fst_conv)+

lemma quiet_nothing:
  assumes "\<And>s. \<exists>w. snd (m s) = after s w []" and "fuelled m"
  shows "quiet C m"
proof (rule quietI [OF _ assms(2)])
  fix s
  from assms(1) [of s] obtain w where "snd (m s) = after s w []" by blast
  then show "\<exists>w new. snd (m s) = after s w new \<and> (\<forall>c \<in> set new. C c)"
    by (intro exI [of _ w] exI [of _ "[]"]) simp
qed

lemma same_world: "\<exists>w. s = after s w []"
  by (rule exI [of _ "s_world s"]) (simp add: after_def)

lemma quiet_ret [quiet_intros]: "quiet C (ret x)"
  and quiet_fail [quiet_intros]: "quiet C (fail e)"
  by (rule quiet_nothing, simp add: ret_def fail_def throw_def same_world, rule fuelled_simple)+

lemma quiet_mono: "quiet C m \<Longrightarrow> (\<And>c. C c \<Longrightarrow> D c) \<Longrightarrow> quiet D m"
  unfolding quiet_def by metis

lemma quiet_bind [quiet_intros]:
  assumes "quiet C m" and "\<And>x. quiet C (f x)"
  shows "quiet C (bind m f)"
proof (rule quietI)
  show "fuelled (bind m f)" using assms by (intro fuelled_bind quiet_fuelled)
next
  fix s
  obtain w new where 1: "snd (m s) = after s w new" "\<forall>c \<in> set new. C c"
    by (rule quietD [OF assms(1)])
  show "\<exists>w new. snd (bind m f s) = after s w new \<and> (\<forall>c \<in> set new. C c)"
  proof (cases "m s")
    case (Pair r s')
    with 1(1) have s': "s' = after s w new" by simp
    show ?thesis
    proof (cases r)
      case (Inl e)
      with Pair s' have "snd (bind m f s) = after s w new" by (simp add: bind_def)
      with 1(2) show ?thesis by blast
    next
      case (Inr x)
      with Pair have b: "bind m f s = f x s'" by (simp add: bind_def)
      obtain w' new' where 2: "snd (f x s') = after s' w' new'" "\<forall>c \<in> set new'. C c"
        by (rule quietD [OF assms(2)])
      with b s' have "snd (bind m f s) = after s w' (new' @ new)" by simp
      moreover have "\<forall>c \<in> set (new' @ new). C c" using 1 2 by auto
      ultimately show ?thesis by blast
    qed
  qed
qed

lemma quiet_seq [quiet_intros]: "quiet C m \<Longrightarrow> quiet C k \<Longrightarrow> quiet C (seq m k)"
  by (simp add: seq_def quiet_bind)

lemma snd_attempt: "snd (attempt m s) = snd (m s)"
  by (auto simp: attempt_def split: prod.split sum.split exn.split)

lemma quiet_attempt [quiet_intros]: "quiet C m \<Longrightarrow> quiet C (attempt m)"
  unfolding quiet_def snd_attempt by (simp add: fuelled_attempt)

lemma quiet_lift [quiet_intros]: "quiet C (lift r)"
  by (cases r) (simp_all add: lift_def quiet_intros)

lemma quiet_lift_opt [quiet_intros]: "quiet C (lift_opt r)"
  by (cases r) (simp_all add: lift_opt_def quiet_intros)

lemma quiet_require [quiet_intros]: "quiet C (require b e)"
  by (simp add: require_def quiet_intros)

lemma quiet_call [quiet_intros]:
  assumes "\<And>r. C (c r)"
  shows "quiet C (call_host f c :: ('w, 'a) M)"
proof (rule quietI [OF _ fuelled_simple(3)])
  fix s :: "'w st"
  obtain r w where r: "f (s_world s) = (r, w)" by (cases "f (s_world s)")
  then have "snd (call_host f c s) = after s w [c r]" by (simp add: call_host_def noted_def after_def)
  then show "\<exists>w new. snd (call_host f c s) = after s w new \<and> (\<forall>c \<in> set new. C c)"
    using assms by (intro exI [of _ w] exI [of _ "[c r]"]) simp
qed

lemma quiet_now [quiet_intros]: "quiet C (now h)"
  by (rule quiet_nothing [OF _ fuelled_simple(4)]) (auto simp: now_def world_after split: prod.split)

lemma quiet_pause [quiet_intros]: "quiet C (pause h d)"
  by (rule quiet_nothing [OF _ fuelled_simple(5)]) (auto simp: pause_def world_after split: prod.split)

lemma quiet_plan [quiet_intros]: "quiet C j_plan"
  unfolding j_plan_def by (rule quiet_nothing [OF _ fuelled_simple(6)]) (simp add: on_job_def same_world)

lemma quiet_each [quiet_intros]: "(\<And>x. x \<in> set xs \<Longrightarrow> quiet C (f x)) \<Longrightarrow> quiet C (each f xs)"
  by (induction xs) (simp_all add: quiet_intros)

lemma quiet_foldM [quiet_intros]: "(\<And>x a. x \<in> set xs \<Longrightarrow> quiet C (f x a)) \<Longrightarrow> quiet C (foldM f xs a)"
  by (induction xs arbitrary: a) (simp_all add: quiet_intros)

lemma quiet_if [quiet_intros]: "(b \<Longrightarrow> quiet C m) \<Longrightarrow> (\<not> b \<Longrightarrow> quiet C k) \<Longrightarrow> quiet C (if b then m else k)"
  by simp

lemma quiet_option [quiet_intros]:
  "(x = None \<Longrightarrow> quiet C m) \<Longrightarrow> (\<And>y. x = Some y \<Longrightarrow> quiet C (f y)) \<Longrightarrow> quiet C (case x of None \<Rightarrow> m | Some y \<Rightarrow> f y)"
  by (cases x) simp_all

lemma quiet_sum [quiet_intros]:
  "(\<And>e. x = Inl e \<Longrightarrow> quiet C (g e)) \<Longrightarrow> (\<And>y. x = Inr y \<Longrightarrow> quiet C (f y)) \<Longrightarrow> quiet C (case x of Inl e \<Rightarrow> g e | Inr y \<Rightarrow> f y)"
  by (cases x) simp_all

lemma quiet_prod [quiet_intros]: "(\<And>a b. x = (a, b) \<Longrightarrow> quiet C (f a b)) \<Longrightarrow> quiet C (case x of (a, b) \<Rightarrow> f a b)"
  by (cases x) simp

lemma quiet_Let [quiet_intros]: "quiet C (f x) \<Longrightarrow> quiet C (let y = x in f y)"
  by simp

lemma quiet_x:
  "quiet is_read (x_Inventory h)" "quiet is_read (x_VMs h)" "quiet is_read (x_Datastores h)" "quiet is_read (x_ReadFile h p)"
  "quiet is_read (x_Exists h p)" "quiet is_read (x_Canonical h p)" "quiet is_read (x_List h p)" "quiet is_read (x_Size h p)"
  "quiet is_read (x_Allocated h p)" "quiet is_read (x_Power h i)" "quiet is_read (x_Snapshot h i)"
  "quiet is_read (x_ToolsRunning h i)" "quiet is_read (x_Autostart h)" "quiet is_read (x_VerifyChain h p)"
  "quiet is_read (x_CloneStatus h i)" "quiet is_read (x_Message h i)"
  by (simp_all add: x_defs quiet_call)

section \<open>Triples\<close>

definition hoare :: "('w st \<Rightarrow> bool) \<Rightarrow> ('w, 'a) M \<Rightarrow> ('a \<Rightarrow> 'w st \<Rightarrow> bool) \<Rightarrow> (exn \<Rightarrow> 'w st \<Rightarrow> bool) \<Rightarrow> bool" where
  "hoare P m Q E = (\<forall>s. P s \<longrightarrow> (case m s of (Inr x, s') \<Rightarrow> Q x s' | (Inl e, s') \<Rightarrow> E e s'))"

lemma hoare_alt: "hoare P m Q E \<longleftrightarrow>
    (\<forall>s. P s \<longrightarrow> (\<forall>x s'. m s = (Inr x, s') \<longrightarrow> Q x s') \<and> (\<forall>e s'. m s = (Inl e, s') \<longrightarrow> E e s'))"
proof -
  have "(case m s of (Inr x, s') \<Rightarrow> Q x s' | (Inl e, s') \<Rightarrow> E e s') \<longleftrightarrow>
      (\<forall>x s'. m s = (Inr x, s') \<longrightarrow> Q x s') \<and> (\<forall>e s'. m s = (Inl e, s') \<longrightarrow> E e s')" for s
    by (cases "m s"; cases "fst (m s)") simp_all
  then show ?thesis by (simp only: hoare_def)
qed

lemma hoareI:
  assumes "\<And>s x s'. P s \<Longrightarrow> m s = (Inr x, s') \<Longrightarrow> Q x s'" and "\<And>s e s'. P s \<Longrightarrow> m s = (Inl e, s') \<Longrightarrow> E e s'"
  shows "hoare P m Q E"
  unfolding hoare_alt using assms by blast

lemma hoareD: "hoare P m Q E \<Longrightarrow> P s \<Longrightarrow> m s = (Inr x, s') \<Longrightarrow> Q x s'"
  and hoareE: "hoare P m Q E \<Longrightarrow> P s \<Longrightarrow> m s = (Inl e, s') \<Longrightarrow> E e s'"
  by (simp_all add: hoare_alt)

lemma hoare_pre: "hoare P m Q E \<Longrightarrow> (\<And>s. P' s \<Longrightarrow> P s) \<Longrightarrow> hoare P' m Q E"
  by (simp add: hoare_def)

lemma hoare_conseq:
  assumes "hoare P m Q E" and "\<And>s. P' s \<Longrightarrow> P s" and "\<And>x s. Q x s \<Longrightarrow> Q' x s" and "\<And>e s. E e s \<Longrightarrow> E' e s"
  shows "hoare P' m Q' E'"
  by (rule hoareI) (use assms in \<open>blast dest: hoareD hoareE\<close>)+

lemma hoare_ret: "(\<And>s. P s \<Longrightarrow> Q x s) \<Longrightarrow> hoare P (ret x) Q E"
  and hoare_throw: "(\<And>s. P s \<Longrightarrow> E e s) \<Longrightarrow> hoare P (throw e) Q E"
  by (simp_all add: hoare_def ret_def throw_def)

lemma hoare_fail: "(\<And>s. P s \<Longrightarrow> E (Err e) s) \<Longrightarrow> hoare P (fail e) Q E"
  by (simp add: fail_def hoare_throw)

lemma hoare_bind:
  assumes "hoare P m R E" and "\<And>x. hoare (R x) (f x) Q E"
  shows "hoare P (bind m f) Q E"
  unfolding hoare_def
proof (intro allI impI)
  fix s
  assume "P s"
  show "case bind m f s of (Inr x, s') \<Rightarrow> Q x s' | (Inl e, s') \<Rightarrow> E e s'"
  proof (cases "m s")
    case (Pair r s')
    show ?thesis
    proof (cases r)
      case (Inl e)
      with Pair hoareE [OF assms(1) \<open>P s\<close>] show ?thesis by (simp add: bind_def)
    next
      case (Inr x)
      with Pair hoareD [OF assms(1) \<open>P s\<close>] have "R x s'" by simp
      with assms(2) [of x] Inr Pair show ?thesis by (simp add: bind_def hoare_def)
    qed
  qed
qed

lemma hoare_seq: "hoare P m (\<lambda>_. R) E \<Longrightarrow> hoare R k Q E \<Longrightarrow> hoare P (seq m k) Q E"
  unfolding seq_def by (rule hoare_bind)

lemma hoare_seq_unit: "hoare P m R E \<Longrightarrow> hoare (R ()) k Q E \<Longrightarrow> hoare P (seq m k) Q E"
  unfolding seq_def by (rule hoare_bind) simp_all

lemma hoare_attempt:
  assumes "hoare P m (\<lambda>x. Q (Inr x)) (\<lambda>e s. case e of Err x \<Rightarrow> Q (Inl x) s | OutOfFuel \<Rightarrow> E OutOfFuel s)"
  shows "hoare P (attempt m) Q E"
  unfolding hoare_def
proof (intro allI impI)
  fix s
  assume "P s"
  obtain r s' where m: "m s = (r, s')" by (cases "m s")
  show "case attempt m s of (Inr x, s') \<Rightarrow> Q x s' | (Inl e, s') \<Rightarrow> E e s'"
  proof (cases r)
    case (Inl e)
    with m hoareE [OF assms \<open>P s\<close>, of e s'] show ?thesis by (cases e) (simp_all add: attempt_def)
  next
    case (Inr x)
    with m hoareD [OF assms \<open>P s\<close>, of x s'] show ?thesis by (simp add: attempt_def)
  qed
qed

lemma hoare_lift: "(\<And>e s. P s \<Longrightarrow> r = Inl e \<Longrightarrow> E (Err e) s) \<Longrightarrow> (\<And>x s. P s \<Longrightarrow> r = Inr x \<Longrightarrow> Q x s) \<Longrightarrow> hoare P (lift r) Q E"
  by (cases r) (simp_all add: lift_def hoare_fail hoare_ret)

lemma hoare_lift_opt: "(\<And>e s. P s \<Longrightarrow> r = Some e \<Longrightarrow> E (Err e) s) \<Longrightarrow> (\<And>s. P s \<Longrightarrow> r = None \<Longrightarrow> Q () s) \<Longrightarrow> hoare P (lift_opt r) Q E"
  by (cases r) (simp_all add: lift_opt_def hoare_fail hoare_ret)

lemma hoare_require: "(\<And>s. P s \<Longrightarrow> \<not> b \<Longrightarrow> E (Err e) s) \<Longrightarrow> (\<And>s. P s \<Longrightarrow> b \<Longrightarrow> Q () s) \<Longrightarrow> hoare P (require b e) Q E"
  by (simp add: require_def hoare_fail hoare_ret)

lemma hoare_if: "(b \<Longrightarrow> hoare P m Q E) \<Longrightarrow> (\<not> b \<Longrightarrow> hoare P k Q E) \<Longrightarrow> hoare P (if b then m else k) Q E"
  by simp

lemma hoare_option:
  "(x = None \<Longrightarrow> hoare P m Q E) \<Longrightarrow> (\<And>y. x = Some y \<Longrightarrow> hoare P (f y) Q E) \<Longrightarrow> hoare P (case x of None \<Rightarrow> m | Some y \<Rightarrow> f y) Q E"
  by (cases x) simp_all

lemma hoare_sum:
  "(\<And>e. x = Inl e \<Longrightarrow> hoare P (g e) Q E) \<Longrightarrow> (\<And>y. x = Inr y \<Longrightarrow> hoare P (f y) Q E) \<Longrightarrow> hoare P (case x of Inl e \<Rightarrow> g e | Inr y \<Rightarrow> f y) Q E"
  by (cases x) simp_all

lemma hoare_prod: "(\<And>a b. x = (a, b) \<Longrightarrow> hoare P (f a b) Q E) \<Longrightarrow> hoare P (case x of (a, b) \<Rightarrow> f a b) Q E"
  by (cases x) simp

lemma hoare_let: "hoare P (f x) Q E \<Longrightarrow> hoare P (let y = x in f y) Q E"
  by simp

lemma hoare_each:
  assumes "\<And>x. x \<in> set xs \<Longrightarrow> hoare P (f x) (\<lambda>_. P) E"
  shows "hoare P (each f xs) (\<lambda>_. P) E"
  using assms by (induction xs) (auto intro!: hoare_ret hoare_seq)

lemma hoare_call:
  assumes "\<And>s (r :: 'a result) w. P s \<Longrightarrow>
      (case r of Inr x \<Rightarrow> Q x (after s w [c r]) | Inl e \<Rightarrow> E (Err e) (after s w [c r]))"
  shows "hoare P (call_host f c) Q E"
  unfolding hoare_def
proof (intro allI impI)
  fix s
  assume "P s"
  obtain r w where f: "f (s_world s) = (r, w)" by (cases "f (s_world s)")
  have "noted (c r) (s\<lparr>s_world := w\<rparr>) = after s w [c r]" by (simp add: noted_def after_def)
  with assms [where r = r and w = w, OF \<open>P s\<close>] f show "case call_host f c s of (Inr x, s') \<Rightarrow> Q x s' | (Inl e, s') \<Rightarrow> E e s'"
    by (cases r) (simp_all add: call_host_def del: after_simps)
qed

lemma hoare_plan: "(\<And>s. P s \<Longrightarrow> Q (jb_plan (s_job s)) s) \<Longrightarrow> hoare P j_plan Q E"
  by (simp add: hoare_def j_plan_def on_job_def)

lemma hoare_set_plan:
  "(\<And>s. P s \<Longrightarrow> Q () (s\<lparr>s_job := (s_job s)\<lparr>jb_plan := r\<rparr>\<rparr>)) \<Longrightarrow> hoare P (j_set_plan r) Q E"
  by (simp add: hoare_def j_set_plan_def on_job_def)

text \<open>A quiet computation keeps what new entries of its kind keep.\<close>

lemma hoare_quiet:
  assumes "quiet C m"
    and "\<And>s w new. P s \<Longrightarrow> \<forall>c \<in> set new. C c \<Longrightarrow> Q (after s w new)"
    and "\<And>e s. Q s \<Longrightarrow> E e s"
  shows "hoare P m (\<lambda>_. Q) E"
  unfolding hoare_def
proof (intro allI impI)
  fix s
  assume "P s"
  obtain w new where "snd (m s) = after s w new" "\<forall>c \<in> set new. C c"
    by (rule quietD [OF assms(1)])
  with assms(2) [OF \<open>P s\<close>] have "Q (snd (m s))" by simp
  with assms(3) show "case m s of (Inr x, s') \<Rightarrow> Q s' | (Inl e, s') \<Rightarrow> E e s'" by (auto split: prod.splits sum.splits)
qed

section \<open>What a result satisfies\<close>

definition gives :: "('a \<Rightarrow> bool) \<Rightarrow> ('w, 'a) M \<Rightarrow> bool" where
  "gives R m = (\<forall>s x s'. m s = (Inr x, s') \<longrightarrow> R x)"

named_theorems gives_intros \<open>facts of the value a computation returns\<close>

lemma givesD: "gives R m \<Longrightarrow> m s = (Inr x, s') \<Longrightarrow> R x"
  unfolding gives_def by blast

lemma gives_weaken: "gives R m \<Longrightarrow> (\<And>x. R x \<Longrightarrow> Q x) \<Longrightarrow> gives Q m"
  unfolding gives_def by blast

lemma gives_True: "gives (\<lambda>_. True) m"
  by (simp add: gives_def)

lemma gives_ret [gives_intros]: "R x \<Longrightarrow> gives R (ret x)"
  and gives_throw [gives_intros]: "gives R (throw e)"
  and gives_fail [gives_intros]: "gives R (fail f)"
  by (simp_all add: gives_def ret_def fail_def throw_def)

lemma gives_bind:
  assumes "gives Q m" and "\<And>x. Q x \<Longrightarrow> gives R (f x)"
  shows "gives R (bind m f)"
  unfolding gives_def
proof (intro allI impI)
  fix s x s'
  assume "bind m f s = (Inr x, s')"
  then obtain y t where "m s = (Inr y, t)" "f y t = (Inr x, s')"
    by (cases "m s"; cases "fst (m s)") (simp_all add: bind_def)
  with assms show "R x" by (meson givesD)
qed

lemma gives_bind_any [gives_intros]: "(\<And>x. gives R (f x)) \<Longrightarrow> gives R (bind m f)"
  by (rule gives_bind [OF gives_True])

lemma gives_seq [gives_intros]: "gives R k \<Longrightarrow> gives R (seq m k)"
  by (simp add: seq_def gives_bind_any)

lemma gives_lift: "(\<And>x. r = Inr x \<Longrightarrow> R x) \<Longrightarrow> gives R (lift r)"
  by (cases r) (simp_all add: lift_def gives_intros)

lemma gives_require: "gives (\<lambda>_. b) (require b e)"
  by (simp add: require_def gives_intros)

lemma gives_lift_opt: "gives (\<lambda>_. r = None) (lift_opt r)"
  by (cases r) (simp_all add: lift_opt_def gives_intros)

lemma gives_seq_require [gives_intros]: "(b \<Longrightarrow> gives R k) \<Longrightarrow> gives R (seq (require b e) k)"
  unfolding seq_def by (rule gives_bind [OF gives_require])

lemma gives_foldM:
  assumes "R a" and "\<And>x b. x \<in> set xs \<Longrightarrow> R b \<Longrightarrow> gives R (f x b)"
  shows "gives R (foldM f xs a)"
  using assms
proof (induction xs arbitrary: a)
  case Nil
  then show ?case by (simp add: gives_ret)
next
  case (Cons x xs)
  from Cons.prems have "gives R (f x a)" by simp
  moreover have "gives R (foldM f xs b)" if "R b" for b
    using Cons.IH [OF that] Cons.prems(2) by simp
  ultimately show ?case by (simp add: gives_bind)
qed

lemma gives_if [gives_intros]: "(b \<Longrightarrow> gives R m) \<Longrightarrow> (\<not> b \<Longrightarrow> gives R k) \<Longrightarrow> gives R (if b then m else k)"
  by simp

lemma gives_option [gives_intros]:
  "(x = None \<Longrightarrow> gives R m) \<Longrightarrow> (\<And>y. x = Some y \<Longrightarrow> gives R (f y)) \<Longrightarrow> gives R (case x of None \<Rightarrow> m | Some y \<Rightarrow> f y)"
  by (cases x) simp_all

lemma gives_sum [gives_intros]:
  "(\<And>e. x = Inl e \<Longrightarrow> gives R (g e)) \<Longrightarrow> (\<And>y. x = Inr y \<Longrightarrow> gives R (f y)) \<Longrightarrow> gives R (case x of Inl e \<Rightarrow> g e | Inr y \<Rightarrow> f y)"
  by (cases x) simp_all

lemma gives_prod [gives_intros]: "(\<And>a b. x = (a, b) \<Longrightarrow> gives R (f a b)) \<Longrightarrow> gives R (case x of (a, b) \<Rightarrow> f a b)"
  by (cases x) simp

section \<open>What a run was told\<close>

text \<open>Calls that are in the trace, with their answers; they stay there.\<close>

definition calls :: "'w st \<Rightarrow> call set" where
  "calls s = snd ` set (s_trace s)"

definition told_all :: "call set \<Rightarrow> 'w st \<Rightarrow> bool" where
  "told_all K s = (K \<subseteq> calls s)"

lemma calls_after [simp]: "calls (after s w new) = set new \<union> calls s"
  by (auto simp: calls_def image_Un image_image)

definition anyway :: "exn \<Rightarrow> 'w st \<Rightarrow> bool" where
  "anyway e s = True"

lemma told_call: "hoare (told_all K) (call_host f c) (\<lambda>x. told_all (insert (c (Inr x)) K)) anyway"
  by (rule hoare_call) (auto simp: told_all_def anyway_def split: sum.split)

lemma told_attempt: "hoare (told_all K) (attempt (call_host f c)) (\<lambda>r. told_all (insert (c r) K)) anyway"
  by (rule hoare_attempt, rule hoare_call) (auto simp: told_all_def anyway_def split: sum.split)

lemma hoare_pure: "(b \<Longrightarrow> hoare P m Q E) \<Longrightarrow> hoare (\<lambda>s. b \<and> P s) m Q E"
  by (simp add: hoare_def)

lemma told_lift: "(\<And>x. r = Inr x \<Longrightarrow> hoare (told_all K) (f x) Q anyway) \<Longrightarrow> hoare (told_all K) (bind (lift r) f) Q anyway"
  by (cases r) (auto simp: lift_def hoare_def bind_def ret_def fail_def throw_def anyway_def)

lemma told_lift_opt: "(r = None \<Longrightarrow> hoare (told_all K) m Q anyway) \<Longrightarrow> hoare (told_all K) (seq (lift_opt r) m) Q anyway"
  by (cases r) (auto simp: lift_opt_def hoare_def seq_def bind_def ret_def fail_def throw_def anyway_def)

lemma told_require: "(b \<Longrightarrow> hoare (told_all K) m Q anyway) \<Longrightarrow> hoare (told_all K) (seq (require b e) m) Q anyway"
  by (cases b) (auto simp: require_def hoare_def seq_def bind_def ret_def fail_def throw_def anyway_def)

lemma told_require_last: "(\<And>s. b \<Longrightarrow> told_all K s \<Longrightarrow> Q () s) \<Longrightarrow> hoare (told_all K) (require b e) Q anyway"
  by (rule hoare_require) (simp_all add: anyway_def)

end
