(* ===== verification/Shell.thy ===== *)
theory Shell
  imports Go_Strings
begin

text \<open>
  The quoting of command lines in \<open>internal/esxi/executor.go\<close>, and what a POSIX shell reads
  out of it. \<open>sh_words\<close> is the word splitting of the shell command language for the fragment
  quoting can produce (plain characters, blanks, single and double quotes); anything else, an
  operator or an expansion, is \<open>None\<close>, so a result means that nothing was interpreted.
\<close>

section \<open>Quoting\<close>

text \<open>The sole quoting function: a single quote becomes a quoted single quote between two quoted parts.\<close>

definition quote_gap :: string where
  "quote_gap = [sq, dq, sq, dq, sq]"

definition Quote :: "string \<Rightarrow> string" where
  "Quote s = [sq] @ replace_all s [sq] quote_gap @ [sq]"

definition Argv :: "string list \<Rightarrow> string" where
  "Argv args = join '' '' (map Quote args)"

section \<open>Reading a command line\<close>

datatype quoting = Bare | Single | Double

text \<open>Characters with no meaning to the shell outside quotes.\<close>

definition sh_plain :: "char \<Rightarrow> bool" where
  "sh_plain c = (is_alnum c \<or> c \<in> set ''-_./:,+@%'')"

text \<open>Inside double quotes an expansion or an escape is not read.\<close>

definition sh_active :: "char \<Rightarrow> bool" where
  "sh_active c = (c = CHR ''$'' \<or> c = CHR 0x60 \<or> c = backslash \<or> c = nul)"

fun sh_scan :: "quoting \<Rightarrow> bool \<Rightarrow> string \<Rightarrow> string \<Rightarrow> string list option" where
  "sh_scan Bare inword acc [] = Some (if inword then [rev acc] else [])"
| "sh_scan Single inword acc [] = None"
| "sh_scan Double inword acc [] = None"
| "sh_scan Bare inword acc (c # cs) =
     (if c = sq then sh_scan Single True acc cs
      else if c = dq then sh_scan Double True acc cs
      else if c = CHR '' '' then
        (if inword then map_option (\<lambda>ws. rev acc # ws) (sh_scan Bare False [] cs) else sh_scan Bare False [] cs)
      else if sh_plain c then sh_scan Bare True (c # acc) cs
      else None)"
| "sh_scan Single inword acc (c # cs) =
     (if c = sq then sh_scan Bare True acc cs
      else if c = nul then None
      else sh_scan Single True (c # acc) cs)"
| "sh_scan Double inword acc (c # cs) =
     (if c = dq then sh_scan Bare True acc cs
      else if sh_active c then None
      else sh_scan Double True (c # acc) cs)"

definition sh_words :: "string \<Rightarrow> string list option" where
  "sh_words s = sh_scan Bare False [] s"

section \<open>Quoting is read back\<close>

lemma quote_chars [simp]: "sq \<noteq> dq" "dq \<noteq> sq" "sq \<noteq> nul" "\<not> sh_active sq" "sq \<noteq> CHR '' ''" "dq \<noteq> CHR '' ''"
  by (simp_all add: sh_active_def)

lemma scan_quoted:
  "nul \<notin> set s \<Longrightarrow>
   sh_scan Single w acc (concat (map (\<lambda>x. if x = sq then quote_gap else [x]) s) @ sq # rest) = sh_scan Bare True (rev s @ acc) rest"
  by (induction s arbitrary: acc w) (auto simp: quote_gap_def)

lemma scan_Quote: "nul \<notin> set s \<Longrightarrow> sh_scan Bare w acc (Quote s @ rest) = sh_scan Bare True (rev s @ acc) rest"
  by (simp add: Quote_def replace_all_single scan_quoted)

lemma scan_Argv: "\<forall>a \<in> set args. nul \<notin> set a \<Longrightarrow> sh_scan Bare False [] (Argv args) = Some args"
proof (induction args rule: induct_list012)
  case (2 x)
  then show ?case using scan_Quote [of x False "[]" "[]"] by (simp add: Argv_def)
next
  case (3 x y zs)
  have "Argv (x # y # zs) = Quote x @ CHR '' '' # Argv (y # zs)" by (simp add: Argv_def)
  moreover from 3 have "sh_scan Bare False [] (Argv (y # zs)) = Some (y # zs)" by simp
  ultimately show ?case using "3.prems" by (simp add: scan_Quote)
qed (simp add: Argv_def)

text \<open>A quoted part of a longer command stays one word, whatever follows it.\<close>

lemma scan_Quote_word:
  assumes "nul \<notin> set s"
  shows "sh_words (Quote s @ CHR '' '' # rest) = map_option (\<lambda>ws. s # ws) (sh_words rest)"
  using assms by (simp add: sh_words_def scan_Quote)

section \<open>Properties\<close>

text \<open>
  C39: the shell gives a command exactly the arguments the code wrote: the words of \<open>Argv args\<close> are \<open>args\<close>, for any bytes but
  NUL in them, quotes, blanks, dollars and newlines included.
\<close>

theorem argv_roundtrip:
  assumes "\<forall>a \<in> set args. nul \<notin> set a"
  shows "sh_words (Argv args) = Some args"
  using assms by (simp add: sh_words_def scan_Argv)

theorem argv_roundtrip_witness: "sh_words (Argv [''rm'', (''it'' @ [sq] @ ''s $(rm -rf /)'')]) = Some [''rm'', (''it'' @ [sq] @ ''s $(rm -rf /)'')]"
  by (rule argv_roundtrip) simp

end
