(* ===== verification/Vmx_Analyzer.thy ===== *)
theory Vmx_Analyzer
  imports Vmx
begin

text \<open>
  \<open>internal/vmx/analyzer.go\<close>: what a configuration refers to, what in it cannot be migrated,
  and the rewriting of its backings. \<open>Analyze\<close> walks a Go map, whose order is unspecified;
  the model walks the association list, and \<open>vmx_Analyze_perm\<close> shows that the order never
  reaches the result.
\<close>

section \<open>Analysis\<close>

record DiskRef =
  dr_Key :: string
  dr_File :: string
  dr_Controller :: string

record Reference =
  ref_Key :: string
  ref_File :: string
  ref_Kind :: string

record Analysis =
  Disks :: "DiskRef list"
  References :: "Reference list"
  Blocks :: "string list"
  Controllers :: "string list"

definition diskKey :: rx where
  "diskKey = rseq [Bot, Grp 1 (Alt (rlit ''scsi'') (Alt (rlit ''sata'') (Alt (rlit ''ide'') (rlit ''nvme'')))),
     rplus rdigit, rlit '':'', rplus rdigit, rlit ''.filename'', Eot]"

text \<open>What one entry \<open>k = v\<close> of the configuration adds to the blocks.\<close>

definition setting_blocks :: "string \<Rightarrow> string \<Rightarrow> string list" where
  "setting_blocks k v = (let low = to_lower v in
     (if k = ''uuid.action'' \<and> low \<noteq> [] \<and> low \<noteq> ''keep''
      then [''VMX forces an identity change; uuid.action requires manual review''] else []) @
     (if contains k ''encrypt'' \<or> contains k ''vtpm'' \<or> has_prefix k ''tpm.'' \<or> contains k ''keyid''
      then [''Encryption or vTPM configuration: '' @ k] else []) @
     (if (contains k ''sharing'' \<and> low \<noteq> ''none'' \<and> low \<noteq> []) \<or> contains low ''multi-writer'' \<or>
         (has_suffix k ''sharedbus'' \<and> low \<noteq> ''none'')
      then [''Shared or multi-writer disk configuration: '' @ k] else []) @
     (if has_suffix k ''.mode'' \<and> (has_prefix k ''scsi'' \<or> has_prefix k ''sata'' \<or> has_prefix k ''ide'' \<or> has_prefix k ''nvme'') \<and>
         low \<noteq> ''persistent'' \<and> low \<noteq> []
      then [''Only ordinary persistent disks are supported: '' @ k] else []) @
     (if has_suffix k ''.redo'' \<and> v \<noteq> [] then [''Redo disk reference: '' @ k] else []) @
     (if (contains k ''ctk'' \<and> low = ''true'') \<or> (k = ''checkpoint.vmstate'' \<and> v \<noteq> [])
      then [''CBT or suspended state is unsupported: '' @ k] else []) @
     (if has_suffix k ''.devicetype'' \<and> (contains low ''raw'' \<or> contains low ''passthru'')
      then [''Raw or passthrough device: '' @ k] else []) @
     (if has_prefix k ''pcipassthru'' \<and> has_suffix k ''.present'' \<and> low = ''true''
      then [''PCI passthrough is unsupported''] else []))"

definition controller_of :: "string \<Rightarrow> string \<Rightarrow> string list" where
  "controller_of k v = (if has_suffix k ''.virtualdev'' then [k @ ''='' @ v] else [])"

definition backing_kind :: "string \<Rightarrow> string \<Rightarrow> string" where
  "backing_kind k low =
     (if has_suffix low ''.iso'' then ''ISO''
      else if has_prefix k ''floppy'' then ''floppy''
      else if has_prefix k ''serial'' \<or> has_prefix k ''parallel'' then ''serial/parallel''
      else ''external'')"

text \<open>The part of the loop body for keys that end in \<open>.filename\<close>: disks, references, blocks.\<close>

definition backing_entry :: "config \<Rightarrow> string \<Rightarrow> string \<Rightarrow> Analysis" where
  "backing_entry c k v = (let low = to_lower v in
     if has_suffix k ''.filename'' then
       let base = trim_suffix k ''.filename'' in
       if has_suffix low ''.vmdk'' then
         if \<not> match_string diskKey k \<or> \<not> vmx_True c (base @ ''.present'')
         then \<lparr>Disks = [], References = [], Blocks = [''Unrecognized or inactive VMDK reference: '' @ k], Controllers = []\<rparr>
         else \<lparr>Disks = [\<lparr>dr_Key = k, dr_File = v, dr_Controller = hd (split_on CHR '':'' base)\<rparr>],
               References = [], Blocks = [], Controllers = []\<rparr>
       else
         let kind = backing_kind k low in
         \<lparr>Disks = [],
          References = [\<lparr>ref_Key = k, ref_File = v, ref_Kind = kind\<rparr>],
          Blocks =
            (if kind = ''serial/parallel'' \<and> equal_fold (lookup0 c (base @ ''.filetype'')) ''file''
             then [''Writable serial/parallel file is unsupported: '' @ k] else []) @
            (if kind = ''floppy'' \<and> vmx_True c (base @ ''.present'')
             then [''Connected floppy devices are unsupported''] else []) @
            (if vmx_True c (base @ ''.present'') \<and> kind = ''external''
             then [''Unrecognized active device backing: '' @ k] else []),
          Controllers = []\<rparr>
     else \<lparr>Disks = [], References = [], Blocks = [], Controllers = []\<rparr>)"

definition analyze_entry :: "config \<Rightarrow> string \<times> string \<Rightarrow> Analysis" where
  "analyze_entry c kv = (let k = fst kv; v = snd kv; b = backing_entry c k v in
     b\<lparr>Blocks := setting_blocks k v @ Blocks b, Controllers := controller_of k v\<rparr>)"

definition vmx_Analyze :: "config \<Rightarrow> Analysis" where
  "vmx_Analyze c = (let es = map (analyze_entry c) c;
       ds = concat (map Disks es);
       bs = concat (map Blocks es) @ (if ds = [] then [''No supported active VMDK disks found''] else [])
     in \<lparr>Disks = sort_key dr_Key ds,
         References = sort_key ref_Key (concat (map References es)),
         Blocks = sort bs,
         Controllers = sort (concat (map Controllers es))\<rparr>)"

section \<open>Rewriting\<close>

definition runtime_keys :: "string list" where
  "runtime_keys = [''sched.swap.derivedname'', ''workingdir'', ''snapshot.directory'', ''checkpoint.vmstate'',
     ''migrate.hostlog'', ''log.filename'']"

definition replace_key :: "string \<times> string \<Rightarrow> config \<Rightarrow> config result" where
  "replace_key kv out = (if \<not> has_key out (fst kv) then Inl (Errorf (''missing rewrite key '' @ fst kv))
     else Inr (put out (fst kv) (snd kv)))"

definition vmx_Rewrite :: "config \<Rightarrow> (string, string) gomap \<Rightarrow> config result" where
  "vmx_Rewrite c replacements =
     and_then (fold_result replace_key replacements (vmx_Clone c))
       (\<lambda>out. Inr (filter (\<lambda>(k, _). k \<notin> set runtime_keys) out))"

section \<open>Order independence\<close>

lemma backing_entry_cong: "map_of c = map_of c' \<Longrightarrow> backing_entry c = backing_entry c'"
proof -
  assume a: "map_of c = map_of c'"
  then have "lookup0 c = lookup0 c'" by (simp add: lookup0_def fun_eq_iff)
  moreover from this have "vmx_True c = vmx_True c'" by (simp add: vmx_True_def fun_eq_iff)
  ultimately show ?thesis by (intro ext) (simp only: backing_entry_def)
qed

lemma analyze_entry_cong: "map_of c = map_of c' \<Longrightarrow> analyze_entry c = analyze_entry c'"
  by (drule backing_entry_cong) (intro ext, simp only: analyze_entry_def)

lemma Disks_analyze_entry: "Disks (analyze_entry c (k, v)) = Disks (backing_entry c k v)"
  by (simp add: analyze_entry_def Let_def)

lemma References_analyze_entry: "References (analyze_entry c (k, v)) = References (backing_entry c k v)"
  by (simp add: analyze_entry_def Let_def)

lemma Blocks_analyze_entry: "Blocks (analyze_entry c (k, v)) = setting_blocks k v @ Blocks (backing_entry c k v)"
  by (simp add: analyze_entry_def Let_def)

lemma backing_entry_key:
  "(\<exists>d. Disks (backing_entry c k v) = [d] \<and> dr_Key d = k) \<or> Disks (backing_entry c k v) = []"
  "(\<exists>r. References (backing_entry c k v) = [r] \<and> ref_Key r = k) \<or> References (backing_entry c k v) = []"
  by (auto simp: backing_entry_def Let_def)

lemma distinct_entry_keys:
  fixes f :: "'k \<times> 'v \<Rightarrow> 'd list" and key :: "'d \<Rightarrow> 'k"
  assumes "\<And>k v. (\<exists>d. f (k, v) = [d] \<and> key d = k) \<or> f (k, v) = []" and "distinct (map fst kvs)"
  shows "distinct (map key (concat (map f kvs)))"
proof -
  have sub: "key ` set (concat (map f kvs)) \<subseteq> fst ` set kvs" for kvs :: "('k \<times> 'v) list"
  proof
    fix y assume "y \<in> key ` set (concat (map f kvs))"
    then obtain kv where "kv \<in> set kvs" "y \<in> key ` set (f kv)" by auto
    moreover obtain k v where "kv = (k, v)" by (cases kv)
    ultimately show "y \<in> fst ` set kvs" using assms(1) [of k v] by force
  qed
  from assms(2) show ?thesis
  proof (induction kvs)
    case (Cons kv kvs)
    obtain k v where kv: "kv = (k, v)" by (cases kv)
    have "k \<notin> key ` set (concat (map f kvs))" using Cons.prems kv sub [of kvs] by auto
    with Cons kv assms(1) [of k v] show ?case by (auto simp del: set_concat)
  qed simp
qed

lemma distinct_disk_keys: "wf_map c \<Longrightarrow> distinct (map dr_Key (concat (map Disks (map (analyze_entry c) c))))"
  using distinct_entry_keys [of "Disks \<circ> analyze_entry c" dr_Key c] backing_entry_key(1)
  by (simp add: Disks_analyze_entry wf_map_def keys_def comp_def)

lemma distinct_reference_keys: "wf_map c \<Longrightarrow> distinct (map ref_Key (concat (map References (map (analyze_entry c) c))))"
  using distinct_entry_keys [of "References \<circ> analyze_entry c" ref_Key c] backing_entry_key(2)
  by (simp add: References_analyze_entry wf_map_def keys_def comp_def)

lemma vmx_Analyze_perm:
  assumes "wf_map c" and "mset c = mset c'"
  shows "vmx_Analyze c = vmx_Analyze c'"
proof -
  let ?es = "map (analyze_entry c) c" and ?es' = "map (analyze_entry c') c'"
  have m: "mset ?es = mset ?es'"
    using analyze_entry_cong [OF map_of_perm [OF assms]] assms(2) by simp
  have p: "mset (concat (map f ?es)) = mset (concat (map f ?es'))" for f :: "Analysis \<Rightarrow> 'b list"
    using m by (rule mset_concat_map_perm)
  have "sort_key dr_Key (concat (map Disks ?es)) = sort_key dr_Key (concat (map Disks ?es'))"
    by (rule sort_key_perm_unique [OF p distinct_disk_keys [OF assms(1)]])
  moreover have "sort_key ref_Key (concat (map References ?es)) = sort_key ref_Key (concat (map References ?es'))"
    by (rule sort_key_perm_unique [OF p distinct_reference_keys [OF assms(1)]])
  moreover have "concat (map Disks ?es) = [] \<longleftrightarrow> concat (map Disks ?es') = []"
    using p [of Disks] by (metis mset_zero_iff)
  moreover have "sort (concat (map Blocks ?es) @ (if concat (map Disks ?es) = [] then x else [])) =
      sort (concat (map Blocks ?es') @ (if concat (map Disks ?es') = [] then x else []))" for x
    using calculation(3) p [of Blocks] by (intro sort_perm_unique) (simp only: mset_append)
  ultimately show ?thesis
    using sort_perm_unique [OF p [of Controllers]]
    by (simp only: vmx_Analyze_def Let_def)
qed

section \<open>What an unblocked analysis says\<close>

lemma set_Blocks_Analyze:
  "Blocks (vmx_Analyze c) = [] \<longleftrightarrow>
     (\<forall>(k, v) \<in> set c. setting_blocks k v = [] \<and> Blocks (backing_entry c k v) = []) \<and> Disks (vmx_Analyze c) \<noteq> []"
proof -
  have e: "sort_key f xs = [] \<longleftrightarrow> xs = []" for f :: "'b \<Rightarrow> 'c :: linorder" and xs
    by (metis length_0_conv length_sort)
  have "Blocks (vmx_Analyze c) = [] \<longleftrightarrow>
      (\<forall>kv \<in> set c. Blocks (analyze_entry c kv) = []) \<and> concat (map Disks (map (analyze_entry c) c)) \<noteq> []"
    by (auto simp: vmx_Analyze_def Let_def e)
  also have "(concat (map Disks (map (analyze_entry c) c)) \<noteq> []) = (Disks (vmx_Analyze c) \<noteq> [])"
    by (simp only: vmx_Analyze_def Let_def e Analysis.select_convs)
  also have "(\<forall>kv \<in> set c. Blocks (analyze_entry c kv) = []) \<longleftrightarrow>
      (\<forall>(k, v) \<in> set c. setting_blocks k v = [] \<and> Blocks (backing_entry c k v) = [])"
    by (auto simp: Blocks_analyze_entry)
  finally show ?thesis .
qed

lemma set_Disks_Analyze:
  "d \<in> set (Disks (vmx_Analyze c)) \<longleftrightarrow> (\<exists>(k, v) \<in> set c. d \<in> set (Disks (backing_entry c k v)))"
  by (force simp: vmx_Analyze_def Let_def Disks_analyze_entry)

text \<open>A listed disk is an entry of the configuration, under a disk key, and attached.\<close>

lemma Disks_backing_entry:
  "d \<in> set (Disks (backing_entry c k v)) \<longleftrightarrow>
     has_suffix k ''.filename'' \<and> has_suffix (to_lower v) ''.vmdk'' \<and> match_string diskKey k \<and>
     vmx_True c (trim_suffix k ''.filename'' @ ''.present'') \<and>
     d = \<lparr>dr_Key = k, dr_File = v, dr_Controller = hd (split_on CHR '':'' (trim_suffix k ''.filename''))\<rparr>"
  by (auto simp: backing_entry_def Let_def)

text \<open>
  What a configuration that can be moved may say, setting by setting: it keeps its identity or leaves the choice open, is not encrypted and has
  no virtual TPM, shares no disk and no bus, has persistent disks only, no redo log, no change tracking that is on and no suspended state, no raw
  or passed-through device; and a file behind a device that is not a VMDK is a CD image, or the output of a serial or parallel port that is no
  plain file, or its device is not connected.
\<close>

definition movable :: "config \<Rightarrow> string \<Rightarrow> string \<Rightarrow> bool" where
  "movable c k v = (let low = to_lower v; device = trim_suffix k ''.filename''; connected = vmx_True c (device @ ''.present'') in
     (k = ''uuid.action'' \<longrightarrow> low \<in> {[], ''keep''}) \<and>
     (\<not> contains k ''encrypt'' \<and> \<not> contains k ''vtpm'' \<and> \<not> has_prefix k ''tpm.'' \<and> \<not> contains k ''keyid'') \<and>
     ((contains k ''sharing'' \<longrightarrow> low \<in> {[], ''none''}) \<and> \<not> contains low ''multi-writer'' \<and> (has_suffix k ''sharedbus'' \<longrightarrow> low = ''none'')) \<and>
     (has_suffix k ''.mode'' \<and> (\<exists>bus \<in> {''scsi'', ''sata'', ''ide'', ''nvme''}. has_prefix k bus) \<longrightarrow> low \<in> {[], ''persistent''}) \<and>
     (has_suffix k ''.redo'' \<longrightarrow> v = []) \<and>
     ((contains k ''ctk'' \<longrightarrow> low \<noteq> ''true'') \<and> (k = ''checkpoint.vmstate'' \<longrightarrow> v = [])) \<and>
     (has_suffix k ''.devicetype'' \<longrightarrow> \<not> contains low ''raw'' \<and> \<not> contains low ''passthru'') \<and>
     (has_prefix k ''pcipassthru'' \<and> has_suffix k ''.present'' \<longrightarrow> low \<noteq> ''true'') \<and>
     (has_suffix k ''.filename'' \<and> \<not> has_suffix low ''.vmdk'' \<and> \<not> has_suffix low ''.iso'' \<longrightarrow>
        (if has_prefix k ''serial'' \<or> has_prefix k ''parallel'' then \<not> equal_fold (lookup0 c (device @ ''.filetype'')) ''file'' else \<not> connected)))"

definition names_vmdk :: "string \<Rightarrow> string \<Rightarrow> bool" where
  "names_vmdk k v = (has_suffix k ''.filename'' \<and> has_suffix (to_lower v) ''.vmdk'')"

lemma setting_blocks_Nil:
  "setting_blocks k v = [] \<longleftrightarrow> (let low = to_lower v in
     (k = ''uuid.action'' \<longrightarrow> low \<in> {[], ''keep''}) \<and>
     (\<not> contains k ''encrypt'' \<and> \<not> contains k ''vtpm'' \<and> \<not> has_prefix k ''tpm.'' \<and> \<not> contains k ''keyid'') \<and>
     ((contains k ''sharing'' \<longrightarrow> low \<in> {[], ''none''}) \<and> \<not> contains low ''multi-writer'' \<and> (has_suffix k ''sharedbus'' \<longrightarrow> low = ''none'')) \<and>
     (has_suffix k ''.mode'' \<and> (\<exists>bus \<in> {''scsi'', ''sata'', ''ide'', ''nvme''}. has_prefix k bus) \<longrightarrow> low \<in> {[], ''persistent''}) \<and>
     (has_suffix k ''.redo'' \<longrightarrow> v = []) \<and>
     ((contains k ''ctk'' \<longrightarrow> low \<noteq> ''true'') \<and> (k = ''checkpoint.vmstate'' \<longrightarrow> v = [])) \<and>
     (has_suffix k ''.devicetype'' \<longrightarrow> \<not> contains low ''raw'' \<and> \<not> contains low ''passthru'') \<and>
     (has_prefix k ''pcipassthru'' \<and> has_suffix k ''.present'' \<longrightarrow> low \<noteq> ''true''))"
proof -
  have e: "(if b then [x] else []) = [] \<longleftrightarrow> \<not> b" for b and x :: string by simp
  show ?thesis
    unfolding setting_blocks_def Let_def append_is_Nil_conv e
    by (rule arg_cong2 [where f = conj], blast)+ blast
qed

lemma floppy_no_port: "has_prefix k ''floppy'' \<Longrightarrow> \<not> has_prefix k ''serial'' \<and> \<not> has_prefix k ''parallel''"
  by (cases k) auto

lemma backing_blocks_Nil:
  "Blocks (backing_entry c k v) = [] \<longleftrightarrow> (let low = to_lower v; device = trim_suffix k ''.filename''; connected = vmx_True c (device @ ''.present'') in
     has_suffix k ''.filename'' \<longrightarrow>
       (if has_suffix low ''.vmdk'' then match_string diskKey k \<and> connected
        else if has_suffix low ''.iso'' then True
        else if has_prefix k ''serial'' \<or> has_prefix k ''parallel'' then \<not> equal_fold (lookup0 c (device @ ''.filetype'')) ''file'' else \<not> connected))"
  using floppy_no_port [of k] by (auto simp: backing_entry_def backing_kind_def Let_def)

lemma entry_unblocked:
  "setting_blocks k v = [] \<and> Blocks (backing_entry c k v) = [] \<longleftrightarrow>
     movable c k v \<and> (names_vmdk k v \<longrightarrow> match_string diskKey k \<and> vmx_True c (trim_suffix k ''.filename'' @ ''.present''))"
  unfolding setting_blocks_Nil backing_blocks_Nil movable_def names_vmdk_def Let_def by auto

lemma vmdk_listed:
  assumes "(k, v) \<in> set c"
  shows "names_vmdk k v \<and> match_string diskKey k \<and> vmx_True c (trim_suffix k ''.filename'' @ ''.present'') \<longleftrightarrow>
    names_vmdk k v \<and> (\<exists>d \<in> set (Disks (vmx_Analyze c)). dr_Key d = k \<and> dr_File d = v)"
proof
  assume a: "names_vmdk k v \<and> match_string diskKey k \<and> vmx_True c (trim_suffix k ''.filename'' @ ''.present'')"
  then obtain d where d: "d \<in> set (Disks (backing_entry c k v))" "dr_Key d = k" "dr_File d = v"
    by (simp add: Disks_backing_entry names_vmdk_def)
  with assms have "d \<in> set (Disks (vmx_Analyze c))" by (auto simp: set_Disks_Analyze)
  with a d show "names_vmdk k v \<and> (\<exists>d \<in> set (Disks (vmx_Analyze c)). dr_Key d = k \<and> dr_File d = v)" by blast
next
  assume a: "names_vmdk k v \<and> (\<exists>d \<in> set (Disks (vmx_Analyze c)). dr_Key d = k \<and> dr_File d = v)"
  then obtain k' v' d where "d \<in> set (Disks (backing_entry c k' v'))" "dr_Key d = k"
    by (auto simp: set_Disks_Analyze)
  with a show "names_vmdk k v \<and> match_string diskKey k \<and> vmx_True c (trim_suffix k ''.filename'' @ ''.present'')"
    by (auto simp: Disks_backing_entry)
qed

lemma disk_is_entry:
  assumes "d \<in> set (Disks (vmx_Analyze c))"
  shows "(dr_Key d, dr_File d) \<in> set c \<and> match_string diskKey (dr_Key d) \<and> vmx_True c (trim_suffix (dr_Key d) ''.filename'' @ ''.present'')"
  using assms by (auto simp: set_Disks_Analyze Disks_backing_entry)

section \<open>What a rewrite does\<close>

lemma replace_key_Inr: "replace_key (k, v) out = Inr out' \<Longrightarrow>
    map_of out' = (map_of out)(k \<mapsto> v) \<and> set (keys out') = set (keys out) \<and> (wf_map out \<longrightarrow> wf_map out') \<and> has_key out k"
  by (auto simp: replace_key_def has_key_iff split: if_splits)

lemma fold_replace_key:
  assumes "fold_result replace_key rs out = Inr out'" and "distinct (map fst rs)"
  shows "map_of out' = map_of out ++ map_of rs \<and> set (keys out') = set (keys out) \<and>
    (wf_map out \<longrightarrow> wf_map out') \<and> fst ` set rs \<subseteq> set (keys out)"
  using assms
proof (induction rs arbitrary: out)
  case (Cons r rs)
  obtain k v where r: "r = (k, v)" by (cases r)
  from Cons.prems r obtain t where t: "replace_key (k, v) out = Inr t" "fold_result replace_key rs t = Inr out'"
    by auto
  from Cons.prems r have kf: "k \<notin> fst ` set rs" "distinct (map fst rs)" by auto
  have "map_of rs k = None" using kf(1) by (simp add: map_of_eq_None_iff)
  with Cons.IH [OF t(2) kf(2)] replace_key_Inr [OF t(1)] show ?case
    by (auto simp: r has_key_iff fun_eq_iff map_add_def split: option.splits)
qed simp

lemma fold_replace_key_Inl:
  "fold_result replace_key rs out = Inl e \<Longrightarrow> \<exists>k \<in> fst ` set rs. \<not> has_key out k"
proof (induction rs arbitrary: out)
  case (Cons r rs)
  show ?case
  proof (cases "has_key out (fst r)")
    case True
    then have "replace_key r out = Inr (put out (fst r) (snd r))" by (simp add: replace_key_def)
    with Cons.prems have "fold_result replace_key rs (put out (fst r) (snd r)) = Inl e" by simp
    from Cons.IH [OF this] True show ?thesis by (auto simp: has_key_iff)
  qed auto
qed simp

lemma map_of_filter_keys: "map_of (filter (\<lambda>(k, _). P k) m) = (\<lambda>k. if P k then map_of m k else None)"
  by (induction m) auto

lemma keys_filter: "keys (filter (\<lambda>(k, _). P k) m) = filter P (keys m)"
  by (induction m) (auto simp: keys_def)

lemma set_keys_eq_dom: "set (keys m) = dom (map_of m)"
  by (simp add: keys_def dom_map_of_conv_image_fst)

lemma wf_vmx_Clone: "wf_map (vmx_Clone c)"
proof -
  have "wf_map acc \<Longrightarrow> wf_map (fold (\<lambda>(k, v) out. put out k v) c acc)" for acc :: config
    by (induction c arbitrary: acc) auto
  then show ?thesis by (simp add: vmx_Clone_def)
qed

lemma vmx_Rewrite_Inr:
  assumes "vmx_Rewrite c rs = Inr c'" and "wf_map c" and "wf_map rs"
  shows "map_of c' k = (if k \<in> set runtime_keys then None
            else case map_of rs k of Some v \<Rightarrow> Some v | None \<Rightarrow> map_of c k)"
    and "wf_map c'" and "set (keys rs) \<subseteq> set (keys c)"
proof -
  from assms(1) obtain out where out: "fold_result replace_key rs (vmx_Clone c) = Inr out"
    and c': "c' = filter (\<lambda>(k, _). k \<notin> set runtime_keys) out"
    by (auto simp: vmx_Rewrite_def)
  have cl: "map_of (vmx_Clone c) = map_of c" "wf_map (vmx_Clone c)"
    using assms(2) by (simp_all add: map_of_Clone wf_vmx_Clone)
  from fold_replace_key [OF out] assms(3) cl have f: "map_of out = map_of c ++ map_of rs"
    "wf_map out" "fst ` set rs \<subseteq> set (keys (vmx_Clone c))"
    by (auto simp: wf_map_def keys_def)
  show "map_of c' k = (if k \<in> set runtime_keys then None
            else case map_of rs k of Some v \<Rightarrow> Some v | None \<Rightarrow> map_of c k)"
    using f(1) by (simp add: c' map_of_filter_keys map_add_def split: option.split)
  show "wf_map c'" using f(2) by (simp add: c' wf_map_def keys_filter)
  show "set (keys rs) \<subseteq> set (keys c)" using f(3) cl(1) by (simp add: set_keys_eq_dom dom_map_of_conv_image_fst)
qed

section \<open>Properties\<close>

text \<open>
  C30: the analysis does not depend on the order in which Go visits the configuration's map: two
  enumerations of one configuration give the same disks, references, blocks and controllers, in the same order.
\<close>

theorem analysis_order_independent:
  assumes "wf_map c" and "mset c = mset c'"
  shows "vmx_Analyze c = vmx_Analyze c'"
  using assms by (rule vmx_Analyze_perm)

theorem analysis_order_independent_witness:
  "vmx_Analyze [(''memsize'', ''12''), (''floppy0.filename'', ''a.flp'')] = vmx_Analyze [(''floppy0.filename'', ''a.flp''), (''memsize'', ''12'')]"
  by (rule analysis_order_independent) (simp_all add: wf_map_def keys_def)

text \<open>
  C31: a configuration is not blocked exactly when it has a disk, all its settings can be moved, and every entry that names a VMDK is a
  disk of the analysis, with its file: no disk is hidden and no obstacle passes. The disks that are listed are entries of the configuration, of
  SCSI, SATA, IDE or NVMe devices that are connected.
\<close>

theorem unblocked_disks_complete:
  "(Blocks (vmx_Analyze c) = [] \<longleftrightarrow> Disks (vmx_Analyze c) \<noteq> [] \<and>
      (\<forall>(k, v) \<in> set c. movable c k v \<and> (names_vmdk k v \<longrightarrow> (\<exists>d \<in> set (Disks (vmx_Analyze c)). dr_Key d = k \<and> dr_File d = v)))) \<and>
   (\<forall>d \<in> set (Disks (vmx_Analyze c)). (dr_Key d, dr_File d) \<in> set c \<and> match_string diskKey (dr_Key d) \<and>
      vmx_True c (trim_suffix (dr_Key d) ''.filename'' @ ''.present''))"
proof -
  have "(setting_blocks k v = [] \<and> Blocks (backing_entry c k v) = []) =
      (movable c k v \<and> (names_vmdk k v \<longrightarrow> (\<exists>d \<in> set (Disks (vmx_Analyze c)). dr_Key d = k \<and> dr_File d = v)))" if "(k, v) \<in> set c" for k v
    unfolding entry_unblocked using vmdk_listed [OF that] by blast
  then show ?thesis unfolding set_Blocks_Analyze using disk_is_entry by blast
qed

definition one_disk :: config where
  "one_disk = [(''scsi0:0.present'', ''TRUE''), (''scsi0:0.filename'', ''web.vmdk'')]"

theorem unblocked_disks_complete_witness:
  "(\<exists>d \<in> set (Disks (vmx_Analyze one_disk)). dr_Key d = ''scsi0:0.filename'' \<and> dr_File d = ''web.vmdk'') \<and>
   Blocks (vmx_Analyze ((''uuid.action'', ''create'') # one_disk)) \<noteq> []"
proof
  have b: "Blocks (vmx_Analyze one_disk) = []" by code_simp
  have m: "(''scsi0:0.filename'', ''web.vmdk'') \<in> set one_disk" by (simp add: one_disk_def)
  have s: "names_vmdk ''scsi0:0.filename'' ''web.vmdk''" by code_simp
  from b m s show "\<exists>d \<in> set (Disks (vmx_Analyze one_disk)). dr_Key d = ''scsi0:0.filename'' \<and> dr_File d = ''web.vmdk''"
    using unblocked_disks_complete [of one_disk] by fast
  have "\<not> movable c ''uuid.action'' ''create''" for c
  proof -
    have "to_lower ''create'' \<notin> {[], ''keep''}" by code_simp
    then show ?thesis by (simp add: movable_def Let_def)
  qed
  then show "Blocks (vmx_Analyze ((''uuid.action'', ''create'') # one_disk)) \<noteq> []"
    using unblocked_disks_complete [of "(''uuid.action'', ''create'') # one_disk"] by auto
qed

text \<open>
  C32: \<open>Rewrite\<close> changes what it was asked to change and nothing else: every replaced key has its new
  value, the keys of generated runtime paths are gone, every other key keeps its value, and a replacement
  of a key the configuration does not have is refused.
\<close>

theorem rewrite_exact:
  assumes "wf_map c" and "wf_map rs"
  shows "(case vmx_Rewrite c rs of
      Inr c' \<Rightarrow> set (keys rs) \<subseteq> set (keys c) \<and> wf_map c' \<and>
        map_of c' = (\<lambda>k. if k \<in> set runtime_keys then None else case map_of rs k of Some v \<Rightarrow> Some v | None \<Rightarrow> map_of c k)
    | Inl e \<Rightarrow> \<not> set (keys rs) \<subseteq> set (keys c))"
proof (cases "vmx_Rewrite c rs")
  case (Inr c')
  with vmx_Rewrite_Inr [OF Inr assms] show ?thesis by auto
next
  case (Inl e)
  then have "fold_result replace_key rs (vmx_Clone c) = Inl e"
    by (cases "fold_result replace_key rs (vmx_Clone c)") (simp_all add: vmx_Rewrite_def)
  then obtain k where "k \<in> fst ` set rs" "\<not> has_key (vmx_Clone c) k"
    using fold_replace_key_Inl by blast
  with assms(1) have "k \<in> set (keys rs)" "k \<notin> set (keys c)"
    by (simp add: keys_def, simp add: set_keys_eq_dom has_key_def map_of_Clone domIff)
  with Inl show ?thesis by auto
qed

theorem rewrite_exact_witness:
  "case vmx_Rewrite one_disk [(''scsi0:0.filename'', ''new.vmdk'')] of
     Inr c' \<Rightarrow> map_of c' ''scsi0:0.filename'' = Some ''new.vmdk'' | Inl e \<Rightarrow> False"
proof -
  have "wf_map one_disk" "wf_map [(''scsi0:0.filename'', ''new.vmdk'')]" by (simp_all add: wf_map_def keys_def one_disk_def)
  from rewrite_exact [OF this] show ?thesis
    by (auto simp: keys_def one_disk_def runtime_keys_def split: sum.splits)
qed

end
