(* ===== verification/Advice.thy ===== *)
theory Advice
  imports Migration_Types Shell Vmx_Analyzer
begin

text \<open>
  \<open>internal/migration/advice.go\<close>: what a blocking check tells the operator, with
  \<open>check\<close> of \<open>types.go\<close> and \<open>freeName\<close> of \<open>external.go\<close>, which the advice uses. The lemmas
  show that a name the advice or the analysis offers is free, and that advice never relaxes a check.
\<close>

section \<open>Steps\<close>

definition say :: "string \<Rightarrow> Step" where
  "say t = \<lparr>stp_Text = t, stp_Command = []\<rparr>"

definition command :: "string \<Rightarrow> string \<Rightarrow> Step" where
  "command t c = \<lparr>stp_Text = t, stp_Command = c\<rparr>"

definition again :: Step where
  "again = say ''Analyze again.''"

definition advise :: "string \<Rightarrow> string \<Rightarrow> Step list \<Rightarrow> advice" where
  "advise t w s = \<lparr>ad_title = t, ad_why = w, ad_steps = s\<rparr>"

section \<open>Blocking checks\<close>

definition vmxAdvice :: "Report \<Rightarrow> string \<Rightarrow> advice" where
  "vmxAdvice r detail =
    (if contains detail ''ctk'' then
       advise (''Changed Block Tracking is on'')
       (''The tracking files describe changes on the old disks. On the copy they would no longer match, and the next incremental backup could silently miss data.'')
       [command (''Backup software usually turns it on. See where it is set.'') (''grep -i ctk ''@Quote (rp_SourceVMX r)),
        say (''Shut the VM down from the guest.''),
        say ((''In Edit settings '' @ [CHR 0xE2, CHR 0x80, CHR 0xBA] @ '' VM options '' @ [CHR 0xE2, CHR 0x80, CHR 0xBA] @ '' Advanced '' @ [CHR 0xE2, CHR 0x80, CHR 0xBA] @ '' Configuration parameters, set ctkEnabled and every scsiX:Y.ctkEnabled to FALSE.'')),
        again,
        say (''Your backup turns it back on at its next run.'')]
     else if contains detail ''checkpoint.vmstate'' then
       advise (''The VM has saved suspend state'')
       (''Its running state lives in files this tool does not copy. The copy would start from its disks alone and the suspended session would be lost.'')
       [say (''Power the VM on so it resumes from that state.''),
        say (''Shut it down from the guest operating system.''),
        again]
     else if has_prefix detail ''VMX forces an identity change'' then
       advise (''The VMX forces a new identity'')
       (''ESXi would give the copy a new UUID, and licensing, backup and monitoring would treat it as a different machine.'')
       [say (''With the VM off, remove the uuid.action line or set it to keep. The tool sets the right value on the target itself.''),
        again]
     else if has_prefix detail ''Encryption or vTPM'' then
       advise (''Encrypted VM or vTPM'')
       (''The keys belong to a key provider this tool cannot reach. The copied files could not be opened, and the VM would not start.'')
       [say (''Move this VM with vCenter.'')]
     else if has_prefix detail ''Shared or multi-writer'' then
       advise (''Shared or multi-writer disk'')
       (''Other cluster members keep writing to the disk. A copy would catch it mid-change, and the cluster would split between two disks.'')
       [say (''Move the cluster with vCenter, or remove the sharing if nothing uses it.'')]
     else if has_prefix detail ''Only ordinary persistent'' then
       advise (''Independent or non-persistent disk'')
       (''Non-persistent disks drop their changes at power-off, and independent disks are left out of the snapshot a live migration relies on.'')
       [say (''With the VM off, set the disk mode to Dependent in Edit settings.''),
        again]
     else if has_prefix detail ''Redo disk'' then
       advise (''Old redo log reference'')
       (''A redo log can hold changes that are not in the disk yet. Leaving it behind would lose them.'')
       [say (''With the VM off, check that the redo file is unused and remove that line from the VMX.''),
        again]
     else if has_prefix detail ''Raw or passthrough'' \<or> has_prefix detail ''PCI passthrough'' then
       advise (''RDM or passthrough device'')
       (''An RDM only maps a physical LUN, so copying it copies no data. Passthrough hardware exists only on this host.'')
       [say (''Remove the device now and add it again on the target, or move the VM with vCenter.''),
        again]
     else if has_prefix detail ''Unrecognized or inactive VMDK'' then
       advise (''Leftover disk entry'')
       (''The VMX names a disk that is not attached. This tool cannot tell whether the VM still needs its data.'')
       [say (''With the VM off, remove the leftover lines for that device.''),
        again]
     else if has_prefix detail ''Writable serial/parallel'' then
       advise (''Serial or parallel port writes to a file'')
       (''The copy would keep writing into a file in the source folder.'')
       [say (''Remove the port in Edit settings or give it another backing.''),
        again]
     else if has_prefix detail ''Connected floppy'' then
       advise (''Floppy drive connected'')
       (''The floppy image would stay on the source, and the copy would still depend on it.'')
       [say (''Remove or disconnect the floppy drive in Edit settings.''),
        again]
     else if has_prefix detail ''Unrecognized active device'' then
       advise (''Unknown device backing'')
       (''A connected device uses a file this tool does not know, so it cannot tell whether that file has to move with the VM.'')
       [say (''Disconnect or remove it in Edit settings.''),
        again]
     else if has_prefix detail ''No supported active VMDK'' then
       advise (''No disk attached'')
       (''Without an ordinary VMDK disk there is nothing to move.'')
       [say ((''Attach the VM'' @ [sq] @ ''s disk, or move it another way.''))]
     else no_advice)"

definition blockAdvice :: "Report \<Rightarrow> string \<Rightarrow> string \<Rightarrow> advice" where
  "blockAdvice r name detail =
    (if name = ''ESXi version'' then
       advise (''Unsupported ESXi version'')
       ((''This tool reads the host'' @ [sq] @ ''s command output to decide what is safe. On a version it was not built for, a misread answer could lead to a wrong decision in the middle of a migration.''))
       [command (''Check the version the host reports.'') (''vmware -vl''),
        say (''Only ESXi 6.5, 6.7, 7.x and 8.x are supported. Move this VM with vCenter or an export and import instead.'')]
     else if name = ''Existing operation'' then
       advise (''Another migration holds the host lock'')
       (''Two migrations at once could work on the same VM or folder. A migration that failed keeps the lock on purpose, because it may have left the source unregistered or a half-written target that someone has to look at.'')
       [say (''If a migration is running, wait for it to finish.''),
        say (''If one ended failed or uncertain, open it and resolve it first, and check its target folder.''),
        command (''Only when no migration is running, archive the lock. A host reboot also clears it.'') (''mv /tmp/esxi-mover/active /tmp/esxi-mover/reviewed-$(date +%s)''),
        again]
     else if name = ''Target datastore'' \<or> name = ''Source datastore'' then
       (if contains detail ''VMFS'' then advise (''Unsupported datastore'')
       (''The copy relies on VMFS locking and vmkfstools. On other datastore types this tool cannot guarantee that the copy is complete and that nothing else writes to it.'')
       [say (''Only mounted VMFS-5 and VMFS-6 datastores are supported, not vSAN, NFS or vVols. The type is shown in the host client under Storage.''),
        say (''Choose another target datastore, or move this VM with vCenter.'')]
     else no_advice)
     else if name = ''Power state'' then
       advise (''The VM is suspended'')
       (''Its running state lives in files this tool does not copy. The copy would start from its disks alone and the suspended session would be lost.'')
       [say (''Power the VM on. It resumes from the saved state.''),
        say (''Shut it down from the guest operating system.''),
        again]
     else if name = ''Mover appliance'' then
       advise (''This is the ESXi Mover appliance'')
       (''A migration shuts the VM down. The appliance would switch itself off halfway through its own migration.'')
       [say (''Move it with the host client, or run a second appliance on another host.'')]
     else if name = ''Snapshot Manager'' then
       advise (''The VM has snapshots'')
       (''With a snapshot, everything written since it was taken lives in separate delta files. Copying the base disks would silently lose that data.'')
       [command (''See the snapshot tree.'') (''vim-cmd vmsvc/get.snapshotinfo ''@itoa (vm_ID (rp_VM r))),
        say (''If a backup is running, wait for it to finish; it deletes its own snapshot.''),
        say (''Otherwise open Snapshots in the host client and choose Delete all, which merges them into the disks. If the list is empty, choose Consolidate.''),
        again]
     else if name = ''VMSD metadata'' then
       advise (''Stale snapshot metadata'')
       (''The snapshot list names snapshots that ESXi does not report. This tool cannot tell whether one still exists, and if it does, its data would be missing from the copy.'')
       [command (''See what the .vmsd file in the VM folder still names.'') (''cat ''@Quote (rp_SourceDir r)@''/*.vmsd''),
        say (''Make sure Snapshots in the host client is empty, then choose Consolidate.''),
        say (''If entries remain, ESXi rewrites the file at the next snapshot operation, such as the next backup run.''),
        again]
     else if name = ''Active snapshot chain'' then
       advise (''The VM runs on a snapshot'')
       (''Its current data is spread across a chain of files. Copying only part of the chain would silently lose everything written since the snapshot.'')
       [say (''Open Snapshots in the host client and choose Delete all or Consolidate.''),
        again]
     else if name = ''Disks from other folders'' then
       advise (''A renamed disk needs the VM off'')
       (''While the VM runs, it writes into a snapshot delta next to each disk. That delta finds its disk by name, so a disk that gets a new name in the target folder would lose its changes.'')
       [say (''Turn off Keep the VM running during the copy, so the VM is shut down before the copy starts.''),
        say (''Or rename the disk on the source first, with the VM off, so that nothing in the source folder has its name.''),
        again]
     else if name = ''Configuration files'' then
       advise (''Unexpected NVRAM or VMXF file'')
       ((''NVRAM holds the firmware settings, including the boot order. With the wrong file the copy may not boot, or boot with another VM'' @ [sq] @ ''s settings.''))
       [command (''Check the nvram and extendedConfigFile lines.'') ((''grep -i -E '' @ [sq] @ ''^(nvram|extendedconfigfile)'' @ [sq] @ '' '')@Quote (rp_SourceVMX r)),
        say (''With the VM off, a missing NVRAM line can be removed; ESXi creates a fresh file at the next power-on.''),
        again]
     else if name = ''VMXF metadata'' then
       advise (''The VMXF file belongs to another VM'')
       ((''The copy would carry another VM'' @ [sq] @ ''s metadata and could be mistaken for it.''))
       [say (''With the VM off, remove the extendedConfigFile line from the VMX. ESXi writes a new .vmxf when it needs one.''),
        again]
     else if name = ''Shared VMDK'' \<or> name = ''Shared extent'' \<or> name = ''Shared disk inventory'' then
       advise (''A disk is shared'')
       (''Another device or VM uses the same disk. After a move one of them would point at a disk that is gone, or both would write to different copies and the data would split.'')
       [say (''Find which VMs use it in the host client, detach the shared disk from one of them, or move them together with vCenter.''),
        again]
     else if name = ''Target filename'' then
       advise (''Two disks would get the same name'')
       ((''In the target folder one disk would take the other'' @ [sq] @ ''s place, and the VM would start with the wrong disk.''))
       [say (''With the VM off, rename one of them with vmkfstools -E and update the VMX.''),
        again]
     else if name = ''VMDK descriptor'' \<or> name = ''VMDK format'' \<or> name = ''Disk extent'' \<or> name = ''Source disk chain'' then
       advise (''Unsupported disk'')
       (''This tool only copies disk layouts it fully understands. Anything else could produce a copy that looks fine but is incomplete.'')
       [say (''Only ordinary thick or thin VMFS disks with one data file are supported. With the VM off, check the disk with vmkfstools -e.''),
        say (''Convert an unusual disk with vmkfstools -i into a thin VMFS disk, then attach the copy.''),
        again]
     else if name = ''Disks'' then
       advise (''No disk can be copied'')
       (''Without a disk there is no VM to move.'')
       [say (''The other blocks name the disks that were rejected. Clear those first.'')]
     else if name = ''ISO reference'' then
       advise (''CD/DVD points to an unreadable ISO'')
       (''The copy would point at a path that cannot be resolved, and ESXi would refuse to power it on.'')
       [say (''Disconnect the CD/DVD drive or set it to Host device in Edit settings.''),
        again]
     else if name = ''External configuration reference'' then
       advise (''The VMX points outside the VM folder'')
       (''The line ''@trim_prefix detail ''Unclassified datastore path in ''@'' names a file this tool cannot rewrite, so the copy could keep writing into the source folder.'')
       [say (''With the VM off, remove that line or point it into the VM folder.''),
        again]
     else if name = ''Free space'' then
       advise (''Not enough space on the target'')
       (''A copy that runs out of space fails halfway, and a full datastore also stops every VM running on it.'')
       [say (''Free up space on the target datastore or choose a larger one.''),
        again]
     else if name = ''Source free space'' then
       advise (''Not enough space on the source'')
       (''While the VM keeps running, its changes go into a snapshot on the source. If that datastore fills up, ESXi pauses the VM and every other VM on it.'')
       [say (''Free up at least 1 GiB on the source datastore, or turn off shutting down at the end and migrate with the VM off.''),
        again]
     else if name = ''VM configuration'' then
       vmxAdvice r detail
     else no_advice)"

text \<open>\<open>check\<close>: a blocking row carries its advice.\<close>

definition check :: "string \<Rightarrow> status \<Rightarrow> string \<Rightarrow> Report \<Rightarrow> Report" where
  "check name st detail r =
     advised name st detail (if st = StatusBlock then blockAdvice r name detail else no_advice) r"

definition toolsAdvice :: "bool \<Rightarrow> advice" where
  "toolsAdvice live =
     (let when = (if live then ''after the copy, at the end'' else ''before anything is copied'');
          meanwhile = (if live
            then (''Until then the VM keeps running on the migration'' @ [sq] @ ''s own snapshot; Stop merges it back and leaves the VM running.'')
            else ''Nothing is copied or changed until the VM is off.'')
      in advise ''The VM cannot be shut down automatically''
       (''A graceful shutdown goes through VMware Tools in the guest. Without it the migration pauses '' @ when @
        '' and waits for you. '' @ meanwhile)
       [say ''Install or start VMware Tools in the guest and analyze again, or plan to shut the guest down yourself when the migration asks.'',
        say ''When it waits, shut the guest down from its own console and choose I shut the VM down manually. Force Power Off is like pulling the plug and can lose data the guest had not written yet.''])"

section \<open>A free name\<close>

text \<open>
  \<open>freeName\<close>: the loop over \<open>name.vmdk\<close>, \<open>name_1.vmdk\<close>, \<dots> until a candidate and its
  flat extent are unused. A used name excludes at most two candidates, so among the first
  \<open>2 n + 1\<close> of them one is free; the lemma below shows that the search never fails.
\<close>

definition taken_name :: "string list \<Rightarrow> string \<Rightarrow> bool" where
  "taken_name used n = list_ex (\<lambda>k. equal_fold k n) used"

definition flat_name :: "string \<Rightarrow> string" where
  "flat_name c = trim_suffix c ''.vmdk'' @ ''-flat.vmdk''"

definition candidate :: "string \<Rightarrow> nat \<Rightarrow> string" where
  "candidate stem i = (if i = 0 then stem @ ''.vmdk'' else stem @ ''_'' @ nat_digits i @ ''.vmdk'')"

definition unusable :: "string list \<Rightarrow> string \<Rightarrow> bool" where
  "unusable used c = (taken_name used c \<or> taken_name used (flat_name c))"

definition freeName :: "string \<Rightarrow> string list \<Rightarrow> string" where
  "freeName name used =
     (let stem = trim_suffix name (path_ext name) in
      case find (\<lambda>i. \<not> unusable used (candidate stem i)) [0..<2 * length used + 1] of
        Some i \<Rightarrow> candidate stem i
      | None \<Rightarrow> [])"

section \<open>Disks elsewhere and leftover files\<close>

definition diskLocationAdvice :: "Report \<Rightarrow> DiskRef \<Rightarrow> err \<Rightarrow> Datastore list \<Rightarrow> string list \<Rightarrow> string \<times> advice" where
  "diskLocationAdvice r ref reason ds files =
     (let device = trim_suffix (dr_Key ref) ''.filename''; detail = device @ '' uses '' @ dr_File ref;
          unfound = (detail @ '': '' @ err_text reason, advise ''A disk cannot be found''
            ''The VMX names a disk this tool cannot open, so it cannot tell what the copy would be missing.''
            [say (''Open Edit settings and check the disk on '' @ device @ ''. The file may have been deleted, or its datastore renamed or unmounted.''),
             say ''Remove the entry if the disk is no longer needed, or point it at the right file.'',
             again])
      in (case ResolveReference (dr_File ref) (rp_SourceDir r) ds of
        Inl _ \<Rightarrow> unfound
      | Inr full \<Rightarrow>
          if path_dir full = rp_SourceDir r then unfound
          else
           (let inside = has_prefix full (path_dir (rp_SourceDir r) @ [slash]);
                title = (if inside then ''A disk lies in a subfolder'' else ''A disk lies on another datastore'');
                place = (if inside then ''a subfolder of the VM folder''
                  else case DatastoreOf full ds of Some d \<Rightarrow> ''datastore '' @ ds_Name d | None \<Rightarrow> ''another datastore'');
                name = freeName (path_base full) (map path_base files)
            in if rq_BringDisks (rp_Request r)
               then (detail @ '' on '' @ place @ '': '' @ err_text reason, advise title
                 ''Include disks outside the VM folder is on, but this disk cannot be brought along, so the copy would still point at the original.''
                 [say ''Move the disk to a mounted VMFS-5 or VMFS-6 datastore, or detach it before the migration and attach it again afterwards.'',
                  again])
               else (detail @ '' on '' @ place, advise title
                 ''This tool copies the VM folder only. The disk would stay behind and the copy would still point at it, so two VMs could end up writing to the same disk.''
                 [say ''Choose one of the ways below. All of them need the VM shut down.'',
                  say ''Let this tool copy it: turn on Include disks outside the VM folder (experimental) and analyze again. The disk is copied into the target folder and the original stays where it is.'',
                  say (''To keep the disk where it is: in Edit settings remove the disk on '' @ device @ '' without deleting it from the datastore, and migrate without starting the VM. Then add it back to the migrated VM as an existing hard disk on '' @ device @ '' and start it.''),
                  command ''To bring the disk along: copy it into the VM folder. The source datastore needs room for it.''
                    (''vmkfstools -i '' @ Quote full @ '' '' @ Quote (path_join [rp_SourceDir r, name]) @ '' -d thin''),
                  say (''Then in Edit settings remove the old disk on '' @ device @ '' without deleting it, add '' @ name @ '' as an existing hard disk on '' @ device @ '', and check that the VM starts. Delete the old disk only after the migrated VM is verified.''),
                  again]))))"

definition quarantine_steps :: "string \<Rightarrow> string list \<Rightarrow> Step list" where
  "quarantine_steps dir names =
     (let quarantine = path_join [path_dir dir, ''_quarantine'', path_base dir] in
      [command ''In a maintenance window, move it out of its folder. On the same datastore a move is only a rename and can be undone.''
         (''mkdir -p '' @ Quote quarantine @ '' && mv '' @ Argv (map (\<lambda>n. path_join [dir, n]) names @ [quarantine @ [slash]])),
       again,
       say ''Delete the quarantine folder only after the migrated VM is verified.''])"

definition lock_step :: "string \<Rightarrow> Step" where
  "lock_step full = command ''Confirm no process holds it. The output, or the end of /var/log/vmkernel.log, must show mode 0.''
     (''vmkfstools -D '' @ Quote full)"

definition suspend_advice :: "Report \<Rightarrow> string \<Rightarrow> string \<Rightarrow> string list \<Rightarrow> string \<times> advice" where
  "suspend_advice r dir name files =
     (let detail = name @ '' holds the saved state of a suspended VM'';
          why = ''If the VM still resumes from this file, the copy would lose its running state. If nothing uses it, it is harmless. The file alone does not show which, so this tool does not guess.'';
          vmem = trim_suffix name (path_ext name) @ ''.vmem''
      in if rp_Power r = Suspended \<or> trim_space (lookup0 (rp_Config r) ''checkpoint.vmstate'') \<noteq> []
         then (detail, advise ''The VM has saved suspend state'' why
           [say ''The VM is suspended or its VMX points at this state, so the file is in use.'',
            say ''Power the VM on so it resumes, then shut it down from the guest operating system.'',
            again])
         else (detail, advise ''Leftover suspend file'' why
           ([say (''Already checked: the VM is '' @ to_lower (rp_Power r) @ '' and its VMX points at no saved state. ESXi often leaves this file behind after a resume.''),
             lock_step (path_join [dir, name])] @
            quarantine_steps dir (name # map (\<lambda>_. vmem) (filter (\<lambda>f. path_base f = vmem) files)))))"

definition artifactAdvice :: "Report \<Rightarrow> string \<Rightarrow> string \<Rightarrow> string list \<Rightarrow> string \<times> advice" where
  "artifactAdvice r dir name files =
     (if has_suffix (to_lower name) ''.vmss'' then suspend_advice r dir name files
      else
       (let state_file = has_suffix (to_lower name) ''.vmsn'';
            title = (if state_file then ''Leftover snapshot state file'' else ''Leftover snapshot disk'');
            what = (if state_file then ''a snapshot state file; backup software that fails to delete its snapshot often leaves one''
              else ''a snapshot delta disk'');
            look = Quote (rp_SourceDir r) @ ''/*.vmx '' @ Quote (rp_SourceDir r) @ ''/*.vmsd'' @
              (if dir \<noteq> rp_SourceDir r then '' '' @ Quote dir @ ''/*.vmx '' @ Quote dir @ ''/*.vmsd'' else [])
        in (name @ '' is '' @ what, advise title
          ''If it still belongs to a snapshot ESXi lost track of, the data in it would be missing from the copy, without any error. The file alone does not show which, so this tool does not guess.''
          ([say ''Already checked: the active VMX does not use it and Snapshot Manager lists no snapshot.'',
            command ''Confirm nothing references it. This must print nothing.'' (''grep -l '' @ Quote name @ '' '' @ look @ '' 2>/dev/null''),
            lock_step (path_join [dir, name]),
            say ''If unsure, choose Consolidate under Snapshots in the host client instead.''] @
           quarantine_steps dir [name]))))"

section \<open>Advice never relaxes a check\<close>

lemma check_ready [simp]: "rp_Ready (check n st d r) = (rp_Ready r \<and> st \<noteq> StatusBlock)"
  by (simp add: check_def advised_ready)

lemma check_ready_iff: "ready_iff r \<Longrightarrow> ready_iff (check n st d r)"
  by (simp add: check_def advised_ready_iff)

lemma check_other [simp]:
  "rp_ID (check n s d r) = rp_ID r" "rp_Request (check n s d r) = rp_Request r" "rp_VM (check n s d r) = rp_VM r"
  "rp_SourceVMX (check n s d r) = rp_SourceVMX r" "rp_SourceDir (check n s d r) = rp_SourceDir r"
  "rp_TargetDir (check n s d r) = rp_TargetDir r" "rp_TargetVMX (check n s d r) = rp_TargetVMX r"
  "rp_Disks (check n s d r) = rp_Disks r" "rp_Power (check n s d r) = rp_Power r"
  "rp_Required (check n s d r) = rp_Required r" "rp_TargetFree (check n s d r) = rp_TargetFree r"
  "rp_ConfigFiles (check n s d r) = rp_ConfigFiles r" "rp_Config (check n s d r) = rp_Config r"
  "rp_TargetConfig (check n s d r) = rp_TargetConfig r" "rp_Fingerprint (check n s d r) = rp_Fingerprint r"
  by (simp_all add: check_def)

section \<open>The offered name is free\<close>

lemma fold_case_append: "is_ascii t \<Longrightarrow> fold_case (s @ t) = fold_case s @ map lower_byte t"
proof (induction s rule: fold_case.induct)
  case (2 c cs)
  show ?case
  proof (cases cs)
    case Nil
    have "fold_case (c # t) = lower_byte c # fold_case t"
      using "2.prems" by (cases t; cases "tl t") (auto split: list.splits)
    with Nil "2.prems" show ?thesis by (simp add: fold_case_ascii del: fold_case.simps(2)) simp
  next
    case (Cons d ds)
    show ?thesis
    proof (cases ds)
      case Nil
      have "fold_case (c # d # t) = (if byte c = 0xC5 \<and> byte d = 0xBF then CHR ''s'' # fold_case t else lower_byte c # fold_case (d # t))"
        using "2.prems" by (cases t) auto
      with Nil Cons 2 show ?thesis by (auto simp: fold_case_ascii)
    next
      case (Cons e es)
      with \<open>cs = d # ds\<close> 2 show ?thesis by auto
    qed
  qed
qed (simp add: fold_case_ascii)

definition index_name :: "nat \<Rightarrow> string" where
  "index_name i = (if i = 0 then [] else ''_'' @ nat_digits i)"

lemma candidate_index: "candidate stem i = stem @ index_name i @ ''.vmdk''"
  by (simp add: candidate_def index_name_def)

lemma trim_suffix_append [simp]: "trim_suffix (s @ t) t = s"
  by (simp add: trim_suffix_def has_suffix_iff)

lemma flat_candidate: "flat_name (candidate stem i) = stem @ index_name i @ ''-flat.vmdk''"
  using trim_suffix_append [of "stem @ index_name i" "''.vmdk''"] by (simp add: flat_name_def candidate_index)

lemma digits_ascii: "is_ascii (nat_digits i)" and digits_lower: "map lower_byte (nat_digits i) = nat_digits i"
proof -
  have d: "is_digit c \<Longrightarrow> byte c < 128 \<and> lower_byte c = c" for c
    by (auto simp: is_digit_def between_def is_upper_def lower_byte_def)
  show "is_ascii (nat_digits i)" using nat_digits_digits [of i] d by (auto simp: is_ascii_def list_all_iff)
  show "map lower_byte (nat_digits i) = nat_digits i" using nat_digits_digits [of i] d by (intro map_idI) auto
qed

lemma digit_not: "is_digit c \<Longrightarrow> c \<noteq> CHR ''.'' \<and> c \<noteq> CHR ''-''"
  by (auto simp: is_digit_def between_def byte_def)

lemma digits_until:
  "\<not> is_digit x \<Longrightarrow> nat_digits i @ x # s = nat_digits j @ x # t \<Longrightarrow> i = j"
proof -
  assume x: "\<not> is_digit x" and e: "nat_digits i @ x # s = nat_digits j @ x # t"
  have "takeWhile is_digit (nat_digits k @ x # u) = nat_digits k" for k u
    using nat_digits_digits [of k] x by (simp add: takeWhile_append)
  with e have "nat_digits i = nat_digits j" by metis
  then show "i = j" by (rule nat_digits_inj)
qed

lemma index_name_inj:
  assumes "\<not> is_digit x" and "x \<noteq> CHR ''_''" and "lower_byte x = x" and "byte x < 128" and "is_ascii s"
    and "fold_case (stem @ index_name i @ x # s) = fold_case (stem @ index_name j @ x # s)"
  shows "i = j"
proof -
  have u: "lower_byte (CHR ''_'') = CHR ''_''" "byte (CHR ''_'') < 128"
    by (simp_all add: lower_byte_def is_upper_def between_def byte_def)
  have a: "is_ascii (index_name k @ x # s)" for k
    using assms(4,5) digits_ascii [of k] u by (auto simp: index_name_def is_ascii_def)
  have "map lower_byte (index_name i @ x # s) = map lower_byte (index_name j @ x # s)"
    using assms(6) by (simp only: fold_case_append [OF a] same_append_eq)
  then have "index_name i @ x # map lower_byte s = index_name j @ x # map lower_byte s"
    using assms(3) u by (simp add: index_name_def digits_lower split: if_splits)
  with assms(1,2) digits_until [of x i _ j] show ?thesis by (auto simp: index_name_def split: if_splits)
qed

lemma candidate_blocked:
  assumes "inj (\<lambda>i. fold_case (f i))"
  shows "card {i. taken_name used (f i)} \<le> length used \<and> finite {i. taken_name used (f i)}"
proof -
  have s: "(\<lambda>i. fold_case (f i)) ` {i. taken_name used (f i)} \<subseteq> fold_case ` set used"
    by (auto simp: taken_name_def list_ex_iff equal_fold_def) (metis imageI)
  have i: "inj_on (\<lambda>i. fold_case (f i)) {i. taken_name used (f i)}" using assms by (rule inj_on_subset) simp
  have f: "finite {i. taken_name used (f i)}" by (rule inj_on_finite [OF i s]) simp
  have "card {i. taken_name used (f i)} \<le> card (fold_case ` set used)" by (rule card_inj_on_le [OF i s]) simp
  also have "\<dots> \<le> length used" by (meson card_image_le card_length finite_set le_trans)
  finally show ?thesis using f by simp
qed

lemma freeName_exists: "\<exists>i \<in> set [0..<2 * length used + 1]. \<not> unusable used (candidate stem i)"
proof (rule ccontr)
  let ?A = "{i. taken_name used (candidate stem i)}" and ?B = "{i. taken_name used (flat_name (candidate stem i))}"
  assume "\<not> ?thesis"
  then have sub: "set [0..<2 * length used + 1] \<subseteq> ?A \<union> ?B" by (auto simp: unusable_def)
  have "inj (\<lambda>i. fold_case (candidate stem i))"
    by (rule injI, rule index_name_inj [of "CHR ''.''" "''vmdk''" stem])
      (auto simp: candidate_index is_digit_def between_def byte_def lower_byte_def is_upper_def is_ascii_def)
  from candidate_blocked [OF this] have A: "card ?A \<le> length used" "finite ?A" by simp_all
  have "inj (\<lambda>i. fold_case (flat_name (candidate stem i)))"
    by (rule injI, rule index_name_inj [of "CHR ''-''" "''flat.vmdk''" stem])
      (auto simp: flat_candidate is_digit_def between_def byte_def lower_byte_def is_upper_def is_ascii_def)
  from candidate_blocked [OF this] have B: "card ?B \<le> length used" "finite ?B" by simp_all
  have "2 * length used + 1 = card (set [0..<2 * length used + 1])" by simp
  also have "\<dots> \<le> card (?A \<union> ?B)" using sub A(2) B(2) by (intro card_mono) auto
  also have "\<dots> \<le> card ?A + card ?B" by (rule card_Un_le)
  finally show False using A(1) B(1) by simp
qed

lemma freeName_free:
  "\<exists>i. freeName name used = candidate (trim_suffix name (path_ext name)) i \<and>
     \<not> unusable used (freeName name used) \<and> (\<forall>j < i. unusable used (candidate (trim_suffix name (path_ext name)) j))"
proof -
  let ?s = "trim_suffix name (path_ext name)"
  let ?f = "find (\<lambda>i. \<not> unusable used (candidate ?s i)) [0..<2 * length used + 1]"
  have "?f \<noteq> None" unfolding find_None_iff using freeName_exists [of used ?s] by blast
  then obtain i where i: "?f = Some i" by blast
  then have "freeName name used = candidate ?s i" by (simp only: freeName_def Let_def option.case)
  moreover from i have "\<not> unusable used (candidate ?s i)" "\<forall>j < i. unusable used (candidate ?s j)"
    by (auto simp: find_Some_iff simp del: upt_Suc)
  ultimately show ?thesis by metis
qed

section \<open>Properties\<close>

text \<open>
  C40: the name a disk from another folder gets is free, and so is the name of the extent vmkfstools writes for it, both
  compared without case; and it is the first free one of its own name, \<open>name_1\<close>, \<open>name_2\<close> and so on. The search
  always ends.
\<close>

theorem free_name_is_first_free:
  "\<exists>i. freeName name used = candidate (trim_suffix name (path_ext name)) i \<and> \<not> unusable used (freeName name used) \<and>
    (\<forall>j < i. unusable used (candidate (trim_suffix name (path_ext name)) j))"
  using freeName_free [of name used] by auto

theorem free_name_is_first_free_witness:
  "\<exists>i. freeName ''web.vmdk'' [''web.vmdk''] = candidate ''web'' i \<and> \<not> unusable [''web.vmdk''] (freeName ''web.vmdk'' [''web.vmdk''])"
proof -
  have "trim_suffix ''web.vmdk'' (path_ext ''web.vmdk'') = ''web''" by code_simp
  with free_name_is_first_free [of "''web.vmdk''" "[''web.vmdk'']"] show ?thesis by metis
qed

end
