(* ===== verification/Snapshot_Checks.thy ===== *)
theory Snapshot_Checks
  imports Vmdk Vmx Go_Path
begin

text \<open>
  \<open>internal/migration/snapshot.go\<close>: the checks that say a VM has no snapshot. Each of them
  accepts only what a host without snapshots is known to answer.
\<close>

section \<open>The checks\<close>

text \<open>The match of \<open>snapshotName\<close>: a dash, six or more digits and \<open>.vmdk\<close> at the end.\<close>

definition snapshotName :: rx where
  "snapshotName = rseq [rchar (CHR ''-''), rtimes 6 rdigit, Star rdigit, rchar (CHR ''.''), rlit_fold ''vmdk'', Eot]"

definition nonempty_lines :: "string \<Rightarrow> string list" where
  "nonempty_lines s = filter (\<lambda>t. t \<noteq> []) (map trim_space (split_on nl s))"

definition SnapshotManager :: "string \<Rightarrow> err option" where
  "SnapshotManager s = (let lines = nonempty_lines s in
     if length lines = 1 \<and> lines ! 0 = ''Get Snapshot:'' then None
     else if length lines = 2 \<and> lines ! 0 = ''Get Snapshot:'' \<and> lines ! 1 = ''No snapshots.'' then None
     else Some (Errorf ''snapshot manager reports a snapshot or an unknown response''))"

definition delta_name :: "string \<Rightarrow> bool" where
  "delta_name n = (has_suffix n ''-delta.vmdk'' \<or> has_suffix n ''-sesparse.vmdk'')"

definition DiskSnapshot :: "string \<Rightarrow> Descriptor \<Rightarrow> err option" where
  "DiskSnapshot file d =
     (if match_string snapshotName file then Some (Errorf ''active VMX references a numbered snapshot VMDK'')
      else if \<not> equal_fold (ParentCID d) ''ffffffff'' \<or> ParentHint d \<noteq> [] then Some (Errorf ''active VMDK has a parent chain'')
      else if contains (to_lower (CreateType d)) ''sparse'' then Some (Errorf ''snapshot/sparse createType'')
      else if list_ex (\<lambda>e. delta_name (to_lower (File e))) (Extents d) then Some (Errorf ''active snapshot extent'')
      else None)"

definition snapshot_file :: "string \<Rightarrow> bool" where
  "snapshot_file f = (let n = to_lower (path_base f) in
     delta_name n \<or> match_string snapshotName n \<or> has_suffix n ''.vmsn'' \<or> has_suffix n ''.vmss'')"

definition SnapshotArtifact :: "string list \<Rightarrow> string" where
  "SnapshotArtifact files = (case find snapshot_file files of Some f \<Rightarrow> path_base f | None \<Rightarrow> [])"

definition vmsd_entry_ok :: "string \<times> string \<Rightarrow> bool" where
  "vmsd_entry_ok kv = (case kv of (k, v) \<Rightarrow>
     k = ''snapshot.numsnapshots'' \<or> k = ''.encoding'' \<or> k = ''snapshot.lastuid'' \<or>
     k = ''snapshot.current'' \<and> (v = ''0'' \<or> v = ''-1''))"

definition VMSD :: "string \<Rightarrow> err option" where
  "VMSD s =
     (if trim_space s = [] then None
      else (case vmx_Parse s of
          Inl _ \<Rightarrow> Some (Errorf ''unreadable snapshot metadata'')
        | Inr c \<Rightarrow>
            if has_key c ''snapshot.numsnapshots'' \<and> lookup0 c ''snapshot.numsnapshots'' \<noteq> ''0''
            then Some (Errorf ''VMSD snapshot metadata is active or ambiguous'')
            else (case find (\<lambda>kv. \<not> vmsd_entry_ok kv) c of
                Some kv \<Rightarrow> Some (Errorf (''stale or ambiguous VMSD entry requires manual review: '' @ fst kv))
              | None \<Rightarrow> None)))"

section \<open>What acceptance means\<close>

lemma SnapshotManager_accepts:
  "SnapshotManager s = None \<longleftrightarrow>
     nonempty_lines s = [''Get Snapshot:''] \<or> nonempty_lines s = [''Get Snapshot:'', ''No snapshots.'']"
proof -
  have two: "length xs = 2 \<longleftrightarrow> (\<exists>a b. xs = [a, b])" and one: "length xs = 1 \<longleftrightarrow> (\<exists>a. xs = [a])" for xs :: "string list"
    by (auto simp: length_Suc_conv numeral_2_eq_2)
  show ?thesis unfolding SnapshotManager_def Let_def one two by auto
qed

lemma DiskSnapshot_accepts:
  "DiskSnapshot file d = None \<longleftrightarrow>
     \<not> match_string snapshotName file \<and> equal_fold (ParentCID d) ''ffffffff'' \<and> ParentHint d = [] \<and>
     \<not> contains (to_lower (CreateType d)) ''sparse'' \<and> (\<forall>e \<in> set (Extents d). \<not> delta_name (to_lower (File e)))"
  by (auto simp: DiskSnapshot_def list_ex_iff)

lemma path_base_not_Nil: "path_base p \<noteq> []"
  by (simp add: path_base_def Let_def)

lemma SnapshotArtifact_none: "SnapshotArtifact files = [] \<longleftrightarrow> (\<forall>f \<in> set files. \<not> snapshot_file f)"
proof (cases "find snapshot_file files")
  case None
  then have "\<forall>f \<in> set files. \<not> snapshot_file f" by (simp add: find_None_iff)
  with None show ?thesis by (simp add: SnapshotArtifact_def)
next
  case (Some f)
  then have "f \<in> set files" "snapshot_file f" by (auto simp: find_Some_iff)
  with Some show ?thesis by (auto simp: SnapshotArtifact_def path_base_not_Nil)
qed

text \<open>
  Metadata of a VM without snapshots, in the terms of the file format: nothing but the encoding, the counter of the last ID, a count
  that is zero and a current snapshot that is none. The ID of the current snapshot is \<open>0\<close> or \<open>-1\<close> when there is none.
\<close>

definition no_snapshot_left :: "config \<Rightarrow> bool" where
  "no_snapshot_left c = (set (keys c) \<subseteq> {''.encoding'', ''snapshot.lastuid'', ''snapshot.numsnapshots'', ''snapshot.current''} \<and>
     map_of c ''snapshot.numsnapshots'' \<in> {None, Some ''0''} \<and> map_of c ''snapshot.current'' \<in> {None, Some ''0'', Some ''-1''})"

lemma entries_of_map: "wf_map c \<Longrightarrow> (\<forall>kv \<in> set c. P kv) \<longleftrightarrow> (\<forall>k v. map_of c k = Some v \<longrightarrow> P (k, v))"
  by (auto simp: wf_map_def keys_def map_of_eq_Some_iff)

lemma keys_of_map: "set (keys c) \<subseteq> K \<longleftrightarrow> (\<forall>k v. map_of c k = Some v \<longrightarrow> k \<in> K)"
  by (auto simp: has_key_iff [symmetric] has_key_def subset_iff)

lemma entries_split:
  assumes "cur \<notin> {e, l, n}"
  shows "m n \<in> {None, Some z} \<and> (\<forall>k v. m k = Some v \<longrightarrow> k = n \<or> k = e \<or> k = l \<or> k = cur \<and> (v = z \<or> v = y)) \<longleftrightarrow>
    (\<forall>k v. m k = Some v \<longrightarrow> k \<in> {e, l, n, cur}) \<and> m n \<in> {None, Some z} \<and> m cur \<in> {None, Some z, Some y}"
  using assms by (cases "m cur") auto

lemma vmsd_entries_ok:
  assumes "wf_map c"
  shows "(has_key c ''snapshot.numsnapshots'' \<longrightarrow> lookup0 c ''snapshot.numsnapshots'' = ''0'') \<and> (\<forall>kv \<in> set c. vmsd_entry_ok kv) \<longleftrightarrow> no_snapshot_left c"
proof -
  have n: "(has_key c k \<longrightarrow> lookup0 c k = v) \<longleftrightarrow> map_of c k \<in> {None, Some v}" for k v
    by (auto simp: has_key_def lookup0_def split: option.splits)
  show ?thesis
    unfolding no_snapshot_left_def n keys_of_map entries_of_map [OF assms] vmsd_entry_ok_def prod.case
    by (rule entries_split) simp
qed

lemma VMSD_accepts:
  "VMSD s = None \<longleftrightarrow> trim_space s = [] \<or> (\<exists>c. vmx_Parse s = Inr c \<and> no_snapshot_left c)"
proof (cases "vmx_Parse s")
  case (Inr c)
  have "wf_map c" using vmx_Parse_wf_config [OF Inr] by (simp add: wf_config_def wf_entries_def)
  note ok = vmsd_entries_ok [OF this]
  have f: "find (\<lambda>kv. \<not> vmsd_entry_ok kv) c = None \<longleftrightarrow> (\<forall>kv \<in> set c. vmsd_entry_ok kv)" by (auto simp: find_None_iff)
  have "VMSD s = None \<longleftrightarrow> trim_space s = [] \<or>
      (has_key c ''snapshot.numsnapshots'' \<longrightarrow> lookup0 c ''snapshot.numsnapshots'' = ''0'') \<and> find (\<lambda>kv. \<not> vmsd_entry_ok kv) c = None"
    by (simp add: VMSD_def Inr split: option.splits)
  with Inr show ?thesis by (simp only: ok f) simp
qed (simp add: VMSD_def)

text \<open>The entries of a snapshot are \<open>snapshot<n>.<field>\<close>.\<close>

lemma no_snapshot_described:
  assumes "no_snapshot_left c"
  shows "map_of c (''snapshot'' @ nat_digits n @ ''.'' @ field) = None"
proof -
  obtain d ds where d: "nat_digits n = d # ds" by (cases "nat_digits n") simp_all
  then have "is_digit d" using nat_digits_digits [of n] by simp
  with d have "''snapshot'' @ nat_digits n @ ''.'' @ field \<notin> {''.encoding'', ''snapshot.lastuid'', ''snapshot.numsnapshots'', ''snapshot.current''}"
    by (auto simp: is_digit_def between_def byte_def)
  with assms show ?thesis by (auto simp: no_snapshot_left_def has_key_iff [symmetric] has_key_def subset_iff)
qed

section \<open>Properties\<close>

text \<open>
  C38: snapshot metadata passes exactly when it is blank, or when it parses and names no snapshot: it has no entry of any snapshot
  \<open>snapshot<n>.<field>\<close> and nothing else but the encoding, the counter of the last ID, a count of zero and a current snapshot that is none.
\<close>

theorem vmsd_names_no_snapshot:
  "VMSD s = None \<longleftrightarrow> trim_space s = [] \<or>
     (\<exists>c. vmx_Parse s = Inr c \<and> (\<forall>n field. map_of c (''snapshot'' @ nat_digits n @ ''.'' @ field) = None) \<and>
        set (keys c) \<subseteq> {''.encoding'', ''snapshot.lastuid'', ''snapshot.numsnapshots'', ''snapshot.current''} \<and>
        map_of c ''snapshot.numsnapshots'' \<in> {None, Some ''0''} \<and> map_of c ''snapshot.current'' \<in> {None, Some ''0'', Some ''-1''})"
  unfolding VMSD_accepts using no_snapshot_described unfolding no_snapshot_left_def by blast

definition clean_vmsd :: string where
  "clean_vmsd = (''.encoding = '' @ [dq] @ ''UTF-8'' @ [dq, nl] @ ''snapshot.lastUID = '' @ [dq] @ ''3'' @ [dq])"

definition stale_vmsd :: string where
  "stale_vmsd = (''.encoding = '' @ [dq] @ ''UTF-8'' @ [dq, nl] @ ''snapshot.current = '' @ [dq] @ ''3'' @ [dq])"

theorem vmsd_names_no_snapshot_witness: "(\<exists>c. vmx_Parse clean_vmsd = Inr c \<and> map_of c ''snapshot0.uid'' = None) \<and> VMSD stale_vmsd \<noteq> None"
proof
  have "VMSD clean_vmsd = None" "trim_space clean_vmsd \<noteq> []" by code_simp+
  with vmsd_names_no_snapshot [of clean_vmsd] obtain c where c: "vmx_Parse clean_vmsd = Inr c"
    "map_of c (''snapshot'' @ nat_digits 0 @ ''.'' @ ''uid'') = None" by blast
  have "''snapshot'' @ nat_digits 0 @ ''.'' @ ''uid'' = ''snapshot0.uid''" by code_simp
  with c show "\<exists>c. vmx_Parse clean_vmsd = Inr c \<and> map_of c ''snapshot0.uid'' = None" by metis
  show "VMSD stale_vmsd \<noteq> None" by code_simp
qed

end
