(* ===== verification/Vmxf.thy ===== *)
theory Vmxf
  imports Go_Strings
begin

text \<open>
  \<open>internal/vmx/vmxf.go\<close>: the check of a VMXF file. The file is read with Go's
  \<open>encoding/xml\<close>; the model takes the tokenizer as the argument \<open>xml\<close>, which gives the
  tokens of a text and whether they end in a syntax error, and models the check on the tokens.
\<close>

record XmlAttr =
  attr_Space :: string
  attr_Value :: string

datatype XmlToken =
    StartElement string string "XmlAttr list" \<comment> \<open>name space, local name, attributes\<close>
  | EndElement
  | CharData string
  | Comment
  | ProcInst string
  | Directive

record VmxfState =
  vx_depth :: int
  vx_vmCount :: nat
  vx_pathCount :: nat
  vx_root :: bool
  vx_hasVMXPath :: bool
  vx_stack :: "string list" \<comment> \<open>innermost element first\<close>

definition vmxf_start :: VmxfState where
  "vmxf_start = \<lparr>vx_depth = 0, vx_vmCount = 0, vx_pathCount = 0, vx_root = False, vx_hasVMXPath = False, vx_stack = []\<rparr>"

definition external_value :: "string \<Rightarrow> bool" where
  "external_value value = (let low = to_lower value in
     contains_any value [slash, backslash] \<or> has_prefix value ''['' \<or> contains low ''.vmdk'' \<or> contains low ''.vmx'')"

fun vmxf_token :: "string \<Rightarrow> XmlToken \<Rightarrow> VmxfState \<Rightarrow> VmxfState result" where
  "vmxf_token vmxName (StartElement space local_name attrs) s =
     (if space \<noteq> [] then Inl (Errorf ''namespaced VMXF element is unsupported'')
      else if vx_depth s = 0 \<and> (vx_root s \<or> local_name \<noteq> ''Foundry'') then Inl (Errorf ''unsupported VMXF root'')
      else if list_ex (\<lambda>a. attr_Space a \<noteq> [] \<or> external_value (attr_Value a)) attrs
      then Inl (Errorf
        (if (case find (\<lambda>a. attr_Space a \<noteq> [] \<or> external_value (attr_Value a)) attrs of
               None \<Rightarrow> False | Some a \<Rightarrow> attr_Space a \<noteq> [])
         then ''namespaced VMXF attribute is unsupported'' else ''external VMXF dependency''))
      else Inr (s\<lparr>vx_root := (vx_root s \<or> vx_depth s = 0),
                  vx_vmCount := vx_vmCount s + (if local_name = ''VM'' then 1 else 0),
                  vx_pathCount := vx_pathCount s + (if local_name = ''vmxPathName'' then 1 else 0),
                  vx_stack := local_name # vx_stack s,
                  vx_depth := vx_depth s + 1\<rparr>))"
| "vmxf_token vmxName EndElement s =
     (if vx_depth s - 1 < 0 then Inl (Errorf ''invalid VMXF nesting'')
      else Inr (s\<lparr>vx_depth := vx_depth s - 1, vx_stack := drop 1 (vx_stack s)\<rparr>))"
| "vmxf_token vmxName (CharData v) s = (let value = trim_space v in
      if value = [] then Inr s
      else if vx_depth s > 0 \<and> hd (vx_stack s) = ''vmxPathName'' then
        if value \<noteq> vmxName then Inl (Errorf ''VMXF points to a different VMX'')
        else Inr (s\<lparr>vx_hasVMXPath := True\<rparr>)
      else if external_value value then Inl (Errorf ''external VMXF dependency'')
      else Inr s)"
| "vmxf_token vmxName (ProcInst target) s =
     (if target \<noteq> ''xml'' then Inl (Errorf ''VMXF processing instructions are unsupported'') else Inr s)"
| "vmxf_token vmxName Directive s = Inl (Errorf ''VMXF directives are unsupported'')"
| "vmxf_token vmxName Comment s = Inr s"

definition ValidateVMXF :: "(string \<Rightarrow> XmlToken list \<times> bool) \<Rightarrow> string \<Rightarrow> string \<Rightarrow> err option" where
  "ValidateVMXF xml raw vmxName =
     (case fold_result (vmxf_token vmxName) (fst (xml raw)) vmxf_start of
        Inl e \<Rightarrow> Some e
      | Inr s \<Rightarrow>
          if snd (xml raw) then Some (Errorf ''invalid VMXF XML'')
          else if \<not> vx_root s \<or> vx_depth s \<noteq> 0 \<or> vx_vmCount s \<noteq> 1 \<or> vx_pathCount s > 1 \<or>
             (vx_pathCount s = 1 \<and> \<not> vx_hasVMXPath s)
          then Some (Errorf ''unknown or non-standalone VMXF structure'')
          else None)"

section \<open>What an accepted file looks like\<close>

fun is_VM :: "XmlToken \<Rightarrow> bool" where
  "is_VM (StartElement sp l as) = (l = ''VM'')"
| "is_VM _ = False"

fun token_values :: "XmlToken \<Rightarrow> string list" where
  "token_values (StartElement sp l as) = map attr_Value as"
| "token_values (CharData v) = (if trim_space v = [] then [] else [trim_space v])"
| "token_values _ = []"

text \<open>
  Every value of an accepted file is harmless (it names no other file) or is the VMX name
  itself, and the file describes exactly one VM.
\<close>

lemma vmxf_token_values:
  "vmxf_token n t s = Inr s' \<Longrightarrow> v \<in> set (token_values t) \<Longrightarrow> \<not> external_value v \<or> v = n"
  by (cases t) (auto simp: list_ex_iff Let_def split: if_splits)

lemma vmxf_token_vm: "vmxf_token n t s = Inr s' \<Longrightarrow> vx_vmCount s' = vx_vmCount s + (if is_VM t then 1 else 0)"
  by (cases t) (auto simp: Let_def split: if_splits)

lemma vmxf_tokens:
  "fold_result (vmxf_token n) ts s = Inr s' \<Longrightarrow>
     (\<forall>t \<in> set ts. \<forall>v \<in> set (token_values t). \<not> external_value v \<or> v = n) \<and>
     vx_vmCount s' = vx_vmCount s + length (filter is_VM ts)"
proof (induction ts arbitrary: s)
  case (Cons t ts)
  then obtain u where u: "vmxf_token n t s = Inr u" "fold_result (vmxf_token n) ts u = Inr s'" by auto
  with Cons.IH [OF u(2)] vmxf_token_values [OF u(1)] vmxf_token_vm [OF u(1)] show ?case by auto
qed simp

lemma ValidateVMXF_tokens:
  assumes "ValidateVMXF xml raw n = None"
  shows "length (filter is_VM (fst (xml raw))) = 1"
    and "\<And>t v. t \<in> set (fst (xml raw)) \<Longrightarrow> v \<in> set (token_values t) \<Longrightarrow> \<not> external_value v \<or> v = n"
proof -
  from assms obtain s where s: "fold_result (vmxf_token n) (fst (xml raw)) vmxf_start = Inr s" "vx_vmCount s = 1"
    by (auto simp: ValidateVMXF_def split: sum.splits if_splits)
  from vmxf_tokens [OF s(1)] s(2) show "length (filter is_VM (fst (xml raw))) = 1"
    and "\<And>t v. t \<in> set (fst (xml raw)) \<Longrightarrow> v \<in> set (token_values t) \<Longrightarrow> \<not> external_value v \<or> v = n"
    by (auto simp: vmxf_start_def)
qed

section \<open>Properties\<close>

text \<open>
  C34: metadata that \<open>ValidateVMXF\<close> accepts was read to its end without an error of the
  tokenizer, describes exactly one VM, and none of its texts or attribute values names another file or
  datastore; only this VM's own configuration may be named.
\<close>

theorem vmxf_standalone:
  assumes "ValidateVMXF xml raw n = None"
  shows "\<not> snd (xml raw) \<and> length (filter is_VM (fst (xml raw))) = 1 \<and>
    (\<forall>t \<in> set (fst (xml raw)). \<forall>v \<in> set (token_values t). external_value v \<longrightarrow> v = n)"
  using ValidateVMXF_tokens [OF assms] assms by (auto simp: ValidateVMXF_def split: sum.splits if_splits)

text \<open>A tokenizer that knows one document.\<close>

definition one_vm :: "string \<Rightarrow> XmlToken list \<times> bool" where
  "one_vm raw = ([StartElement [] ''Foundry'' [], StartElement [] ''VM'' [], StartElement [] ''vmxPathName'' [],
     CharData ''web.vmx'', EndElement, EndElement, EndElement], False)"

theorem vmxf_standalone_witness: "length (filter is_VM (fst (one_vm ''x''))) = 1"
proof -
  have "ValidateVMXF one_vm ''x'' ''web.vmx'' = None" by code_simp
  from vmxf_standalone [OF this] show ?thesis by simp
qed

end
