(* ===== verification/Go_Sha256.thy ===== *)
theory Go_Sha256
  imports Go_Strings "HOL-Library.Word"
begin

text \<open>
  SHA-256 as \<open>crypto/sha256\<close> and \<open>encoding/hex\<close> compute it (FIPS 180-4), on 32-bit words. The analysis
  uses it for the fingerprint of what was reviewed; nothing is proved of it beyond its shape.
\<close>

unbundle bit_operations_syntax

type_synonym w32 = "32 word"

definition sha_K :: "w32 list" where
  "sha_K = [
     0x428A2F98, 0x71374491, 0xB5C0FBCF, 0xE9B5DBA5, 0x3956C25B, 0x59F111F1, 0x923F82A4, 0xAB1C5ED5,
     0xD807AA98, 0x12835B01, 0x243185BE, 0x550C7DC3, 0x72BE5D74, 0x80DEB1FE, 0x9BDC06A7, 0xC19BF174,
     0xE49B69C1, 0xEFBE4786, 0x0FC19DC6, 0x240CA1CC, 0x2DE92C6F, 0x4A7484AA, 0x5CB0A9DC, 0x76F988DA,
     0x983E5152, 0xA831C66D, 0xB00327C8, 0xBF597FC7, 0xC6E00BF3, 0xD5A79147, 0x06CA6351, 0x14292967,
     0x27B70A85, 0x2E1B2138, 0x4D2C6DFC, 0x53380D13, 0x650A7354, 0x766A0ABB, 0x81C2C92E, 0x92722C85,
     0xA2BFE8A1, 0xA81A664B, 0xC24B8B70, 0xC76C51A3, 0xD192E819, 0xD6990624, 0xF40E3585, 0x106AA070,
     0x19A4C116, 0x1E376C08, 0x2748774C, 0x34B0BCB5, 0x391C0CB3, 0x4ED8AA4A, 0x5B9CCA4F, 0x682E6FF3,
     0x748F82EE, 0x78A5636F, 0x84C87814, 0x8CC70208, 0x90BEFFFA, 0xA4506CEB, 0xBEF9A3F7, 0xC67178F2]"

definition sha_init :: "w32 list" where
  "sha_init = [0x6A09E667, 0xBB67AE85, 0x3C6EF372, 0xA54FF53A, 0x510E527F, 0x9B05688C, 0x1F83D9AB, 0x5BE0CD19]"

definition rotr :: "nat \<Rightarrow> w32 \<Rightarrow> w32" where
  "rotr n x = word_rotr n x"

definition sha_pad :: "string \<Rightarrow> nat list" where
  "sha_pad s = (let bs = map byte s; n = length bs; z = (119 - n mod 64) mod 64; l = 8 * n in
     bs @ [0x80] @ replicate z 0 @ map (\<lambda>i. l div 256 ^ (7 - i) mod 256) [0..<8])"

fun be_words :: "nat list \<Rightarrow> w32 list" where
  "be_words (a # b # c # d # bs) = of_nat (((a * 256 + b) * 256 + c) * 256 + d) # be_words bs"
| "be_words _ = []"

text \<open>The message schedule, newest word first: \<open>W t\<close> from \<open>W (t-2)\<close>, \<open>W (t-7)\<close>, \<open>W (t-15)\<close> and \<open>W (t-16)\<close>.\<close>

definition sha_next :: "w32 list \<Rightarrow> w32" where
  "sha_next ws = (let x = ws ! 1; y = ws ! 14;
       s1 = rotr 17 x XOR rotr 19 x XOR drop_bit 10 x; s0 = rotr 7 y XOR rotr 18 y XOR drop_bit 3 y
     in s1 + ws ! 6 + s0 + ws ! 15)"

definition sha_schedule :: "w32 list \<Rightarrow> w32 list" where
  "sha_schedule block = rev (((\<lambda>ws. sha_next ws # ws) ^^ 48) (rev block))"

definition sha_round :: "w32 \<times> w32 \<Rightarrow> w32 list \<Rightarrow> w32 list" where
  "sha_round kw v = (case (kw, v) of
      ((k, w), [a, b, c, d, e, f, g, h]) \<Rightarrow>
        (let s1 = rotr 6 e XOR rotr 11 e XOR rotr 25 e; ch = (e AND f) XOR ((NOT e) AND g);
             t1 = h + s1 + ch + k + w;
             s0 = rotr 2 a XOR rotr 13 a XOR rotr 22 a; maj = (a AND b) XOR (a AND c) XOR (b AND c);
             t2 = s0 + maj
         in [t1 + t2, a, b, c, d + t1, e, f, g])
    | _ \<Rightarrow> v)"

definition sha_block :: "w32 list \<Rightarrow> w32 list \<Rightarrow> w32 list" where
  "sha_block block v = map2 (+) v (fold sha_round (zip sha_K (sha_schedule block)) v)"

fun blocks_of :: "nat \<Rightarrow> w32 list \<Rightarrow> w32 list list" where
  "blocks_of 0 ws = []"
| "blocks_of (Suc n) ws = take 16 ws # blocks_of n (drop 16 ws)"

definition hex_lower :: "nat \<Rightarrow> char" where
  "hex_lower n = (if n < 10 then char_of (48 + n) else char_of (87 + n))"

definition hex_word :: "w32 \<Rightarrow> string" where
  "hex_word w = map (\<lambda>i. hex_lower (unat w div 16 ^ (7 - i) mod 16)) [0..<8]"

text \<open>The digest in lower-case hexadecimal.\<close>

definition sha256_hex :: "string \<Rightarrow> string" where
  "sha256_hex s = (let ws = be_words (sha_pad s) in
     concat (map hex_word (fold sha_block (blocks_of (length ws div 16) ws) sha_init)))"

end
