(* ===== verification/Analyzer.thy ===== *)
theory Analyzer
  imports Host_Rules Advice Snapshot_Checks Vmx_Analyzer Vmxf Go_Sha256
begin

text \<open>
  \<open>internal/migration/analyzer.go\<close> and \<open>external.go\<close>, with the space checks of
  \<open>live.go\<close> the analysis shares: the inspection of a VM before and during a migration. It is one long
  function in the code; here every stretch of it between two of its returns is a definition, and
  \<open>inspect\<close> composes them in the code's order. A Go map is iterated in the order of its
  association list. The host is \<open>h\<close>, \<open>xml\<close> the tokenizer of \<open>encoding/xml\<close>.
\<close>

section \<open>Space\<close>

definition max_reserve :: int where
  "max_reserve = (max_int64 - 2 ^ 30) div 115 * 100"

definition reserve :: "int \<Rightarrow> int result" where
  "reserve b =
     (if b < 0 \<or> b > max_reserve then Inl (Errorf ''disk capacity overflow'')
      else Inr (b + b div 100 * 15 + 2 ^ 30))"

definition minLiveSourceFree :: int where
  "minLiveSourceFree = 2 ^ 30"

definition requireLiveSourceSpace :: "int \<Rightarrow> err option" where
  "requireLiveSourceSpace free =
     (if free < minLiveSourceFree
      then Some (Errorf (''source datastore has '' @ itoa (free div 2 ^ 20) @ '' MiB free; live migration requires at least 1 GiB''))
      else None)"

definition deltaPlaces :: "Report \<Rightarrow> string list" where
  "deltaPlaces r = rp_SourceVMX r # map dk_Source (filter dk_External (rp_Disks r))"

definition delta_place :: "Datastore list \<Rightarrow> string \<Rightarrow> int \<Rightarrow> int result" where
  "delta_place ds p least = (case DatastoreOf p ds of
      Some d \<Rightarrow>
        if \<not> Usable d then Inl (Errorf ''a datastore holding a snapshot delta is no longer available as mounted VMFS'')
        else Inr (if least < 0 \<or> ds_Free d < least then ds_Free d else least)
    | None \<Rightarrow> Inl (Errorf ''a datastore holding a snapshot delta is no longer available as mounted VMFS''))"

definition deltaFree :: "Datastore list \<Rightarrow> string list \<Rightarrow> int result" where
  "deltaFree ds places = fold_result (delta_place ds) places (-1)"

section \<open>Identity and configuration\<close>

definition normalizeUUID :: "string \<Rightarrow> string" where
  "normalizeUUID s = to_lower (filter (\<lambda>c. c \<noteq> CHR '' '' \<and> c \<noteq> CHR ''-'') s)"

definition slice :: "nat \<Rightarrow> nat \<Rightarrow> string \<Rightarrow> string" where
  "slice i j s = take (j - i) (drop i s)"

definition sameUUID :: "string \<Rightarrow> string \<Rightarrow> bool" where
  "sameUUID bios appliance = (let a = normalizeUUID bios; b = normalizeUUID appliance in
     if length a \<noteq> 32 \<or> length b \<noteq> 32 then False
     else if a = b then True
     else a = slice 6 8 b @ slice 4 6 b @ slice 2 4 b @ slice 0 2 b @ slice 10 12 b @ slice 8 10 b @
       slice 14 16 b @ slice 12 14 b @ drop 16 b)"

definition volatile_keys :: "string list" where
  "volatile_keys = [''cleanshutdown'', ''softpoweroff'', ''tools.lastinstallstatus'', ''tools.remindinstall'']"

definition stableConfig :: "config \<Rightarrow> config" where
  "stableConfig c = (case vmx_Rewrite c [] of Inl _ \<Rightarrow> [] | Inr out \<Rightarrow> fold (\<lambda>k c. del c k) volatile_keys out)"

section \<open>Files\<close>

definition x_localFile :: "'w host \<Rightarrow> string \<Rightarrow> string \<Rightarrow> Datastore list \<Rightarrow> ('w, string) M" where
  "x_localFile h ref dir ds =
     bind (lift (ResolveReference ref dir ds)) (\<lambda>p.
     bind (x_Canonical h p) (\<lambda>canonical.
     seq (require (path_dir canonical = dir)
       (Errorf ''files outside the VM directory (including other datastores and nested directories) are unsupported''))
     (bind (attempt (x_Exists h canonical)) (\<lambda>exists.
     seq (require (exists = Inr True) (Errorf ''required file is missing or inaccessible''))
     (ret canonical)))))"

definition x_externalFile :: "'w host \<Rightarrow> string \<Rightarrow> string \<Rightarrow> Datastore list \<Rightarrow> ('w, string) M" where
  "x_externalFile h ref dir ds =
     bind (lift (ResolveReference ref dir ds)) (\<lambda>p.
     bind (x_Canonical h p) (\<lambda>canonical.
     seq (require (case DatastoreOf canonical ds of Some d \<Rightarrow> Usable d | None \<Rightarrow> False)
       (Errorf ''the disk is not on a mounted VMFS-5 or VMFS-6 datastore''))
     (bind (attempt (x_Exists h canonical)) (\<lambda>exists.
     seq (require (exists = Inr True) (Errorf ''required file is missing or inaccessible''))
     (ret canonical)))))"

fun x_freeFolder :: "'w host \<Rightarrow> string \<Rightarrow> string \<Rightarrow> nat list \<Rightarrow> ('w, string) M" where
  "x_freeFolder h mount folder [] = ret []"
| "x_freeFolder h mount folder (i # is) =
     (let candidate = folder @ ''-'' @ nat_digits i in
      bind (x_Exists h (path_join [mount, candidate])) (\<lambda>used.
      if \<not> used then ret candidate else x_freeFolder h mount folder is))"

definition freeFolder :: "'w host \<Rightarrow> string \<Rightarrow> string \<Rightarrow> ('w, string) M" where
  "freeFolder h mount folder = x_freeFolder h mount folder [2..<10]"

section \<open>Folders outside the VM folder\<close>

fun vmxUses_entries :: "'w host \<Rightarrow> string \<Rightarrow> string list \<Rightarrow> Datastore list \<Rightarrow> config \<Rightarrow> ('w, bool) M" where
  "vmxUses_entries h file disks ds [] = ret False"
| "vmxUses_entries h file disks ds ((k, v) # c) =
     (if \<not> has_suffix k ''.filename'' \<or> \<not> has_suffix (to_lower v) ''.vmdk'' then vmxUses_entries h file disks ds c
      else bind (lift (ResolveReference v (path_dir file) ds)) (\<lambda>p.
        bind (x_Canonical h p) (\<lambda>q.
        if q \<in> set disks then ret True else vmxUses_entries h file disks ds c)))"

definition vmxUses :: "'w host \<Rightarrow> string \<Rightarrow> string list \<Rightarrow> Datastore list \<Rightarrow> ('w, bool) M" where
  "vmxUses h file disks ds =
     bind (x_ReadFile h file) (\<lambda>raw.
     bind (lift (vmx_Parse raw)) (\<lambda>cfg. vmxUses_entries h file disks ds cfg))"

text \<open>One file of a folder that holds disks brought in; \<open>others\<close> are the files only warned of.\<close>

definition inspect_file :: "'w host \<Rightarrow> string \<Rightarrow> string list \<Rightarrow> Datastore list \<Rightarrow> string list \<Rightarrow> string \<Rightarrow>
    Report \<times> string list \<Rightarrow> ('w, Report \<times> string list) M" where
  "inspect_file h dir disks ds files f st = (case st of (r, others) \<Rightarrow>
     (let n = to_lower (path_base f); stems = map (\<lambda>d. to_lower (trim_suffix (path_base d) ''.vmdk'') @ ''-'') disks in
      if f = rp_SourceVMX r then ret (r, others)
      else if SnapshotArtifact [f] \<noteq> [] then
        (if list_ex (has_prefix n) stems
         then (case artifactAdvice r dir (path_base f) files of (detail, adv) \<Rightarrow>
           ret (advised ''Disk folder'' StatusBlock (detail @ '' in '' @ dir) adv r, others))
         else ret (r, others @ [path_base f]))
      else if has_suffix n ''.vmx'' then
        bind (attempt (vmxUses h f disks ds)) (\<lambda>uses.
          if uses = Inr False then ret (r, others @ [path_base f])
          else ret (advised ''Disk folder'' StatusBlock (path_base f @ '' in '' @ dir @ '' may use a disk of this VM'')
            (advise ''Another VM may use this disk''
              (case uses of
                 Inl _ \<Rightarrow> ''Another VMX in that folder cannot be read or names a disk that cannot be resolved, so this tool cannot rule out that it uses this disk.''
               | Inr _ \<Rightarrow> ''Another VMX in that folder names this disk. If that VM is registered and started later, both would write to the same disk.'')
              [command ''See which disks that VMX names.'' ((''grep -i -E '' @ [sq, backslash] @ ''.filename'' @ [sq] @ '' '') @ Quote f),
               say (''If that VM still needs the disk, the two VMs share it and cannot be moved one at a time. If it does not, remove the disk from that VM'' @ [sq] @ ''s settings.''),
               again]) r, others))
      else ret (r, others)))"

definition inspectFolder :: "'w host \<Rightarrow> string \<Rightarrow> string list \<Rightarrow> Datastore list \<Rightarrow> Report \<Rightarrow> ('w, Report) M" where
  "inspectFolder h dir disks ds r =
     bind (x_List h dir) (\<lambda>listed.
     let files = sort listed in
     bind (foldM (inspect_file h dir disks ds files) files (r, [])) (\<lambda>(r, others).
     ret (if others \<noteq> [] then
         advised ''Disk folder'' StatusWarning (dir @ '' also holds '' @ join '', '' others)
           (advise ''A disk shares its folder with other files''
             (''The folder looks like it belongs to another VM. Nothing there names this disk, so the copy is safe, but that VM'' @ [sq] @ ''s own files stay where they are.'')
             [say ''Check that no other VM is expected to use the disk.'']) r
       else r)))"

section \<open>Other registered VMs\<close>

fun chain_extents :: "'w host \<Rightarrow> string \<Rightarrow> Datastore list \<Rightarrow> string list \<Rightarrow> Extent list \<Rightarrow> ('w, unit) M" where
  "chain_extents h dir ds backings [] = ret ()"
| "chain_extents h dir ds backings (ex # exs) =
     bind (lift (ResolveReference (File ex) dir ds)) (\<lambda>ep0.
     bind (x_Canonical h ep0) (\<lambda>ep.
     seq (require (ep \<notin> set backings) (Errorf ''another registered VM shares a source extent''))
     (seq (require (path_dir ep = dir) (Errorf (''another VM'' @ [sq] @ ''s extent leaves its own directory; isolation cannot be proven'')))
     (chain_extents h dir ds backings exs))))"

text \<open>The walk over at most 33 links of a chain.\<close>

fun otherChain :: "nat \<Rightarrow> 'w host \<Rightarrow> string \<Rightarrow> Datastore list \<Rightarrow> string list \<Rightarrow> Descriptor \<Rightarrow> ('w, unit) M" where
  "otherChain 0 h dir ds backings d = fail (Errorf (''another VM'' @ [sq] @ ''s disk chain is too deep to verify''))"
| "otherChain (Suc n) h dir ds backings d =
     seq (chain_extents h dir ds backings (Extents d))
     (if equal_fold (ParentCID d) ''ffffffff'' \<and> ParentHint d = [] then ret ()
      else seq (require (ParentHint d \<noteq> []) (Errorf ''another VM has a parent chain with no resolvable parent; isolation cannot be proven''))
      (bind (lift (ResolveReference (ParentHint d) dir ds)) (\<lambda>parent0.
      bind (x_Canonical h parent0) (\<lambda>parent.
      seq (require (parent \<notin> set backings) (Errorf (''another VM'' @ [sq] @ ''s snapshot chain references a source disk'')))
      (seq (require (path_dir parent = dir) (Errorf (''another VM'' @ [sq] @ ''s chain leaves its own directory; isolation cannot be proven'')))
      (bind (attempt (x_ReadFile h parent)) (\<lambda>read.
      (case read of Inl _ \<Rightarrow> fail (Errorf (''cannot read a parent in another VM'' @ [sq] @ ''s chain''))
       | Inr text \<Rightarrow>
         (case vmdk_Parse text of Inl _ \<Rightarrow> fail (Errorf (''unreadable parent descriptor in another VM'' @ [sq] @ ''s chain''))
          | Inr p \<Rightarrow> otherChain n h dir ds backings p)))))))))"

fun shared_entries :: "'w host \<Rightarrow> string \<Rightarrow> Datastore list \<Rightarrow> string list \<Rightarrow> config \<Rightarrow> ('w, unit) M" where
  "shared_entries h p ds backings [] = ret ()"
| "shared_entries h p ds backings ((k, v) # c) =
     (if \<not> has_suffix (to_lower v) ''.vmdk'' then shared_entries h p ds backings c
      else seq (require (has_suffix k ''.filename'') (Errorf ''unclassified disk dependency in another VM''))
      (bind (lift (ResolveReference v (path_dir p) ds)) (\<lambda>ref0.
      bind (x_Canonical h ref0) (\<lambda>ref.
      seq (require (ref \<notin> set backings) (Errorf ''another registered VM references a source disk''))
      (bind (attempt (x_ReadFile h ref)) (\<lambda>read.
      (case read of Inl _ \<Rightarrow> fail (Errorf ''cannot exclude shared disk backing'')
       | Inr text \<Rightarrow>
         (case vmdk_Parse text of Inl _ \<Rightarrow> fail (Errorf ''unreadable other-VM descriptor; cannot exclude shared backing'')
          | Inr d \<Rightarrow> seq (otherChain 33 h (path_dir ref) ds backings d) (shared_entries h p ds backings c)))))))))"

definition shared_vm :: "'w host \<Rightarrow> Datastore list \<Rightarrow> int \<Rightarrow> string list \<Rightarrow> VM \<Rightarrow> ('w, unit) M" where
  "shared_vm h ds i backings other =
     (if vm_ID other = i then ret ()
      else bind (lift (ResolveReference (vm_VMXPath other) [] ds)) (\<lambda>p0.
        bind (attempt (x_Canonical h p0)) (\<lambda>canonical.
        (case canonical of Inl _ \<Rightarrow> fail (Errorf ''cannot inspect another registered VM'')
         | Inr p \<Rightarrow>
           bind (attempt (x_ReadFile h p)) (\<lambda>read.
           (case read of Inl _ \<Rightarrow> fail (Errorf ''cannot inspect another registered VM'')
            | Inr raw \<Rightarrow>
              (case vmx_Parse raw of
                 Inl _ \<Rightarrow> fail (Errorf ''another VM has unrecognized configuration; shared disks cannot be excluded'')
               | Inr cfg \<Rightarrow> shared_entries h p ds backings cfg)))))))"

definition sharedCheck :: "'w host \<Rightarrow> Inventory \<Rightarrow> int \<Rightarrow> string list \<Rightarrow> ('w, unit) M" where
  "sharedCheck h iv i backings = each (shared_vm h (inv_Datastores iv) i backings) (inv_VMs iv)"

section \<open>The inspection\<close>

record progress =
  pg_ownLock :: bool
  pg_targetCreated :: bool
  pg_consumed :: int

definition fresh_start :: progress where
  "fresh_start = \<lparr>pg_ownLock = False, pg_targetCreated = False, pg_consumed = 0\<rparr>"

text \<open>The last VM with the requested ID, and the last datastore with the requested UUID.\<close>

definition find_last :: "('a \<Rightarrow> bool) \<Rightarrow> 'a list \<Rightarrow> 'a option" where
  "find_last P xs = find P (rev xs)"

text \<open>The host, the VM and the target: up to the point where the code knows all paths. \<open>Inl\<close> is an early report.\<close>

definition check_host :: "Inventory \<Rightarrow> progress \<Rightarrow> Report \<Rightarrow> Report" where
  "check_host iv done r =
     (let r = (if cap_Supported (inv_Capabilities iv) then r
           else check ''ESXi version'' StatusBlock ''Only recognized ESXi 6.5, 6.7, 7.x and 8.x versions are supported'' r)
      in if inv_ExistingOperation iv \<noteq> [] \<and> \<not> pg_ownLock done
         then check ''Existing operation'' StatusBlock (inv_ExistingOperation iv) r else r)"

definition source_checks :: "Datastore \<Rightarrow> Datastore \<Rightarrow> Report \<Rightarrow> Report" where
  "source_checks source target r =
     (let r = r\<lparr>rp_SourceDatastore := ds_Name source\<rparr>;
          r = (if Usable source then r
            else check ''Source datastore'' StatusBlock ''Source must be a mounted VMFS-5 or VMFS-6 datastore'' r)
      in if ds_UUID source = ds_UUID target then check ''Target datastore'' StatusBlock ''Select a different datastore'' r else r)"

definition target_folder :: "Request \<Rightarrow> Report \<Rightarrow> string result" where
  "target_folder req r =
     (let folder = (if trim_space (rq_TargetName req) = [] then path_base (rp_SourceDir r) else trim_space (rq_TargetName req)) in
      if ValidPath folder \<noteq> None \<or> contains folder ''/'' \<or> has_prefix folder ''.''
      then Inl (Errorf ''target folder name must be a plain directory name'') else Inr folder)"

definition inspect_target :: "'w host \<Rightarrow> progress \<Rightarrow> Datastore \<Rightarrow> string \<Rightarrow> string \<Rightarrow> Report \<Rightarrow> ('w, Report) M" where
  "inspect_target h done target mount folder r0 =
     (let dir = path_join [mount, folder];
          r1 = r0\<lparr>rp_TargetDir := dir, rp_TargetVMX := path_join [dir, path_base (rp_SourceVMX r0)], rp_TargetFree := ds_Free target\<rparr>;
          r = (if TargetPath dir then r1
            else check ''Target directory'' StatusBlock ''The target folder must be a direct child of the target datastore'' r1)
      in bind (x_Exists h dir) (\<lambda>exists.
         if exists \<and> \<not> pg_targetCreated done
         then bind (attempt (freeFolder h mount folder)) (\<lambda>free.
           let detail = folder @ '' already exists on the target datastore and is never overwritten.'' @
             (case free of Inl _ \<Rightarrow> [] | Inr f \<Rightarrow> if f = [] then [] else '' '' @ f @ '' is free; enter it as the target folder.'')
           in ret (check ''Target directory'' StatusBlock detail r))
         else ret r))"

definition inspect_place :: "'w host \<Rightarrow> Request \<Rightarrow> progress \<Rightarrow> Inventory \<Rightarrow> Datastore \<Rightarrow> Report \<Rightarrow> ('w, Report) M" where
  "inspect_place h req done iv target r =
     bind (lift (ResolveReference (vm_VMXPath (rp_VM r)) [] (inv_Datastores iv))) (\<lambda>p.
     bind (x_Canonical h p) (\<lambda>vmx.
     let r = r\<lparr>rp_SourceVMX := vmx, rp_SourceDir := path_dir vmx\<rparr>;
         source = (case DatastoreOf vmx (inv_Datastores iv) of Some d \<Rightarrow> d | None \<Rightarrow> zero_Datastore);
         r = source_checks source target r in
     bind (x_Canonical h (path_join [volumes, ds_UUID target])) (\<lambda>mount.
     seq (require (mount = path_join [volumes, ds_UUID target]) (Errorf ''target datastore UUID path is not canonical''))
     (bind (lift (target_folder req r)) (\<lambda>folder.
     inspect_target h done target mount folder r)))))"

definition inspect_power :: "'w host \<Rightarrow> Request \<Rightarrow> Report \<Rightarrow> ('w, Report) M" where
  "inspect_power h req r0 =
     bind (x_Power h (rq_VMID req)) (\<lambda>power.
     let r = r0\<lparr>rp_Power := power\<rparr>;
         r = (if power = Suspended then check ''Power state'' StatusBlock ''Suspended VM is unsupported'' r else r);
         r = (if rq_Live req \<and> power \<noteq> On
           then check ''Keep the VM running'' StatusBlock ''The VM is already off, so there is nothing to keep running during the copy; turn the option off'' r else r)
     in if power = On
        then bind (attempt (x_ToolsRunning h (rq_VMID req))) (\<lambda>running.
          ret (case running of
             Inl _ \<Rightarrow> advised ''VMware Tools'' StatusWarning ''The VMware Tools status could not be read'' (toolsAdvice (rq_Live req)) r
           | Inr False \<Rightarrow> advised ''VMware Tools'' StatusWarning ''VMware Tools is not running in the guest'' (toolsAdvice (rq_Live req)) r
           | Inr True \<Rightarrow> check ''VMware Tools'' StatusOK ''Running; the guest is shut down gracefully'' r))
        else ret r)"

definition autostart_entry :: "(int, AutoStart) gomap \<Rightarrow> int \<Rightarrow> AutoStart" where
  "autostart_entry m i = (case map_of m i of Some a \<Rightarrow> a | None \<Rightarrow> zero_AutoStart)"

definition inspect_autostart :: "'w host \<Rightarrow> Request \<Rightarrow> Report \<Rightarrow> ('w, Report) M" where
  "inspect_autostart h req r =
     (if rq_Mode req = modeMove
      then bind (attempt (x_Autostart h)) (\<lambda>entries.
        ret (case entries of
           Inl _ \<Rightarrow> r
         | Inr m \<Rightarrow>
             let a = autostart_entry m (rq_VMID req) in
             if AutoStart_On a
             then check ''Autostart'' StatusOK ((''In the host'' @ [sq] @ ''s autostart at position '') @ itoa (au_Order a) @
                 ''; turn it on for the migrated VM after the switch'') (r\<lparr>rp_Autostart := au_Order a\<rparr>)
             else r))
      else ret r)"

definition inspect_config :: "'w host \<Rightarrow> string \<Rightarrow> Report \<Rightarrow> ('w, Report) M" where
  "inspect_config h app r =
     bind (x_ReadFile h (rp_SourceVMX r)) (\<lambda>raw.
     bind (lift (vmx_Parse raw)) (\<lambda>cfg.
     let r = r\<lparr>rp_Config := cfg\<rparr>;
         r = fold (check ''VM configuration'' StatusBlock) (Blocks (vmx_Analyze cfg)) r
     in ret (if app \<noteq> [] \<and> sameUUID (lookup0 cfg ''uuid.bios'') app
          then check ''Mover appliance'' StatusBlock ''Migrating the ESXi Mover appliance itself is unsupported'' r else r)))"

definition inspect_vmsd :: "'w host \<Rightarrow> string \<Rightarrow> Report \<Rightarrow> ('w, Report) M" where
  "inspect_vmsd h f r =
     (if equal_fold (path_ext f) ''.vmsd''
      then bind (x_ReadFile h f) (\<lambda>s.
        ret (case VMSD s of
           Some e \<Rightarrow> check ''VMSD metadata'' StatusBlock (err_text e) r
         | None \<Rightarrow> check ''VMSD metadata'' StatusOK ''Empty snapshot metadata'' r))
      else ret r)"

text \<open>Every signal of a snapshot but the disks themselves. The listing is returned for later.\<close>

definition inspect_snapshots :: "'w host \<Rightarrow> Request \<Rightarrow> Report \<Rightarrow> ('w, Report \<times> string list) M" where
  "inspect_snapshots h req r0 =
     bind (x_Snapshot h (rq_VMID req)) (\<lambda>snap.
     let r1 = (case SnapshotManager snap of
         Some e \<Rightarrow> check ''Snapshot Manager'' StatusBlock (err_text e) r0
       | None \<Rightarrow> check ''Snapshot Manager'' StatusOK ''No snapshot tree reported'' r0) in
     bind (x_List h (rp_SourceDir r1)) (\<lambda>files.
     let name = SnapshotArtifact files;
         r2 = (if name \<noteq> []
           then (case artifactAdvice r1 (rp_SourceDir r1) name files of (detail, adv) \<Rightarrow>
             advised ''Snapshot artifacts'' StatusBlock detail adv r1)
           else check ''Snapshot artifacts'' StatusOK ''No delta, seSparse, numbered snapshot or suspend files'' r1) in
     bind (foldM (inspect_vmsd h) files r2) (\<lambda>r.
     ret (r, files))))"

section \<open>The disks\<close>

text \<open>What the loop over the disks keeps beside the report.\<close>

record Disks_State =
  dl_report :: Report
  dl_replacements :: "(string, string) gomap"
  dl_backings :: "string list"
  dl_destNames :: "string list"
  dl_fingerprints :: "string list"
  dl_misplaced :: "string list"
  dl_outside :: "(string, string list) gomap"
  dl_renamed :: bool

definition on_report :: "(Report \<Rightarrow> Report) \<Rightarrow> Disks_State \<Rightarrow> Disks_State" where
  "on_report f s = s\<lparr>dl_report := f (dl_report s)\<rparr>"

text \<open>Where a disk lies, and whether it was brought in from outside the VM folder.\<close>

definition locate_disk :: "'w host \<Rightarrow> Request \<Rightarrow> string \<Rightarrow> Datastore list \<Rightarrow> string \<Rightarrow> ('w, (string \<times> bool) result) M" where
  "locate_disk h req dir ds file =
     bind (attempt (x_localFile h file dir ds)) (\<lambda>l.
     (case l of
        Inr p \<Rightarrow> ret (Inr (p, False))
      | Inl e \<Rightarrow>
          if rq_BringDisks req
          then bind (attempt (x_externalFile h file dir ds)) (\<lambda>x.
            ret (case x of Inr p \<Rightarrow> Inr (p, True) | Inl xe \<Rightarrow> Inl xe))
          else ret (Inl e)))"

text \<open>A disk from another folder: its name in the target folder, and the warning.\<close>

definition bring_disk :: "Request \<Rightarrow> DiskRef \<Rightarrow> string \<Rightarrow> string list \<Rightarrow> Disks_State \<Rightarrow> string \<times> Disks_State" where
  "bring_disk req ref src sourceNames s =
     (let name = freeName (path_base src) (sourceNames @ dl_destNames s);
          dir = path_dir src;
          known = (case map_of (dl_outside s) dir of Some ps \<Rightarrow> ps | None \<Rightarrow> []);
          moved = (name \<noteq> path_base src);
          why = ''Experimental. The original is only read and stays where it is. After the migration nothing registered uses it any more; it keeps its space until you delete it.'' @
            (if rq_Live req then '' While the VM runs, its changes to this disk go into a snapshot delta next to the original, so that datastore needs free space too.'' else [])
      in (name, on_report (advised ''Disks from other folders'' StatusWarning
            (trim_suffix (dr_Key ref) ''.filename'' @ '': '' @ dr_File ref @ '' is copied into the target folder'' @
             (if moved then '' as '' @ name else []))
            (advise ''A disk is brought in from another folder'' why
              [say ''Delete the original only after the migrated VM is verified.'']))
          (s\<lparr>dl_outside := put (dl_outside s) dir (known @ [src]), dl_renamed := (dl_renamed s \<or> moved)\<rparr>)))"

definition extent_name :: "string \<Rightarrow> string" where
  "extent_name name = trim_suffix name (path_ext name) @ ''-flat.vmdk''"

definition place_disk :: "Request \<Rightarrow> DiskRef \<Rightarrow> string \<Rightarrow> bool \<Rightarrow> string list \<Rightarrow> Disks_State \<Rightarrow> string \<times> Disks_State" where
  "place_disk req ref src external sourceNames s0 =
     (let s1 = (if src \<in> set (dl_backings s0)
            then on_report (check ''Shared VMDK'' StatusBlock ''Multiple devices reference the same disk'') s0 else s0);
          s2 = s1\<lparr>dl_backings := src # dl_backings s1\<rparr>;
          (name, s3) = (if external then bring_disk req ref src sourceNames s2 else (path_base src, s2));
          s4 = (if name \<in> set (dl_destNames s3) \<or> extent_name name \<in> set (dl_destNames s3)
            then on_report (check ''Target filename'' StatusBlock ''Target filename collision'') s3 else s3)
      in (name, s4\<lparr>dl_destNames := extent_name name # name # dl_destNames s4\<rparr>))"

text \<open>The descriptor, or the check that rejects it.\<close>

definition read_descriptor :: "'w host \<Rightarrow> string \<Rightarrow> ('w, (string \<times> Descriptor) result) M" where
  "read_descriptor h src =
     bind (attempt (x_ReadFile h src)) (\<lambda>read.
     ret (case read of
        Inl _ \<Rightarrow> Inl (Errorf ''Unreadable descriptor'')
      | Inr text \<Rightarrow> and_then (vmdk_Parse text) (\<lambda>d. Inr (text, d))))"

definition add_disk :: "DiskRef \<Rightarrow> Disk \<Rightarrow> string \<Rightarrow> string \<Rightarrow> Disks_State \<Rightarrow> Disks_State result" where
  "add_disk ref disk text name s =
     (let r = (dl_report s)\<lparr>rp_Disks := rp_Disks (dl_report s) @ [disk]\<rparr> in
      if rp_Provisioned r > max_int64 - dk_Provisioned disk then Inl (Errorf ''capacity overflow'')
      else Inr (s\<lparr>dl_report := r\<lparr>rp_Provisioned := rp_Provisioned r + dk_Provisioned disk,
                                  rp_Allocated := rp_Allocated r + dk_Allocated disk\<rparr>,
          dl_replacements := put (dl_replacements s) (dr_Key ref) name,
          dl_fingerprints := dl_fingerprints s @ [dk_Source disk @ [nl] @ text @ [nl] @ dk_Extent disk @ [nl] @ name]\<rparr>))"

definition measure_disk :: "'w host \<Rightarrow> DiskRef \<Rightarrow> string \<Rightarrow> string \<Rightarrow> bool \<Rightarrow> string \<Rightarrow> Descriptor \<Rightarrow> string \<Rightarrow> Disks_State \<Rightarrow>
    ('w, Disks_State) M" where
  "measure_disk h ref src name external text desc extent s0 =
     (let s1 = (if extent \<in> set (dl_backings s0)
            then on_report (check ''Shared extent'' StatusBlock ''Multiple disks share the same extent'') s0 else s0);
          s2 = s1\<lparr>dl_backings := extent # dl_backings s1\<rparr>
      in bind (attempt (x_Size h extent)) (\<lambda>size.
         let s3 = (if size \<noteq> Inr (Bytes desc)
           then on_report (check ''Disk extent'' StatusBlock ''Extent is missing or its logical capacity differs from the descriptor'') s2
           else s2) in
         bind (attempt (x_Allocated h extent)) (\<lambda>allocated.
         let known = (case allocated of Inl _ \<Rightarrow> False | Inr n \<Rightarrow> n \<le> Bytes desc \<and> 0 \<le> n);
             disk = \<lparr>dk_Key = dr_Key ref, dk_Source = src, dk_Target = path_join [rp_TargetDir (dl_report s3), name],
               dk_Extent = extent, dk_Provisioned = Bytes desc,
               dk_Allocated = (case allocated of Inr n \<Rightarrow> if known then n else Bytes desc | Inl _ \<Rightarrow> Bytes desc),
               dk_AllocationKnown = known, dk_Thin = Thin desc, dk_Descriptor = desc, dk_External = external\<rparr> in
         bind (lift (add_disk ref disk text name s3)) (\<lambda>s4.
         if rp_Power (dl_report s4) = Off
         then bind (attempt (x_VerifyChain h src)) (\<lambda>chain.
           ret (case chain of
              Inl e \<Rightarrow> on_report (check ''Source disk chain'' StatusBlock (err_text e)) s4
            | Inr _ \<Rightarrow> s4))
         else ret s4))))"

definition inspect_descriptor :: "'w host \<Rightarrow> Datastore list \<Rightarrow> DiskRef \<Rightarrow> string \<Rightarrow> string \<Rightarrow> bool \<Rightarrow> Disks_State \<Rightarrow>
    ('w, Disks_State) M" where
  "inspect_descriptor h ds ref src name external s0 =
     bind (read_descriptor h src) (\<lambda>read.
     (case read of
        Inl e \<Rightarrow> ret (on_report (check ''VMDK descriptor'' StatusBlock (err_text e)) s0)
      | Inr (text, desc) \<Rightarrow>
          (let s1 = (case DiskSnapshot src desc of
              Some e \<Rightarrow> on_report (check ''Active snapshot chain'' StatusBlock (err_text e)) s0 | None \<Rightarrow> s0)
           in (case Standalone desc of
              Some e \<Rightarrow> ret (on_report (check ''VMDK format'' StatusBlock (err_text e)) s1)
            | None \<Rightarrow>
                bind (attempt (x_localFile h (File (Extents desc ! 0)) (path_dir src) ds)) (\<lambda>extent.
                (case extent of
                   Inl e \<Rightarrow> ret (on_report (check ''Disk extent'' StatusBlock (err_text e)) s1)
                 | Inr ex \<Rightarrow> measure_disk h ref src name external text desc ex s1))))))"

definition inspect_disk :: "'w host \<Rightarrow> Request \<Rightarrow> Datastore list \<Rightarrow> string list \<Rightarrow> DiskRef \<Rightarrow> Disks_State \<Rightarrow> ('w, Disks_State) M" where
  "inspect_disk h req ds files ref s0 =
     bind (locate_disk h req (rp_SourceDir (dl_report s0)) ds (dr_File ref)) (\<lambda>place.
     (case place of
        Inl e \<Rightarrow>
          (case diskLocationAdvice (dl_report s0) ref e ds files of (detail, adv) \<Rightarrow>
             ret (on_report (advised ''VMDK location'' StatusBlock detail adv)
               (s0\<lparr>dl_misplaced := dr_Key ref # dl_misplaced s0\<rparr>)))
      | Inr (src, external) \<Rightarrow>
          (case place_disk req ref src external (map path_base files) s0 of (name, s1) \<Rightarrow>
             inspect_descriptor h ds ref src name external s1)))"

definition disks_start :: "Report \<Rightarrow> Disks_State" where
  "disks_start r = \<lparr>dl_report = r, dl_replacements = [], dl_backings = [], dl_destNames = [path_base (rp_SourceVMX r)],
     dl_fingerprints = [], dl_misplaced = [], dl_outside = [], dl_renamed = False\<rparr>"

definition inspect_disks :: "'w host \<Rightarrow> Request \<Rightarrow> Datastore list \<Rightarrow> string list \<Rightarrow> Report \<Rightarrow> ('w, Disks_State) M" where
  "inspect_disks h req ds files r =
     bind (foldM (inspect_disk h req ds files) (Disks (vmx_Analyze (rp_Config r))) (disks_start r)) (\<lambda>s.
     ret (if rp_Disks (dl_report s) = [] then on_report (check ''Disks'' StatusBlock ''No safe disks found'') s else s))"

definition inspect_outside :: "'w host \<Rightarrow> Request \<Rightarrow> Datastore list \<Rightarrow> Disks_State \<Rightarrow> ('w, Disks_State) M" where
  "inspect_outside h req ds s0 =
     (if dl_outside s0 = [] then ret s0
      else
       (let s = (if rq_Live req \<and> dl_renamed s0
          then on_report (check ''Disks from other folders'' StatusBlock ''A disk from another folder is renamed in the target folder, which keeping the VM running during the copy does not support'') s0
          else s0)
        in bind (foldM (\<lambda>d r. inspectFolder h d (case map_of (dl_outside s) d of Some ps \<Rightarrow> ps | None \<Rightarrow> []) ds r)
             (sort (keys (dl_outside s))) (dl_report s)) (\<lambda>r.
           ret (s\<lparr>dl_report := r\<rparr>))))"

section \<open>Configuration files and references\<close>

definition inspect_config_file :: "'w host \<Rightarrow> (string \<Rightarrow> XmlToken list \<times> bool) \<Rightarrow> Datastore list \<Rightarrow> string \<Rightarrow> Disks_State \<Rightarrow>
    ('w, Disks_State) M" where
  "inspect_config_file h xml ds key s0 =
     (let r = dl_report s0; ref = lookup0 (rp_Config r) key;
          reject = (\<lambda>name detail s. ret (on_report (check name StatusBlock detail) s)) in
      if ref = [] then ret s0
      else bind (attempt (x_localFile h ref (rp_SourceDir r) ds)) (\<lambda>file.
        (case file of
           Inl e \<Rightarrow> reject ''Configuration files'' (err_text e) s0
         | Inr src \<Rightarrow>
             let ext = to_lower (path_ext src) in
             if (key = ''nvram'' \<and> ext \<noteq> ''.nvram'') \<or> (key = ''extendedconfigfile'' \<and> ext \<noteq> ''.vmxf'')
             then reject ''Configuration files'' ''Unexpected configuration file extension'' s0
             else
              (let s1 = (if path_base src \<in> set (dl_destNames s0)
                  then on_report (check ''Configuration files'' StatusBlock ''Target configuration name collision'') s0 else s0);
                   s2 = s1\<lparr>dl_destNames := path_base src # dl_destNames s1\<rparr>
               in bind (attempt (x_ReadFile h src)) (\<lambda>read.
                 (case read of
                    Inl _ \<Rightarrow> reject ''Configuration files'' ''Configuration file cannot be read'' s2
                  | Inr metadata \<Rightarrow>
                      (case (if key = ''extendedconfigfile''
                             then ValidateVMXF xml metadata (path_base (rp_SourceVMX (dl_report s2))) else None) of
                         Some e \<Rightarrow> reject ''VMXF metadata'' (err_text e) s2
                       | None \<Rightarrow>
                           ret (on_report (\<lambda>r. r\<lparr>rp_ConfigFiles := rp_ConfigFiles r @
                               [\<lparr>cf_Key = key, cf_Source = src, cf_Name = path_base src\<rparr>]\<rparr>)
                             (s2\<lparr>dl_replacements := put (dl_replacements s2) key (path_base src)\<rparr>)))))))))"

definition inspect_iso :: "Datastore list \<Rightarrow> Reference \<Rightarrow> Disks_State \<Rightarrow> Disks_State" where
  "inspect_iso ds ref s =
     (if ref_Kind ref \<noteq> ''ISO'' then s
      else (case ResolveReference (ref_File ref) (rp_SourceDir (dl_report s)) ds of
          Inl e \<Rightarrow> on_report (check ''ISO reference'' StatusBlock (err_text e)) s
        | Inr full \<Rightarrow> on_report (check ''External ISO'' StatusWarning (full @ '' remains on its existing datastore''))
            (s\<lparr>dl_replacements := put (dl_replacements s) (ref_Key ref) full\<rparr>)))"

definition known_path_keys :: "string list" where
  "known_path_keys = [''sched.swap.derivedname'', ''workingdir'', ''snapshot.directory'', ''checkpoint.vmstate'',
     ''migrate.hostlog'', ''log.filename'']"

definition inspect_path :: "string \<times> string \<Rightarrow> Disks_State \<Rightarrow> Disks_State" where
  "inspect_path kv s = (case kv of (k, v) \<Rightarrow>
     (if has_key (dl_replacements s) k \<or> k \<in> set (dl_misplaced s) then s
      else if (contains v ''/vmfs/'' \<or> has_prefix v ''['') \<and> k \<notin> set known_path_keys
      then on_report (check ''External configuration reference'' StatusBlock (''Unclassified datastore path in '' @ k)) s
      else s))"

section \<open>The verdict\<close>

definition inspect_shared :: "'w host \<Rightarrow> Inventory \<Rightarrow> Disks_State \<Rightarrow> ('w, Disks_State) M" where
  "inspect_shared h iv s =
     bind (attempt (sharedCheck h iv (vm_ID (rp_VM (dl_report s))) (dl_backings s))) (\<lambda>ok.
     ret (on_report (case ok of
         Inl e \<Rightarrow> check ''Shared disk inventory'' StatusBlock (err_text e)
       | Inr _ \<Rightarrow> check ''Shared disk inventory'' StatusOK ''No other registered VM references the disk or extent'') s))"

text \<open>\<open>uuid.action\<close>: a MOVE keeps the identity, a COPY must not.\<close>

definition target_config :: "Request \<Rightarrow> config \<Rightarrow> config" where
  "target_config req c = (if rq_Mode req = modeMove then put c ''uuid.action'' ''keep'' else del c ''uuid.action'')"

definition fingerprint :: "Report \<Rightarrow> string list \<Rightarrow> string" where
  "fingerprint r prints = sha256_hex (rp_SourceVMX r @ [nl] @ vmx_String (stableConfig (rp_Config r)) @ [nl] @ join [nl] (sort prints))"

definition space_check :: "int \<Rightarrow> Report \<Rightarrow> Report" where
  "space_check full r =
     (if rp_TargetFree r < rp_Required r
      then check ''Free space'' StatusBlock ''Insufficient free space for allocated capacity + 15% + 1 GiB'' r
      else if rp_TargetFree r < full
      then check ''Free space'' StatusWarning ''Enough for the thin clone, but the target cannot hold these disks once they grow to their full provisioned size'' r
      else check ''Free space'' StatusOK ''Reserved estimate uses allocated capacity + 15% + 1 GiB'' r)"

definition source_space_check :: "Datastore list \<Rightarrow> Report \<Rightarrow> Report" where
  "source_space_check ds r =
     (case deltaFree ds (deltaPlaces r) of
        Inl e \<Rightarrow> check ''Source free space'' StatusBlock (err_text e) r
      | Inr free \<Rightarrow>
          (case requireLiveSourceSpace free of
             Some e \<Rightarrow> check ''Source free space'' StatusBlock (err_text e) r
           | None \<Rightarrow>
               if free < rp_Provisioned r div 10 + minLiveSourceFree
               then check ''Source free space'' StatusWarning ''Little room on the source datastore for changes written during the copy; a full datastore stops the VM'' r
               else r))"

definition verdict :: "Request \<Rightarrow> Report \<Rightarrow> Report" where
  "verdict req r =
     (if rp_Ready r
      then check ''Migration'' StatusOK (''Ready for a fresh preflight and '' @
        (if rq_Live req then ''migration that shuts down only at the end (experimental)'' else ''cold migration'')) r
      else r)"

definition conclude :: "Request \<Rightarrow> progress \<Rightarrow> Datastore list \<Rightarrow> Disks_State \<Rightarrow> Report result" where
  "conclude req done ds s =
     and_then (vmx_Rewrite (rp_Config (dl_report s)) (dl_replacements s)) (\<lambda>c.
     let r = (dl_report s)\<lparr>rp_TargetConfig := target_config req c\<rparr>;
         r = r\<lparr>rp_Fingerprint := fingerprint r (dl_fingerprints s)\<rparr> in
     and_then (reserve (max 0 (rp_Allocated r - pg_consumed done))) (\<lambda>required.
     let r = r\<lparr>rp_Required := required\<rparr> in
     and_then (reserve (max 0 (rp_Provisioned r - pg_consumed done))) (\<lambda>full.
     let r = space_check full r;
         r = (if rq_Live req then source_space_check ds r else r)
     in Inr (verdict req r))))"

definition inspect_rest :: "'w host \<Rightarrow> (string \<Rightarrow> XmlToken list \<times> bool) \<Rightarrow> string \<Rightarrow> Request \<Rightarrow> progress \<Rightarrow> Inventory \<Rightarrow> Report \<Rightarrow>
    ('w, Report) M" where
  "inspect_rest h xml app req done iv r0 =
     bind (inspect_power h req r0) (\<lambda>r1.
     bind (inspect_autostart h req r1) (\<lambda>r2.
     bind (inspect_config h app r2) (\<lambda>r3.
     bind (inspect_snapshots h req r3) (\<lambda>(r4, files).
     bind (inspect_disks h req (inv_Datastores iv) files r4) (\<lambda>s1.
     bind (inspect_outside h req (inv_Datastores iv) s1) (\<lambda>s2.
     bind (foldM (inspect_config_file h xml (inv_Datastores iv)) [''nvram'', ''extendedconfigfile''] s2) (\<lambda>s3.
     let s4 = fold (inspect_iso (inv_Datastores iv)) (References (vmx_Analyze (rp_Config (dl_report s3)))) s3;
         s5 = fold inspect_path (rp_Config (dl_report s4)) s4 in
     bind (inspect_shared h iv s5) (\<lambda>s6.
     lift (conclude req done (inv_Datastores iv) s6)))))))))"

definition inspect :: "'w host \<Rightarrow> (string \<Rightarrow> XmlToken list \<times> bool) \<Rightarrow> string \<Rightarrow> Request \<Rightarrow> string \<Rightarrow> progress \<Rightarrow> ('w, Report) M" where
  "inspect h xml app req i done =
     (let r0 = (zero_Report i req)\<lparr>rp_Ready := True\<rparr> in
      seq (lift_opt (validateRequest req))
      (bind (x_Inventory h) (\<lambda>iv.
       let r1 = check_host iv done r0 in
       (case find_last (\<lambda>v. vm_ID v = rq_VMID req) (inv_VMs iv) of
          None \<Rightarrow> fail (Errorf ''selected VM no longer exists'')
        | Some vm \<Rightarrow>
            let r2 = r1\<lparr>rp_VM := vm\<rparr>;
                target = (case find_last (\<lambda>d. ds_UUID d = rq_TargetUUID req) (inv_Datastores iv) of
                    Some d \<Rightarrow> d | None \<Rightarrow> zero_Datastore)
            in if \<not> Usable target
               then ret (check ''Target datastore'' StatusBlock ''Target must be a mounted VMFS-5 or VMFS-6 datastore'' r2)
               else bind (inspect_place h req done iv target r2) (inspect_rest h xml app req done iv)))))"

text \<open>\<open>Analyze\<close>: an inspection under a new random ID, before anything was done.\<close>

definition Analyze :: "'w host \<Rightarrow> (string \<Rightarrow> XmlToken list \<times> bool) \<Rightarrow> string \<Rightarrow> string \<Rightarrow> Request \<Rightarrow> ('w, Report) M" where
  "Analyze h xml app new_id req = inspect h xml app req new_id fresh_start"

section \<open>An inspection only looks\<close>

named_theorems looks \<open>parts of the inspection only read\<close>

lemma looks_search [looks]:
  "quiet is_read (x_localFile h f d ds)" "quiet is_read (x_externalFile h f d ds)"
  unfolding x_localFile_def x_externalFile_def by (intro quiet_intros quiet_x)+

lemma looks_freeFolder [looks]: "quiet is_read (freeFolder h m d)"
proof -
  have "quiet is_read (x_freeFolder h m d ns)" for ns
    by (induction ns) (simp_all add: Let_def quiet_intros quiet_x)
  then show ?thesis unfolding freeFolder_def .
qed

lemma looks_vmxUses [looks]: "quiet is_read (vmxUses h f d ds)"
proof -
  have "quiet is_read (vmxUses_entries h f d ds c)" for c
    by (induction c) (auto simp: quiet_intros quiet_x)
  then show ?thesis by (simp add: vmxUses_def quiet_intros quiet_x)
qed

lemma looks_inspectFolder [looks]: "quiet is_read (inspectFolder h d ps ds r)"
proof -
  have "quiet is_read (inspect_file h d ps ds fs f st)" for fs f st
    unfolding inspect_file_def Let_def by (intro quiet_intros looks)+
  then show ?thesis unfolding inspectFolder_def Let_def by (intro quiet_intros quiet_x)
qed

lemma looks_otherChain [looks]: "quiet is_read (otherChain n h d ds b desc)"
proof -
  have e: "quiet is_read (chain_extents h d ds b es)" for es
    by (induction es) (auto intro!: quiet_intros quiet_x)
  show ?thesis
    by (induction n arbitrary: desc) (auto intro!: quiet_intros quiet_x e)
qed

lemma looks_sharedCheck [looks]: "quiet is_read (sharedCheck h iv i b)"
proof -
  have e: "quiet is_read (shared_entries h p ds b c)" for p ds c
    by (induction c) (auto intro!: quiet_intros quiet_x looks)
  have "quiet is_read (shared_vm h ds i b v)" for ds v
    unfolding shared_vm_def by (intro quiet_intros quiet_x e)+
  then show ?thesis by (simp add: sharedCheck_def quiet_each)
qed

lemma looks_parts [looks]:
  "quiet is_read (inspect_target h done target mount folder r)"
  "quiet is_read (inspect_power h req r)" "quiet is_read (inspect_autostart h req r)" "quiet is_read (inspect_config h app r)"
  unfolding inspect_target_def inspect_power_def inspect_autostart_def inspect_config_def Let_def
  by (intro quiet_intros quiet_x looks)+

lemma looks_place [looks]: "quiet is_read (inspect_place h req done iv target r)"
  unfolding inspect_place_def Let_def by (intro quiet_intros quiet_x looks)+

lemma looks_snapshots [looks]: "quiet is_read (inspect_snapshots h req r)"
  unfolding inspect_snapshots_def inspect_vmsd_def Let_def by (intro quiet_intros quiet_x)+

lemma looks_disk [looks]: "quiet is_read (inspect_disk h req ds files ref s)"
  unfolding inspect_disk_def locate_disk_def inspect_descriptor_def read_descriptor_def measure_disk_def Let_def
  by (intro quiet_intros quiet_x looks)+

lemma looks_rest [looks]:
  "quiet is_read (inspect_disks h req ds files r)" "quiet is_read (inspect_outside h req ds s)"
  "quiet is_read (inspect_config_file h xml ds key s)" "quiet is_read (inspect_shared h iv s)"
  unfolding inspect_disks_def inspect_outside_def inspect_config_file_def inspect_shared_def Let_def
  by (intro quiet_intros quiet_x looks)+

lemma looks_inspect [looks]: "quiet is_read (inspect h xml app req i done)"
  unfolding inspect_def inspect_rest_def Let_def by (intro quiet_intros quiet_x looks)+

section \<open>What a report says\<close>

text \<open>
  The disks a report plans: in a ready report no file backs two of them, be it as descriptor or
  as extent, and no two get the same name in the target folder.
\<close>

definition files_of :: "Report \<Rightarrow> string list" where
  "files_of r = map dk_Source (rp_Disks r) @ map dk_Extent (rp_Disks r)"

definition named :: "Report \<Rightarrow> string list \<Rightarrow> bool" where
  "named r ns = (map dk_Target (rp_Disks r) = map (\<lambda>n. path_join [rp_TargetDir r, n]) ns)"

text \<open>What every step of the inspection keeps of the report.\<close>

definition report_ok :: "Request \<Rightarrow> string \<Rightarrow> Report \<Rightarrow> bool" where
  "report_ok req i r = (ready_iff r \<and> rp_Request r = req \<and> rp_ID r = i \<and> vm_ID (rp_VM r) = rq_VMID req)"

definition disks_ok :: "Request \<Rightarrow> string \<Rightarrow> Disks_State \<Rightarrow> bool" where
  "disks_ok req i s = (report_ok req i (dl_report s) \<and>
     (rp_Ready (dl_report s) \<longrightarrow>
        distinct (files_of (dl_report s)) \<and> set (files_of (dl_report s)) \<subseteq> set (dl_backings s) \<and>
        (\<exists>ns. named (dl_report s) ns \<and> distinct ns \<and> set ns \<subseteq> set (dl_destNames s))))"

lemma report_ok_check [simp]: "report_ok req i r \<Longrightarrow> report_ok req i (check n st d r)"
  and report_ok_advised [simp]: "report_ok req i r \<Longrightarrow> report_ok req i (advised n st d a r)"
  by (simp_all add: report_ok_def check_ready_iff advised_ready_iff)

lemma files_of_simps [simp]:
  "files_of (check n st d r) = files_of r" "files_of (advised n st d a r) = files_of r"
  "named (check n st d r) = named r" "named (advised n st d a r) = named r"
  by (simp_all add: files_of_def named_def fun_eq_iff)

lemma on_report_simps [simp]:
  "dl_report (on_report f s) = f (dl_report s)" "dl_backings (on_report f s) = dl_backings s"
  "dl_destNames (on_report f s) = dl_destNames s" "dl_replacements (on_report f s) = dl_replacements s"
  by (simp_all add: on_report_def)

lemma disks_ok_check [simp]: "disks_ok req i s \<Longrightarrow> disks_ok req i (on_report (check n st d) s)"
  and disks_ok_advised [simp]: "disks_ok req i s \<Longrightarrow> disks_ok req i (on_report (advised n st d a) s)"
  by (auto simp: disks_ok_def advised_ready)

lemma report_ok_fields [simp]:
  "report_ok req i (r\<lparr>rp_Power := x\<rparr>) = report_ok req i r" "report_ok req i (r\<lparr>rp_Autostart := n\<rparr>) = report_ok req i r"
  "report_ok req i (r\<lparr>rp_Config := c\<rparr>) = report_ok req i r" "report_ok req i (r\<lparr>rp_TargetConfig := c\<rparr>) = report_ok req i r"
  "report_ok req i (r\<lparr>rp_Fingerprint := y\<rparr>) = report_ok req i r" "report_ok req i (r\<lparr>rp_Required := n\<rparr>) = report_ok req i r"
  "report_ok req i (r\<lparr>rp_SourceVMX := y\<rparr>) = report_ok req i r" "report_ok req i (r\<lparr>rp_SourceDir := y\<rparr>) = report_ok req i r"
  "report_ok req i (r\<lparr>rp_SourceDatastore := y\<rparr>) = report_ok req i r" "report_ok req i (r\<lparr>rp_TargetDir := y\<rparr>) = report_ok req i r"
  "report_ok req i (r\<lparr>rp_TargetVMX := y\<rparr>) = report_ok req i r" "report_ok req i (r\<lparr>rp_TargetFree := n\<rparr>) = report_ok req i r"
  "report_ok req i (r\<lparr>rp_Disks := ds\<rparr>) = report_ok req i r" "report_ok req i (r\<lparr>rp_Provisioned := n\<rparr>) = report_ok req i r"
  "report_ok req i (r\<lparr>rp_Allocated := n\<rparr>) = report_ok req i r" "report_ok req i (r\<lparr>rp_ConfigFiles := cs\<rparr>) = report_ok req i r"
  by (simp_all add: report_ok_def ready_iff_def no_block_def)

text \<open>A disk that was given its place but not yet entered.\<close>

definition placed :: "Request \<Rightarrow> string \<Rightarrow> string \<Rightarrow> string \<Rightarrow> Disks_State \<Rightarrow> bool" where
  "placed req i src name s = (report_ok req i (dl_report s) \<and>
     (rp_Ready (dl_report s) \<longrightarrow>
        distinct (files_of (dl_report s)) \<and> set (files_of (dl_report s)) \<subseteq> set (dl_backings s) - {src} \<and> src \<in> set (dl_backings s) \<and>
        (\<exists>ns. named (dl_report s) ns \<and> distinct ns \<and> set ns \<subseteq> set (dl_destNames s) - {name}) \<and> name \<in> set (dl_destNames s)))"

lemma placed_check [simp]: "placed req i src name s \<Longrightarrow> placed req i src name (on_report (check n st d) s)"
  by (auto simp: placed_def)

lemma placed_disks_ok: "placed req i src name s \<Longrightarrow> disks_ok req i s"
  by (auto simp: placed_def disks_ok_def)

lemma bring_disk_simps:
  "dl_backings (snd (bring_disk req ref src names s)) = dl_backings s"
  "dl_destNames (snd (bring_disk req ref src names s)) = dl_destNames s"
  "\<exists>n d a. dl_report (snd (bring_disk req ref src names s)) = advised n StatusWarning d a (dl_report s)"
  by (auto simp: bring_disk_def Let_def)

lemma place_disk_placed:
  assumes "disks_ok req i s0" and "place_disk req ref src external names s0 = (name, s)"
  shows "placed req i src name s"
proof -
  define s1 where "s1 = (if src \<in> set (dl_backings s0)
      then on_report (check ''Shared VMDK'' StatusBlock ''Multiple devices reference the same disk'') s0 else s0)"
  define s2 where "s2 = s1\<lparr>dl_backings := src # dl_backings s1\<rparr>"
  define q where "q = (if external then bring_disk req ref src names s2 else (path_base src, s2))"
  obtain name' s3 where q: "q = (name', s3)" by (cases q)
  define s4 where "s4 = (if name' \<in> set (dl_destNames s3) \<or> extent_name name' \<in> set (dl_destNames s3)
      then on_report (check ''Target filename'' StatusBlock ''Target filename collision'') s3 else s3)"
  have s: "name = name'" "s = s4\<lparr>dl_destNames := extent_name name # name # dl_destNames s4\<rparr>"
    using assms(2) q unfolding place_disk_def s1_def s2_def q_def s4_def Let_def by auto
  have s2ok: "report_ok req i (dl_report s2)" "rp_Ready (dl_report s2) \<Longrightarrow> rp_Ready (dl_report s0) \<and> src \<notin> set (dl_backings s0)"
    "files_of (dl_report s2) = files_of (dl_report s0)" "named (dl_report s2) = named (dl_report s0)"
    "dl_backings s2 = src # dl_backings s0" "dl_destNames s2 = dl_destNames s0"
    using assms(1) by (auto simp: s1_def s2_def disks_ok_def split: if_splits)
  have b: "dl_backings s3 = dl_backings s2" "dl_destNames s3 = dl_destNames s2"
    "dl_report s3 = dl_report s2 \<or> (\<exists>n d a. dl_report s3 = advised n StatusWarning d a (dl_report s2))"
    using q bring_disk_simps [of req ref src names s2] unfolding q_def by (auto split: if_splits)
  then have s3: "report_ok req i (dl_report s3)" "rp_Ready (dl_report s3) \<Longrightarrow> rp_Ready (dl_report s2)"
    "files_of (dl_report s3) = files_of (dl_report s0)" "named (dl_report s3) = named (dl_report s0)"
    using s2ok by (auto simp: advised_ready)
  show ?thesis
  proof -
    have "placed req i src name (s3\<lparr>dl_destNames := extent_name name # name # dl_destNames s3\<rparr>)"
      if "name \<notin> set (dl_destNames s3)"
      using that assms(1) s2ok s3 b unfolding placed_def disks_ok_def by auto
    moreover have "report_ok req i (check n st d (dl_report s3))" for n st d using s3 by simp
    ultimately show ?thesis
      unfolding s(2) s4_def s(1) by (auto simp: placed_def)
  qed
qed

lemma add_disk_ok:
  assumes "placed req i (dk_Source disk) name s" and "add_disk ref disk text name s = Inr s'"
    and "dk_Target disk = path_join [rp_TargetDir (dl_report s), name]"
    and "rp_Ready (dl_report s) \<Longrightarrow> dk_Extent disk \<notin> set (files_of (dl_report s)) \<and> dk_Extent disk \<noteq> dk_Source disk \<and>
      dk_Extent disk \<in> set (dl_backings s)"
  shows "disks_ok req i s'"
proof -
  let ?r = "dl_report s"
  have s': "report_ok req i (dl_report s') = report_ok req i ?r" "rp_Ready (dl_report s') = rp_Ready ?r"
    "rp_Disks (dl_report s') = rp_Disks ?r @ [disk]" "rp_TargetDir (dl_report s') = rp_TargetDir ?r"
    "dl_backings s' = dl_backings s" "dl_destNames s' = dl_destNames s"
    using assms(2) by (auto simp: add_disk_def Let_def split: if_splits)
  show ?thesis
    unfolding disks_ok_def s'
  proof (intro conjI impI)
    show "report_ok req i ?r" using assms(1) by (simp add: placed_def)
  next
    assume "rp_Ready ?r"
    with assms(1,4) show "distinct (files_of (dl_report s'))" by (auto simp: files_of_def s' placed_def)
  next
    assume "rp_Ready ?r"
    with assms(1,4) show "set (files_of (dl_report s')) \<subseteq> set (dl_backings s)" by (auto simp: files_of_def s' placed_def)
  next
    assume "rp_Ready ?r"
    with assms(1) obtain ns where "named ?r ns" "distinct ns" "set ns \<subseteq> set (dl_destNames s) - {name}" "name \<in> set (dl_destNames s)"
      unfolding placed_def by blast
    then have "named (dl_report s') (ns @ [name]) \<and> distinct (ns @ [name]) \<and> set (ns @ [name]) \<subseteq> set (dl_destNames s)"
      using assms(3) by (auto simp: named_def s')
    then show "\<exists>ns. named (dl_report s') ns \<and> distinct ns \<and> set ns \<subseteq> set (dl_destNames s)" by blast
  qed
qed

lemma measure_disk_ok:
  assumes "placed req i src name s0"
  shows "gives (disks_ok req i) (measure_disk h ref src name external text desc extent s0)"
proof -
  define s1 where "s1 = (if extent \<in> set (dl_backings s0)
      then on_report (check ''Shared extent'' StatusBlock ''Multiple disks share the same extent'') s0 else s0)"
  define s2 where "s2 = s1\<lparr>dl_backings := extent # dl_backings s1\<rparr>"
  have s2: "placed req i src name s2"
    "rp_Ready (dl_report s2) \<Longrightarrow> extent \<notin> set (files_of (dl_report s2)) \<and> extent \<noteq> src \<and> extent \<in> set (dl_backings s2)"
    using assms by (auto simp: s2_def s1_def placed_def split: if_splits)
  have s3: "placed req i src name (if b then on_report (check n st d) s2 else s2)"
    "rp_Ready (dl_report (if b then on_report (check n st d) s2 else s2)) \<Longrightarrow>
      extent \<notin> set (files_of (dl_report (if b then on_report (check n st d) s2 else s2))) \<and> extent \<noteq> src \<and>
      extent \<in> set (dl_backings (if b then on_report (check n st d) s2 else s2))" for b n st d
    using s2 by (auto split: if_splits)
  show ?thesis
    unfolding measure_disk_def Let_def s1_def [symmetric] s2_def [symmetric]
  proof (rule gives_bind_any, rule gives_bind_any, rule gives_bind [where Q = "disks_ok req i"], goal_cases)
    case (1 size allocated)
    show ?case
      by (rule gives_lift, erule add_disk_ok [rotated], unfold Disk.simps, rule refl, erule s3, rule s3)
  next
    case (2 size allocated s4)
    then show ?case by (auto intro!: gives_intros split: sum.splits)
  qed
qed

lemma inspect_disk_ok:
  assumes "disks_ok req i s0"
  shows "gives (disks_ok req i) (inspect_disk h req ds files ref s0)"
proof -
  have d: "gives (disks_ok req i) (inspect_descriptor h ds ref src name external s1)" if "placed req i src name s1" for src name external s1
    unfolding inspect_descriptor_def Let_def
    using that by (auto intro!: gives_intros measure_disk_ok simp: placed_disks_ok split: option.splits)
  show ?thesis
    unfolding inspect_disk_def
  proof (intro gives_intros, goal_cases)
    case (1 place e detail adv)
    from assms show ?case by (simp add: disks_ok_def advised_ready)
  next
    case (2 place y src external name s1)
    from place_disk_placed [OF assms 2(3)] show ?case by (rule d)
  qed
qed

lemma disks_ok_start: "report_ok req i r \<Longrightarrow> rp_Disks r = [] \<Longrightarrow> disks_ok req i (disks_start r)"
  by (auto simp: disks_ok_def disks_start_def files_of_def named_def)

text \<open>From the loop over the disks on, a ready report plans at least one disk.\<close>

definition planned :: "Request \<Rightarrow> string \<Rightarrow> Disks_State \<Rightarrow> bool" where
  "planned req i s = (disks_ok req i s \<and> (rp_Ready (dl_report s) \<longrightarrow> rp_Disks (dl_report s) \<noteq> []))"

lemma planned_check [simp]: "planned req i s \<Longrightarrow> planned req i (on_report (check n st d) s)"
  and planned_advised [simp]: "planned req i s \<Longrightarrow> planned req i (on_report (advised n st d a) s)"
  by (auto simp: planned_def advised_ready)

lemma planned_fields [simp]:
  "planned req i (s\<lparr>dl_replacements := m\<rparr>) = planned req i s"
  "planned req i s \<Longrightarrow> planned req i (s\<lparr>dl_destNames := x # dl_destNames s\<rparr>)"
  "planned req i (on_report (\<lambda>r. r\<lparr>rp_ConfigFiles := f r\<rparr>) s) = planned req i s"
  by (auto simp: planned_def disks_ok_def files_of_def named_def)

lemma inspect_disks_ok:
  assumes "report_ok req i r" and "rp_Disks r = []"
  shows "gives (planned req i) (inspect_disks h req ds files r)"
  unfolding inspect_disks_def
proof (rule gives_bind)
  show "gives (disks_ok req i) (foldM (inspect_disk h req ds files) (Disks (vmx_Analyze (rp_Config r))) (disks_start r))"
    by (rule gives_foldM) (use assms in \<open>auto intro: disks_ok_start inspect_disk_ok\<close>)
qed (auto intro!: gives_ret simp: planned_def)

lemma inspectFolder_keeps:
  assumes "P r" and "\<And>n st d a r. P r \<Longrightarrow> P (advised n st d a r)"
  shows "gives P (inspectFolder h d ps ds r)"
proof -
  have f: "gives (\<lambda>st. P (fst st)) (inspect_file h d ps ds fs f st)" if "P (fst st)" for fs f and st :: "Report \<times> string list"
    using that assms(2) unfolding inspect_file_def Let_def
    by (auto intro!: gives_intros split: prod.splits)
  show ?thesis
    unfolding inspectFolder_def Let_def
    by (rule gives_bind_any, rule gives_bind, rule gives_foldM [where R = "\<lambda>st. P (fst st)"])
      (use assms f in \<open>auto intro!: gives_intros\<close>)
qed

lemma inspect_outside_ok:
  assumes "planned req i s0"
  shows "gives (planned req i) (inspect_outside h req ds s0)"
proof -
  define s where "s = (if rq_Live req \<and> dl_renamed s0
      then on_report (check ''Disks from other folders'' StatusBlock ''A disk from another folder is renamed in the target folder, which keeping the VM running during the copy does not support'') s0
      else s0)"
  have s: "planned req i s" using assms by (simp add: s_def)
  let ?P = "\<lambda>r. planned req i (s\<lparr>dl_report := r\<rparr>)"
  have a: "?P r \<Longrightarrow> ?P (advised n st d a r)" for n st d a r
    using planned_advised [of req i "s\<lparr>dl_report := r\<rparr>" n st d a] by (simp add: on_report_def)
  show ?thesis
    unfolding inspect_outside_def Let_def s_def [symmetric]
  proof (rule gives_if)
    show "gives (planned req i) (ret s0)" using assms by (rule gives_ret)
    show "gives (planned req i) (bind (foldM (\<lambda>d r. inspectFolder h d
        (case map_of (dl_outside s) d of None \<Rightarrow> [] | Some ps \<Rightarrow> ps) ds r) (sort (keys (dl_outside s))) (dl_report s)) (\<lambda>r. ret (s\<lparr>dl_report := r\<rparr>)))"
      by (rule gives_bind, rule gives_foldM [where R = ?P]) (use s a in \<open>auto intro!: gives_ret inspectFolder_keeps\<close>)
  qed
qed

lemma inspect_config_file_ok:
  assumes "planned req i s0"
  shows "gives (planned req i) (inspect_config_file h xml ds key s0)"
  unfolding inspect_config_file_def Let_def
  using assms by (auto intro!: gives_intros split: option.splits)

lemma inspect_iso_ok: "planned req i s \<Longrightarrow> planned req i (fold (inspect_iso ds) refs s)"
  by (induction refs arbitrary: s) (auto simp: inspect_iso_def split: sum.split)

lemma inspect_path_ok: "planned req i s \<Longrightarrow> planned req i (fold inspect_path c s)"
  by (induction c arbitrary: s) (auto simp: inspect_path_def)

text \<open>What a report that an inspection returns satisfies.\<close>

definition reviewed :: "Request \<Rightarrow> string \<Rightarrow> Report \<Rightarrow> bool" where
  "reviewed req i r = (report_ok req i r \<and>
     (rp_Ready r \<longrightarrow> distinct (files_of r) \<and> (\<exists>ns. named r ns \<and> distinct ns) \<and> rp_Disks r \<noteq> [] \<and> rp_Required r \<le> rp_TargetFree r))"

lemma reviewed_check [simp]: "reviewed req i r \<Longrightarrow> reviewed req i (check n st d r)"
  by (auto simp: reviewed_def)

lemma reviewed_space_check:
  assumes "report_ok req i r" and "rp_Ready r \<Longrightarrow> distinct (files_of r) \<and> (\<exists>ns. named r ns \<and> distinct ns) \<and> rp_Disks r \<noteq> []"
  shows "reviewed req i (space_check full r)"
  using assms by (auto simp: space_check_def reviewed_def)

lemma conclude_reviewed:
  assumes "planned req i s" and "conclude req done ds s = Inr r"
  shows "reviewed req i r"
proof -
  let ?r0 = "dl_report s"
  from assms(2) obtain c req' full where r: "r = verdict req (let q = space_check full (?r0\<lparr>rp_TargetConfig := target_config req c,
      rp_Fingerprint := fingerprint (?r0\<lparr>rp_TargetConfig := target_config req c\<rparr>) (dl_fingerprints s), rp_Required := req'\<rparr>)
      in if rq_Live req then source_space_check ds q else q)"
    unfolding conclude_def Let_def by auto
  have "reviewed req i (space_check full (?r0\<lparr>rp_TargetConfig := c', rp_Fingerprint := fp, rp_Required := n\<rparr>))" for c' fp n
    by (rule reviewed_space_check)
      (use assms(1) in \<open>auto simp: planned_def disks_ok_def files_of_def named_def\<close>)
  moreover have "reviewed req i q \<Longrightarrow> reviewed req i (source_space_check ds q)" for q
    by (auto simp: source_space_check_def split: sum.split option.split)
  moreover have "reviewed req i q \<Longrightarrow> reviewed req i (verdict req q)" for q
    by (simp add: verdict_def)
  ultimately show ?thesis unfolding r Let_def by simp
qed

lemma report_ok_fold_check: "report_ok req i r \<Longrightarrow> report_ok req i (fold (check n st) xs r)"
  by (induction xs arbitrary: r) auto

text \<open>The part of the inspection before the disks leaves the list of disks empty.\<close>

definition started :: "Request \<Rightarrow> string \<Rightarrow> Report \<Rightarrow> bool" where
  "started req i r = (report_ok req i r \<and> rp_Disks r = [])"

lemma started_simps [simp]:
  "started req i r \<Longrightarrow> started req i (check n st d r)" "started req i r \<Longrightarrow> started req i (advised n st d a r)"
  "started req i (r\<lparr>rp_Power := x\<rparr>) = started req i r" "started req i (r\<lparr>rp_Autostart := k\<rparr>) = started req i r"
  "started req i (r\<lparr>rp_Config := c\<rparr>) = started req i r" "started req i (r\<lparr>rp_SourceDatastore := y\<rparr>) = started req i r"
  "started req i (r\<lparr>rp_SourceVMX := y\<rparr>) = started req i r" "started req i (r\<lparr>rp_SourceDir := y\<rparr>) = started req i r"
  "started req i (r\<lparr>rp_TargetDir := y\<rparr>) = started req i r" "started req i (r\<lparr>rp_TargetVMX := y\<rparr>) = started req i r"
  "started req i (r\<lparr>rp_TargetFree := k\<rparr>) = started req i r"
  by (simp_all add: started_def)

lemma started_fold: "started req i r \<Longrightarrow> started req i (fold (check n st) xs r)"
  by (induction xs arbitrary: r) auto

lemma started_source: "started req i r \<Longrightarrow> started req i (source_checks source target r)"
  by (simp add: source_checks_def Let_def)

lemma started_target: "started req i r \<Longrightarrow> gives (started req i) (inspect_target h done target mount folder r)"
  unfolding inspect_target_def Let_def
  by (intro gives_bind_any gives_if gives_ret) simp_all

lemma started_place: "started req i r \<Longrightarrow> gives (started req i) (inspect_place h req done iv target r)"
  unfolding inspect_place_def Let_def
  by (intro gives_bind_any gives_seq started_target started_source) simp

lemma started_parts:
  assumes "started req i r"
  shows "gives (started req i) (inspect_power h req r)" and "gives (started req i) (inspect_autostart h req r)"
    and "gives (started req i) (inspect_config h app r)"
  using assms unfolding inspect_power_def inspect_autostart_def inspect_config_def Let_def
  by (auto intro!: gives_intros simp: started_fold split: sum.split bool.split)

lemma started_snapshots: "started req i r \<Longrightarrow> gives (\<lambda>x. started req i (fst x)) (inspect_snapshots h req r)"
  unfolding inspect_snapshots_def Let_def
  by (rule gives_bind_any, rule gives_bind_any, rule gives_bind, rule gives_foldM [where R = "started req i"])
    (auto intro!: gives_intros simp: inspect_vmsd_def split: option.splits prod.splits)

lemma inspect_shared_ok: "planned req i s \<Longrightarrow> gives (planned req i) (inspect_shared h iv s)"
  unfolding inspect_shared_def by (auto intro!: gives_intros split: sum.split)

lemma inspect_config_files_ok:
  "planned req i s \<Longrightarrow> gives (planned req i) (foldM (inspect_config_file h xml ds) ks s)"
  by (rule gives_foldM) (auto intro: inspect_config_file_ok)

lemma inspect_end_ok:
  assumes "planned req i s"
  shows "gives (reviewed req i) (bind (inspect_shared h iv (fold inspect_path c (fold (inspect_iso ds) refs s)))
    (\<lambda>s6. lift (conclude req done ds s6)))"
  by (rule gives_bind [OF inspect_shared_ok]) (use assms in \<open>auto intro: inspect_path_ok inspect_iso_ok gives_lift conclude_reviewed\<close>)

lemma inspect_rest_ok:
  assumes "started req i r"
  shows "gives (reviewed req i) (inspect_rest h xml app req done iv r)"
proof -
  have disks: "started req i r4 \<Longrightarrow> gives (planned req i) (inspect_disks h req ds files r4)" for r4 ds files
    by (rule inspect_disks_ok) (simp_all add: started_def)
  show ?thesis
    unfolding inspect_rest_def Let_def
    apply (rule gives_bind [OF started_parts(1) [OF assms]])
    apply (rule gives_bind [OF started_parts(2)], assumption)
    apply (rule gives_bind [OF started_parts(3)], assumption)
    apply (rule gives_bind [OF started_snapshots], assumption)
    apply (rule gives_prod, hypsubst, unfold fst_conv)
    apply (rule gives_bind [OF disks], assumption)
    apply (rule gives_bind [OF inspect_outside_ok], assumption)
    apply (rule gives_bind [OF inspect_config_files_ok], assumption)
    apply (erule inspect_end_ok)
    done
qed

lemma check_host_started: "started req i r \<Longrightarrow> started req i (check_host iv done r)"
  by (simp add: check_host_def Let_def)

lemma report_ok_new_VM: "vm_ID vm = rq_VMID req \<Longrightarrow> ready_iff r \<Longrightarrow> rp_Request r = req \<Longrightarrow> rp_ID r = i \<Longrightarrow> report_ok req i (r\<lparr>rp_VM := vm\<rparr>)"
  by (simp add: report_ok_def ready_iff_def no_block_def)

lemma inspect_reviewed: "gives (reviewed req i) (inspect h xml app req i done)"
proof -
  have vm: "started req i ((check_host iv done ((zero_Report i req)\<lparr>rp_Ready := True\<rparr>))\<lparr>rp_VM := vm\<rparr>)"
    if "find_last (\<lambda>v. vm_ID v = rq_VMID req) (inv_VMs iv) = Some vm" for iv vm
  proof -
    let ?r = "(zero_Report i req)\<lparr>rp_Ready := True\<rparr>"
    from that have "vm_ID vm = rq_VMID req" by (auto simp: find_last_def find_Some_iff)
    moreover have "ready_iff (check_host iv done ?r)"
    proof -
      have "ready_iff ?r" by (simp add: ready_iff_def no_block_def zero_Report_def)
      then show ?thesis unfolding check_host_def Let_def by (simp add: check_ready_iff)
    qed
    moreover have "rp_Request (check_host iv done ?r) = req" "rp_ID (check_host iv done ?r) = i" "rp_Disks (check_host iv done ?r) = []"
      by (simp_all add: check_host_def zero_Report_def Let_def)
    ultimately show ?thesis by (simp add: started_def report_ok_new_VM)
  qed
  have early: "reviewed req i (check n StatusBlock d r)" if "started req i r" for n d r
    using that by (simp add: started_def reviewed_def)
  show ?thesis
    unfolding inspect_def Let_def
    apply (rule gives_seq, rule gives_bind_any, rule gives_option, rule gives_fail, rule gives_if)
     apply (rule gives_ret, rule early, erule vm)
    apply (rule gives_bind [OF started_place], erule vm)
    apply (erule inspect_rest_ok)
    done
qed

text \<open>
  C13: an analysis changes nothing on the host: whatever becomes of it, every call it made only reads, and the job is as before. The report it
  returns is of the VM and under the ID it was asked for. It is ready exactly if it has no blocking row, and a ready report is a plan that can be
  carried out: it has a disk, no file is read for two disks, no two disks get the same name in the target folder, and the datastore has the
  space that is required.
\<close>

theorem analysis_verdict:
  "case Analyze h xml app new_id req s of (answer, s') \<Rightarrow>
     (\<exists>new. s_trace s' = new @ s_trace s \<and> list_all (\<lambda>(_, c). is_read c) new) \<and> s_job s' = s_job s \<and>
     (case answer of Inl _ \<Rightarrow> True | Inr r \<Rightarrow>
        rp_Request r = req \<and> rp_ID r = new_id \<and> vm_ID (rp_VM r) = rq_VMID req \<and>
        (if rp_Ready r
         then list_all (\<lambda>c. ck_Status c < StatusBlock) (rp_Checks r) \<and>
           rp_Disks r \<noteq> [] \<and> distinct (map dk_Source (rp_Disks r) @ map dk_Extent (rp_Disks r)) \<and>
           (\<exists>ns. distinct ns \<and> map dk_Target (rp_Disks r) = map (\<lambda>n. path_join [rp_TargetDir r, n]) ns) \<and>
           rp_Required r \<le> rp_TargetFree r
         else list_ex (\<lambda>c. ck_Status c = StatusBlock) (rp_Checks r)))"
proof -
  obtain answer s' where run: "Analyze h xml app new_id req s = (answer, s')" by (cases "Analyze h xml app new_id req s")
  obtain w new where "snd (Analyze h xml app new_id req s) = after s w new" "\<forall>c \<in> set new. is_read c"
    unfolding Analyze_def by (rule quietD [OF looks_inspect])
  with run have "(\<exists>new. s_trace s' = new @ s_trace s \<and> list_all (\<lambda>(_, c). is_read c) new) \<and> s_job s' = s_job s"
    by (auto simp: list_all_iff)
  moreover have "reviewed req new_id r" if "answer = Inr r" for r
    using givesD [OF inspect_reviewed] run that unfolding Analyze_def by blast
  ultimately show ?thesis
    by (auto simp: run reviewed_def report_ok_def ready_iff_def no_block_def named_def files_of_def list_all_iff list_ex_iff split: sum.split)
qed

end
