(* ===== verification/Verify.thy ===== *)
theory Verify
  imports Analyzer
begin

text \<open>
  \<open>internal/migration/verify.go\<close>: the verification of a cloned disk and of the written
  configuration. Each definition runs the host calls of the code in its order.
\<close>

definition verifyDisk :: "'w host \<Rightarrow> Disk \<Rightarrow> ('w, unit) M" where
  "verifyDisk h d =
     seq (x_VerifyChain h (dk_Target d))
     (bind (x_ReadFile h (dk_Target d)) (\<lambda>raw.
     bind (lift (vmdk_Parse raw)) (\<lambda>desc.
     seq (lift_opt (DiskSnapshot (dk_Target d) desc))
     (seq (lift_opt (Standalone desc))
     (seq (require (Thin desc \<and> Bytes desc = dk_Provisioned d)
        (Errorf ''target disk is not thin or its virtual capacity changed''))
     (let ex = File (Extents desc ! 0); expected = path_join [path_dir (dk_Target d), ex] in
      seq (require (path_base ex = ex \<and> \<not> contains_any ex [cr, nl, nul])
        (Errorf ''target extent is not local to its descriptor''))
      (bind (attempt (x_Canonical h expected)) (\<lambda>canonical.
      seq (require (canonical = Inr expected) (Errorf ''target extent escaped target directory''))
      (bind (attempt (x_Size h expected)) (\<lambda>n.
      require (n = Inr (dk_Provisioned d)) (Errorf ''target extent size mismatch'')))))))))))"

text \<open>The file the target VMX must name for each disk: the clone, or for a live cutover the copied delta.\<close>

definition diskNames :: "Disk list \<Rightarrow> (string, string) gomap \<Rightarrow> (string, string) gomap" where
  "diskNames disks deltas = fold (\<lambda>d names.
     put names (dk_Key d) (case map_of deltas (dk_Key d) of Some n \<Rightarrow> n | None \<Rightarrow> path_base (dk_Target d))) disks []"

definition copy_file :: "'w host \<Rightarrow> Report \<Rightarrow> ConfigFile \<Rightarrow> ('w, unit) M" where
  "copy_file h r f =
     bind (x_ReadFile h (cf_Source f)) (\<lambda>data.
     seq (x_WriteTarget h (rp_TargetDir r) (cf_Name f) data)
     (bind (attempt (x_ReadFile h (path_join [rp_TargetDir r, cf_Name f]))) (\<lambda>target.
     require (target = Inr data) (Errorf ''target configuration file verification failed''))))"

definition copyConfig :: "'w host \<Rightarrow> Report \<Rightarrow> config \<Rightarrow> (string, string) gomap \<Rightarrow> ('w, unit) M" where
  "copyConfig h r cfg names =
     seq (each (copy_file h r) (rp_ConfigFiles r))
     (let serialized = vmx_String cfg in
      seq (x_WriteTarget h (rp_TargetDir r) (path_base (rp_TargetVMX r)) serialized)
      (bind (x_ReadFile h (rp_TargetVMX r)) (\<lambda>raw.
      bind (lift (vmx_Parse raw)) (\<lambda>parsed.
      seq (require (vmx_String parsed = serialized) (Errorf ''target VMX does not match the reviewed configuration''))
      (let a = vmx_Analyze parsed in
       seq (require (Blocks a = [] \<and> length (Disks a) = length (rp_Disks r))
         (Errorf ''rewritten VMX has unsupported devices or missing disks''))
       (require (list_all (\<lambda>d. lookup0 parsed (dk_Key d) = lookup0 names (dk_Key d)) (rp_Disks r))
         (Errorf ''target VMX points to the wrong disk'')))))))"

section \<open>What is called\<close>

definition writes_target :: "call \<Rightarrow> bool" where
  "writes_target c = (is_read c \<or> (\<exists>d n x r. c = DidWriteTarget d n x r))"

lemma quiet_read_any: "quiet is_read m \<Longrightarrow> (\<And>c. is_read c \<Longrightarrow> C c) \<Longrightarrow> quiet C m"
  by (rule quiet_mono)

lemma quiet_verifyDisk: "quiet is_read (verifyDisk h d)"
  unfolding verifyDisk_def Let_def by (intro quiet_intros quiet_x)

lemma quiet_WriteTarget: "quiet writes_target (x_WriteTarget h d n x)"
  by (auto simp: x_defs writes_target_def intro: quiet_call)

lemma quiet_reads_write: "quiet is_read m \<Longrightarrow> quiet writes_target m"
  by (erule quiet_mono) (simp add: writes_target_def)

lemma quiet_copyConfig: "quiet writes_target (copyConfig h r cfg names)"
  unfolding copyConfig_def copy_file_def Let_def
  by (intro quiet_intros quiet_WriteTarget quiet_reads_write [OF quiet_x(4)])

section \<open>What was verified\<close>

text \<open>
  What an error-free \<open>verifyDisk\<close> was told: the chain is consistent, the descriptor is that of a thin, standalone
  disk of the planned capacity, and its extent lies next to it under its own canonical path with that size.
\<close>

definition disk_verified :: "Disk \<Rightarrow> call set \<Rightarrow> bool" where
  "disk_verified d K = (GotVerifyChain (dk_Target d) (Inr ()) \<in> K \<and>
     (\<exists>raw desc. GotReadFile (dk_Target d) (Inr raw) \<in> K \<and> vmdk_Parse raw = Inr desc \<and>
        DiskSnapshot (dk_Target d) desc = None \<and> Standalone desc = None \<and> Thin desc \<and> Bytes desc = dk_Provisioned d \<and>
        (let extent = path_join [path_dir (dk_Target d), File (Extents desc ! 0)] in
          GotCanonical extent (Inr extent) \<in> K \<and> GotSize extent (Inr (dk_Provisioned d)) \<in> K)))"

lemma verifyDisk_verified: "hoare (told_all {}) (verifyDisk h d) (\<lambda>_ s. disk_verified d (calls s)) anyway"
  unfolding verifyDisk_def Let_def x_defs
  apply (rule hoare_seq_unit, rule told_call)
  apply (rule hoare_bind, rule told_call)
  apply (rule told_lift, rule told_lift_opt, rule told_lift_opt, rule told_require, rule told_require)
  apply (rule hoare_bind, rule told_attempt, rule told_require)
  apply (rule hoare_bind, rule told_attempt, rule told_require_last)
  apply (auto simp: disk_verified_def told_all_def Let_def)
  done

text \<open>
  What an error-free \<open>copyConfig\<close> was told: every configuration file of the target reads as the source's, and the target's VMX
  parses to the reviewed configuration, without anything the analysis blocks, with each disk under its new
  name.
\<close>

definition file_copied :: "Report \<Rightarrow> ConfigFile \<Rightarrow> call set \<Rightarrow> bool" where
  "file_copied r f K = (\<exists>data. GotReadFile (cf_Source f) (Inr data) \<in> K \<and> GotReadFile (path_join [rp_TargetDir r, cf_Name f]) (Inr data) \<in> K)"

definition vmx_written :: "Report \<Rightarrow> config \<Rightarrow> (string, string) gomap \<Rightarrow> call set \<Rightarrow> bool" where
  "vmx_written r cfg names K = (\<exists>raw parsed. GotReadFile (rp_TargetVMX r) (Inr raw) \<in> K \<and> vmx_Parse raw = Inr parsed \<and>
     vmx_String parsed = vmx_String cfg \<and> Blocks (vmx_Analyze parsed) = [] \<and> length (Disks (vmx_Analyze parsed)) = length (rp_Disks r) \<and>
     (\<forall>d \<in> set (rp_Disks r). lookup0 parsed (dk_Key d) = lookup0 names (dk_Key d)))"

lemma copy_file_copied: "hoare (told_all K) (copy_file h r f) (\<lambda>_ s. told_all K s \<and> file_copied r f (calls s)) anyway"
  unfolding copy_file_def Let_def x_defs
  apply (rule hoare_bind, rule told_call)
  apply (rule hoare_seq_unit, rule told_call)
  apply (rule hoare_bind, rule told_attempt, rule told_require_last)
  apply (auto simp: file_copied_def told_all_def)
  done

text \<open>The part of \<open>copyConfig\<close> after the files: the VMX.\<close>

definition write_vmx :: "'w host \<Rightarrow> Report \<Rightarrow> config \<Rightarrow> (string, string) gomap \<Rightarrow> ('w, unit) M" where
  "write_vmx h r cfg names = (let serialized = vmx_String cfg in
      seq (x_WriteTarget h (rp_TargetDir r) (path_base (rp_TargetVMX r)) serialized)
      (bind (x_ReadFile h (rp_TargetVMX r)) (\<lambda>raw.
      bind (lift (vmx_Parse raw)) (\<lambda>parsed.
      seq (require (vmx_String parsed = serialized) (Errorf ''target VMX does not match the reviewed configuration''))
      (let a = vmx_Analyze parsed in
       seq (require (Blocks a = [] \<and> length (Disks a) = length (rp_Disks r))
         (Errorf ''rewritten VMX has unsupported devices or missing disks''))
       (require (list_all (\<lambda>d. lookup0 parsed (dk_Key d) = lookup0 names (dk_Key d)) (rp_Disks r))
         (Errorf ''target VMX points to the wrong disk'')))))))"

lemma copyConfig_split: "copyConfig h r cfg names = seq (each (copy_file h r) (rp_ConfigFiles r)) (write_vmx h r cfg names)"
  by (simp add: copyConfig_def write_vmx_def Let_def)

lemma write_vmx_written: "hoare (told_all {}) (write_vmx h r cfg names) (\<lambda>_ s. vmx_written r cfg names (calls s)) anyway"
  unfolding write_vmx_def Let_def x_defs
  apply (rule hoare_seq_unit, rule told_call)
  apply (rule hoare_bind, rule told_call)
  apply (rule told_lift, rule told_require, rule told_require, rule told_require_last)
  apply (auto simp: vmx_written_def told_all_def list_all_iff)
  done

end
