(* ===== verification/Engine.thy ===== *)
theory Engine
  imports Verify
begin

text \<open>
  \<open>internal/migration/engine.go\<close>: a cold migration from its preflight to its end, the switch of
  the registration, the power-on of the target and the registration rollback. An \<open>'w engine\<close> is
  the host, the options, the tokenizer and the fuel of the three loops that wait for
  something; everything is run against the host's world and the job.
\<close>

record 'w engine =
  eg_Host :: "'w host"
  eg_Options :: Options
  eg_xml :: "string \<Rightarrow> XmlToken list \<times> bool"
  eg_fuel :: nat

definition e_inspect :: "'w engine \<Rightarrow> Request \<Rightarrow> string \<Rightarrow> progress \<Rightarrow> ('w, Report) M" where
  "e_inspect e = inspect (eg_Host e) (eg_xml e) (op_ApplianceUUID (eg_Options e))"

section \<open>Checks between the steps\<close>

definition matchPlan :: "Report \<Rightarrow> Report \<Rightarrow> err option" where
  "matchPlan before later = (if \<not> rp_Ready later then
       Some (Errorf (''preflight blocked: '' @ join ''; '' (map (\<lambda>c. ck_Name c @ '': '' @ ck_Detail c)
         (filter (\<lambda>c. ck_Status c = StatusBlock) (rp_Checks later)))))
     else if rp_Fingerprint before \<noteq> rp_Fingerprint later \<or> rp_SourceVMX before \<noteq> rp_SourceVMX later \<or>
         rp_TargetVMX before \<noteq> rp_TargetVMX later
     then Some (Errorf ''VM identity, configuration or disk dependency changed after Analyze; analyze again'')
     else None)"

definition guard_cold :: "'w engine \<Rightarrow> Report \<Rightarrow> bool \<Rightarrow> int \<Rightarrow> ('w, Report) M" where
  "guard_cold e r created used =
     bind (e_inspect e (rp_Request r) (rp_ID r) \<lparr>pg_ownLock = True, pg_targetCreated = created, pg_consumed = used\<rparr>) (\<lambda>fresh.
     seq (lift_opt (matchPlan r fresh))
     (seq (require (rp_Power fresh = Off) (Errorf ''source VM is not powered off; no clone or commit is permitted''))
     (ret fresh)))"

definition requireOff :: "'w engine \<Rightarrow> int \<Rightarrow> ('w, unit) M" where
  "requireOff e i =
     bind (x_Power (eg_Host e) i) (\<lambda>p. require (p = Off) (Errorf ''source VM must be Powered off''))"

definition truncate_to :: "string \<Rightarrow> nat \<Rightarrow> string" where
  "truncate_to s n = (if length s \<le> n then s else to_valid_utf8 (take n s) @ '' ...'')"

section \<open>Shutting the source down\<close>

definition source_off :: "State \<Rightarrow> State" where
  "source_off s = s\<lparr>js_SourcePower := ''Powered off''\<rparr>"

text \<open>The loop that waits for the source to be off. \<open>n\<close> bounds its rounds and the wait for the operator.\<close>

fun shutdown_loop :: "nat \<Rightarrow> 'w engine \<Rightarrow> int \<Rightarrow> ('w, unit) M \<Rightarrow> int \<Rightarrow> ('w, unit) M" where
  "shutdown_loop 0 e vm revalidate deadline = throw OutOfFuel"
| "shutdown_loop (Suc n) e vm revalidate deadline =
     (let h = eg_Host e; opts = eg_Options e in
      bind (j_stopRequested h) (\<lambda>stop.
      if stop then fail Stopped
      else bind (x_Power h vm) (\<lambda>p.
      if p = Off then j_update h source_off
      else seq (require (p = On) (Errorf ''unexpected power state during shutdown''))
      (bind (now h) (\<lambda>t.
      if t > deadline
      then
       seq (j_phase h PhaseAwaitingShutdown ''Graceful shutdown failed or VMware Tools is unavailable. Wait, shut down manually, or explicitly confirm Force Power Off.'')
       (bind (await_action (eg_fuel e) h) (\<lambda>action.
       if action = ''stop'' then fail Stopped
       else seq (if action = ''force'' then seq revalidate (x_ForceOff h vm) else ret ())
       (bind (now h) (\<lambda>t'.
       seq (j_phase h PhaseShutdown ''Waiting for confirmed Powered off state'')
       (seq (pause h (op_PollInterval opts))
       (shutdown_loop n e vm revalidate (t' + op_ShutdownTimeout opts)))))))
      else seq (pause h (op_PollInterval opts)) (shutdown_loop n e vm revalidate deadline))))))"

definition shutdown :: "'w engine \<Rightarrow> Report \<Rightarrow> ('w, unit) M \<Rightarrow> ('w, unit) M" where
  "shutdown e r revalidate =
     (let h = eg_Host e in
      if rp_Power r = Off then j_update h source_off
      else seq (require (rp_Power r = On) (Errorf ''unsupported source power state''))
      (seq (j_phase h PhaseShutdown ''Requesting a graceful guest shutdown'')
      (seq (j_update_at h (\<lambda>t s. case js_DownSince s of None \<Rightarrow> s\<lparr>js_DownSince := Some t\<rparr> | Some _ \<Rightarrow> s))
      (bind (attempt (x_Shutdown h (vm_ID (rp_VM r)))) (\<lambda>answer.
      bind (now h) (\<lambda>t.
      bind (if is_ok answer then ret (t + op_ShutdownTimeout (eg_Options e)) else now h) (\<lambda>deadline.
      shutdown_loop (eg_fuel e) e (vm_ID (rp_VM r)) revalidate deadline)))))))"

section \<open>Waiting for a clone\<close>

definition liveSourceFree :: "'w engine \<Rightarrow> Report \<Rightarrow> ('w, int) M" where
  "liveSourceFree e r =
     bind (x_Datastores (eg_Host e)) (\<lambda>ds. lift (deltaFree ds (deltaPlaces r)))"

text \<open>What the loop keeps from one round to the next; the result is whether the exit was seen, and the error.\<close>

record Wait =
  wt_lastContact :: int
  wt_lastSpaceCheck :: int
  wt_stopCause :: "err option"
  wt_stopDeadline :: "int option"
  wt_stopping :: bool

type_synonym exit = "bool \<times> err option"

definition clone_log :: "int \<Rightarrow> CloneStatus \<Rightarrow> Job \<Rightarrow> string" where
  "clone_log index status j = ''Disk '' @ itoa (index + 1) @ '': '' @ js_CurrentDisk (jb_state j) @ [nl] @ cl_Log status"

definition show_clone :: "int \<Rightarrow> CloneStatus \<Rightarrow> Job \<Rightarrow> Job" where
  "show_clone index status j = (let current = clone_log index status j in
     j\<lparr>jb_state := (jb_state j)\<lparr>js_Phase := PhaseCloning, js_Progress := cl_Progress status,
         js_TechnicalLog := join [nl, nl] (jb_cloneLogs j @ [current])\<rparr>,
       jb_cloneLogs := (if cl_Done status then jb_cloneLogs j @ [current] else jb_cloneLogs j)\<rparr>)"

definition clone_done :: "'w engine \<Rightarrow> CloneStatus \<Rightarrow> Wait \<Rightarrow> ('w, exit) M" where
  "clone_done e status w = (let h = eg_Host e in
     case wt_stopCause w of
       Some c \<Rightarrow> ret (True, Some c)
     | None \<Rightarrow>
         bind (j_stopRequested h) (\<lambda>stop.
         if stop then ret (True, Some Stopped)
         else if cl_ExitCode status \<noteq> 0
         then ret (True, Some (Errorf (''vmkfstools clone exited with code '' @ itoa (cl_ExitCode status) @ ''; source registration is unchanged'')))
         else seq (j_update h (\<lambda>s. s\<lparr>js_Progress := 100\<rparr>)) (ret (True, None))))"

text \<open>The watch over the source's free space while a live clone runs.\<close>

definition watch_space :: "'w engine \<Rightarrow> Wait \<Rightarrow> ('w, Wait) M" where
  "watch_space e w = (let h = eg_Host e in
     bind j_plan (\<lambda>plan.
     if \<not> rq_Live (rp_Request plan) \<or> wt_stopCause w \<noteq> None then ret w
     else bind (j_stopRequested h) (\<lambda>stop.
     if stop then ret w
     else bind (attempt (liveSourceFree e plan)) (\<lambda>space.
     bind (now h) (\<lambda>t.
     ret (case space of
        Inr free \<Rightarrow> w\<lparr>wt_lastSpaceCheck := t, wt_stopCause := requireLiveSourceSpace free\<rparr>
      | Inl c \<Rightarrow>
          if t - wt_lastSpaceCheck w > op_DisconnectTimeout (eg_Options e)
          then w\<lparr>wt_stopCause := Some (Wrapped ''source free space can no longer be monitored: '' c [])\<rparr>
          else w))))))"

text \<open>Asking the clone to end. \<open>Inl\<close> ends the wait without having seen the exit.\<close>

definition stop_clone :: "'w engine \<Rightarrow> int \<Rightarrow> Wait \<Rightarrow> ('w, err + Wait) M" where
  "stop_clone e index w = (let h = eg_Host e in
     bind (j_stopRequested h) (\<lambda>stop.
     if \<not> stop \<and> wt_stopCause w = None then ret (Inr w)
     else
      bind (case wt_stopDeadline w of
          Some _ \<Rightarrow> ret w
        | None \<Rightarrow> bind (now h) (\<lambda>t. ret (w\<lparr>wt_stopDeadline := Some (t + op_DisconnectTimeout (eg_Options e))\<rparr>))) (\<lambda>w1.
      bind (if wt_stopping w1 then ret w1
          else bind (attempt (x_StopClone h index)) (\<lambda>r. ret (w1\<lparr>wt_stopping := is_ok r\<rparr>))) (\<lambda>w2.
      seq (j_update h (\<lambda>s. s\<lparr>js_Message := ''Stopping the clone; waiting for confirmed exit'' @
          (case wt_stopCause w2 of None \<Rightarrow> [] | Some c \<Rightarrow> '': '' @ err_text c)\<rparr>))
      (bind (now h) (\<lambda>t.
      ret (case wt_stopDeadline w2 of
          Some d \<Rightarrow> if t > d then Inl (Errorf ''clone stop could not be confirmed; detached worker may still be running'') else Inr w2
        | None \<Rightarrow> Inr w2)))))))"

text \<open>One look at the clone: an end of the wait, or the state of the next round.\<close>

definition observe_clone :: "'w engine \<Rightarrow> int \<Rightarrow> err option \<Rightarrow> int \<Rightarrow> Wait \<Rightarrow> ('w, exit + Wait) M" where
  "observe_clone e index startErr since w = (let h = eg_Host e; limit = op_DisconnectTimeout (eg_Options e) in
     bind (attempt (x_CloneStatus h index)) (\<lambda>look.
     (case look of
        Inl c \<Rightarrow>
          bind (now h) (\<lambda>t.
          if t - wt_lastContact w > limit
          then ret (Inl (False, Some (Wrapped ''cannot determine remote clone outcome; it may still be running; inspect ESXi transient metadata: '' c [])))
          else seq (j_phase h PhaseReconnecting ''SSH unavailable or remote process state uncertain; clone will never be relaunched automatically'')
            (ret (Inr w)))
      | Inr status \<Rightarrow>
          bind (now h) (\<lambda>t.
          let w1 = w\<lparr>wt_lastContact := t\<rparr> in
          seq (j_update_job h (show_clone index status))
          (if cl_Done status then bind (clone_done e status w1) (\<lambda>x. ret (Inl x))
           else bind (if cl_Log status = [] then bind (now h) (\<lambda>t'. ret (t' - since > limit)) else ret False) (\<lambda>silent.
             if silent
             then ret (Inl (False, Some (Errorf (''clone did not produce progress or an exit marker; launch outcome remains unknown ('' @ err_v startErr @ '')''))))
             else bind (watch_space e w1) (\<lambda>w2. ret (Inr w2))))))))"

fun wait_loop :: "nat \<Rightarrow> 'w engine \<Rightarrow> int \<Rightarrow> err option \<Rightarrow> int \<Rightarrow> int \<Rightarrow> Wait \<Rightarrow> ('w, exit) M" where
  "wait_loop 0 e index startErr since deadline w = throw OutOfFuel"
| "wait_loop (Suc n) e index startErr since deadline w = (let h = eg_Host e in
     bind (now h) (\<lambda>t.
     if \<not> t < deadline
     then ret (False, Some (Errorf ''clone observation deadline exceeded; detached worker may still be running''))
     else bind (observe_clone e index startErr since w) (\<lambda>seen.
       (case seen of
          Inl x \<Rightarrow> ret x
        | Inr w1 \<Rightarrow>
            bind (stop_clone e index w1) (\<lambda>ended.
            (case ended of
               Inl c \<Rightarrow> ret (False, Some c)
             | Inr w2 \<Rightarrow>
                 bind (attempt (pause h (op_PollInterval (eg_Options e)))) (\<lambda>p.
                 (case p of
                    Inl c \<Rightarrow> ret (False, Some c)
                  | Inr _ \<Rightarrow> wait_loop n e index startErr since deadline w2))))))))"

definition unknown_clone :: string where
  "unknown_clone = ''The clone may still be running on ESXi. Confirm its exit before changing files, merging snapshots or archiving the operation lock.''"

definition waitClone :: "'w engine \<Rightarrow> int \<Rightarrow> err option \<Rightarrow> ('w, exit) M" where
  "waitClone e index startErr = (let h = eg_Host e in
     bind (now h) (\<lambda>t0.
     bind (now h) (\<lambda>contact.
     bind (now h) (\<lambda>since.
     bind (now h) (\<lambda>space.
     bind (wait_loop (eg_fuel e) e index startErr since (t0 + op_CloneTimeout (eg_Options e))
         \<lparr>wt_lastContact = contact, wt_lastSpaceCheck = space, wt_stopCause = None, wt_stopDeadline = None, wt_stopping = False\<rparr>) (\<lambda>x.
     seq (if snd x \<noteq> None \<and> \<not> fst x then j_phase h PhaseUnknown unknown_clone else ret ())
     (ret x)))))))"

text \<open>\<open>if _, err = e.waitClone(\<dots>); err != nil { return err }\<close>.\<close>

definition waited :: "exit \<Rightarrow> ('w, unit) M" where
  "waited x = lift_opt (snd x)"

section \<open>Registrations\<close>

text \<open>One registered VM against the two canonical paths.\<close>

definition match_registration :: "'w engine \<Rightarrow> string \<Rightarrow> string \<Rightarrow> Datastore list \<Rightarrow> VM \<Rightarrow> int \<times> int \<Rightarrow> ('w, int \<times> int) M" where
  "match_registration e source target ds v found = (case found of (src, dst) \<Rightarrow>
     bind (lift (ResolveReference (vm_VMXPath v) [] ds)) (\<lambda>p0.
     bind (x_Canonical (eg_Host e) p0) (\<lambda>p.
     seq (require (p = source \<longrightarrow> src = 0) (Errorf ''duplicate source registrations''))
     (let src' = (if p = source then vm_ID v else src) in
      seq (require (p = target \<longrightarrow> dst = 0) (Errorf ''duplicate target registrations''))
      (ret (src', if p = target then vm_ID v else dst))))))"

definition registrations :: "'w engine \<Rightarrow> string \<Rightarrow> string \<Rightarrow> ('w, int \<times> int) M" where
  "registrations e source target =
     bind (x_VMs (eg_Host e)) (\<lambda>vms.
     bind (x_Datastores (eg_Host e)) (\<lambda>ds.
     foldM (match_registration e source target ds) vms (0, 0)))"

definition registered :: "bool \<Rightarrow> string" where
  "registered b = (if b then ''registered'' else ''not registered'')"

definition show_registrations :: "int \<Rightarrow> int \<Rightarrow> State \<Rightarrow> State" where
  "show_registrations source target s =
     (let s1 = s\<lparr>js_SourceRegistration := registered (source > 0), js_TargetRegistration := registered (target > 0)\<rparr>
      in if target > 0 then s1\<lparr>js_TargetVMID := target\<rparr> else s1)"

definition publishRegistrations :: "'w engine \<Rightarrow> int \<Rightarrow> int \<Rightarrow> ('w, unit) M" where
  "publishRegistrations e source target = j_update (eg_Host e) (show_registrations source target)"

section \<open>Switching the registration\<close>

text \<open>The second half of \<open>commit\<close>: the target is registered, or the source is again.\<close>

definition commit_register :: "'w engine \<Rightarrow> Report \<Rightarrow> ('w, unit) M" where
  "commit_register e r = (let h = eg_Host e in
     bind (attempt (x_Register h (rp_TargetVMX r))) (\<lambda>register.
     seq (j_update h (\<lambda>s. s\<lparr>js_TargetRegistration := ''unknown''\<rparr>))
     (bind (attempt (registrations e (rp_SourceVMX r) (rp_TargetVMX r))) (\<lambda>found.
     (case found of
        Inl _ \<Rightarrow> fail (Errorf ''target registration result is unknown; cannot safely auto-register source while target may be registered'')
      | Inr (src, dst) \<Rightarrow>
          seq (publishRegistrations e src dst)
          (seq (require (src = 0) (Errorf ''source was externally registered during commit; manual review required''))
          (if dst = 0
           then
            seq (j_update h (\<lambda>s. s\<lparr>js_TargetRegistration := ''not registered'', js_SourceRegistration := ''unknown''\<rparr>))
            (bind (attempt (x_Register h (rp_SourceVMX r))) (\<lambda>rollback.
            bind (attempt (registrations e (rp_SourceVMX r) (rp_TargetVMX r))) (\<lambda>back.
            seq (case back of Inr (src', dst') \<Rightarrow> publishRegistrations e src' dst' | Inl _ \<Rightarrow> ret ())
            (if (case back of Inr (src', dst') \<Rightarrow> src' > 0 \<and> dst' = 0 | Inl _ \<Rightarrow> False)
             then seq (j_update h (\<lambda>s. s\<lparr>js_SourceRegistration := ''registered''\<rparr>))
               (fail (Errorf (''target registration failed; source registration restored; source remains off ('' @ err_v (error_of register) @ '')'')))
             else fail (Errorf (''target registration failed and source rollback requires manual review ('' @ err_v (error_of register) @ ''; '' @ err_v (error_of rollback) @ '')''))))))
           else
            seq (j_update h (\<lambda>s. s\<lparr>js_TargetRegistration := ''registered'', js_TargetVMID := dst, js_TargetPower := ''unknown'', js_CanRollback := True\<rparr>))
            (bind (x_Power h dst) (\<lambda>p.
            seq (j_update h (\<lambda>s. s\<lparr>js_TargetPower := p\<rparr>))
            (require (p = Off) (Errorf ''target was unexpectedly powered on; automation stopped'')))))))))))"

definition commit :: "'w engine \<Rightarrow> Report \<Rightarrow> ('w, unit) M" where
  "commit e r = (let h = eg_Host e in
     bind (j_Snapshot h) (\<lambda>s.
     seq (require (js_TargetVerified s) (Errorf ''commit denied: target is not fully verified''))
     (bind (registrations e (rp_SourceVMX r) (rp_TargetVMX r)) (\<lambda>(src, dst).
     seq (require (src = vm_ID (rp_VM r) \<and> dst = 0) (Errorf ''registration identity changed before commit''))
     (seq (requireOff e src)
     (seq (j_phase h PhaseCommit ''Target complete and verified. Switching VM registration; source files remain in place.'')
     (seq (j_update h (\<lambda>s. s\<lparr>js_SourceRegistration := ''unknown''\<rparr>))
     (bind (attempt (x_Unregister h src)) (\<lambda>unregister.
     bind (attempt (registrations e (rp_SourceVMX r) (rp_TargetVMX r))) (\<lambda>found.
     (case found of
        Inl _ \<Rightarrow> fail (Errorf ''unregister outcome unknown; manual inventory reconciliation required'')
      | Inr (src', dst') \<Rightarrow>
          seq (publishRegistrations e src' dst')
          (if src' \<noteq> 0
           then seq (j_update h (\<lambda>s. s\<lparr>js_SourceRegistration := ''registered''\<rparr>))
             (fail (Errorf (''source remains registered; stopping commit ('' @ err_v (error_of unregister) @ '')'')))
           else seq (j_update h (\<lambda>s. s\<lparr>js_SourceRegistration := ''not registered''\<rparr>))
             (seq (require (dst' = 0) (Errorf ''target unexpectedly registered by another actor; manual review required''))
             (commit_register e r))))))))))))))"

section \<open>Powering the target on\<close>

definition no_message :: "string \<Rightarrow> bool" where
  "no_message m = (trim_space m = [] \<or> trim_space m = ''No message.'' \<or> trim_space m = ''No message'')"

text \<open>The downtime ends here; zero means that it was not measured.\<close>

definition end_downtime :: "int \<Rightarrow> State \<Rightarrow> State" where
  "end_downtime t s = (case js_DownSince s of
      None \<Rightarrow> s\<lparr>js_CanRollback := False\<rparr>
    | Some since \<Rightarrow> s\<lparr>js_CanRollback := False, js_DowntimeMS := max 1 ((t - since) div 1000000)\<rparr>)"

fun power_loop :: "nat \<Rightarrow> 'w engine \<Rightarrow> int \<Rightarrow> int \<Rightarrow> err option \<Rightarrow> bool \<Rightarrow> ('w, unit) M" where
  "power_loop 0 e vm deadline powerErr answered = throw OutOfFuel"
| "power_loop (Suc n) e vm deadline powerErr answered = (let h = eg_Host e in
     bind (now h) (\<lambda>t.
     if \<not> t < deadline
     then fail (Errorf (''target did not reach Powered on; it remains registered ('' @ err_v powerErr @ '')''))
     else
      bind (x_Power h vm) (\<lambda>p.
      seq (j_update h (\<lambda>s. s\<lparr>js_TargetPower := p\<rparr>))
      (bind (x_Message h vm) (\<lambda>message.
      if no_message message \<and> p = On then j_update_at h end_downtime
      else
       bind (if no_message message then ret answered
         else (case MovedAnswer message of
             Inl c \<Rightarrow> fail (Wrapped [] c (''; ESXi asked: '' @ truncate_to (trim_space message) 400))
           | Inr (question, choice) \<Rightarrow>
               seq (require (\<not> answered) (Errorf ''VM question remained after answering; manual review required''))
               (seq (x_Answer h vm question choice) (ret True)))) (\<lambda>answered'.
       seq (pause h (op_PollInterval (eg_Options e)))
       (power_loop n e vm deadline powerErr answered')))))))"

definition powerOn :: "'w engine \<Rightarrow> ('w, unit) M" where
  "powerOn e = (let h = eg_Host e in
     bind (j_Snapshot h) (\<lambda>s.
     bind j_plan (\<lambda>r.
     bind (attempt (registrations e (rp_SourceVMX r) (rp_TargetVMX r))) (\<lambda>found.
     seq (require (found = Inr (0, js_TargetVMID s)) (Errorf ''cannot confirm source unregistered and target identity before Power On''))
     (seq (j_phase h PhasePowerOn ''Requesting target Power On; source remains unregistered'')
     (bind (attempt (x_PowerOn h (js_TargetVMID s))) (\<lambda>power.
     bind (now h) (\<lambda>t.
     power_loop (eg_fuel e) e (js_TargetVMID s) (t + op_PowerOnTimeout (eg_Options e)) (error_of power) False))))))))"

section \<open>A cold migration\<close>

definition autostartNote :: "Report \<Rightarrow> string" where
  "autostartNote r = (if rq_Mode (rp_Request r) \<noteq> modeMove \<or> rp_Autostart r = 0 then []
     else ('' The source was in the host'' @ [sq] @ ''s autostart (position '') @ itoa (rp_Autostart r) @
       (''); turn autostart on for the migrated VM under Host '' @ [CHR 0xE2, CHR 0x80, CHR 0xBA] @ '' Manage '' @ [CHR 0xE2, CHR 0x80, CHR 0xBA] @ '' System '' @ [CHR 0xE2, CHR 0x80, CHR 0xBA] @ '' Autostart.''))"

definition lock_text :: "Report \<Rightarrow> string \<Rightarrow> string" where
  "lock_text r mode = ''source='' @ rp_SourceVMX r @ [nl] @ ''target='' @ rp_TargetVMX r @ [nl] @ ''mode='' @ mode @ [nl]"

definition start_disk :: "string \<Rightarrow> int \<Rightarrow> Disk \<Rightarrow> int \<Rightarrow> State \<Rightarrow> State" where
  "start_disk message i d t s = s\<lparr>js_Phase := PhaseCloning, js_Message := message, js_DiskIndex := i + 1,
     js_CurrentDisk := dk_Source d, js_Progress := 0, js_DiskStarted := t, js_DiskBytes := dk_Provisioned d\<rparr>"

definition wrap_error :: "string \<Rightarrow> ('w, 'a) M \<Rightarrow> ('w, 'a) M" where
  "wrap_error prefix m = bind (attempt m) (\<lambda>r. case r of Inl c \<Rightarrow> fail (Wrapped prefix c []) | Inr x \<Rightarrow> ret x)"

text \<open>One disk: guarded, cloned, waited for and verified.\<close>

definition clone_disk :: "'w engine \<Rightarrow> Report \<Rightarrow> nat \<times> Disk \<Rightarrow> int \<Rightarrow> ('w, int) M" where
  "clone_disk e r x used = (let h = eg_Host e; i = int (fst x); d = snd x in
     bind (j_stopRequested h) (\<lambda>stop.
     seq (require (\<not> stop) Stopped)
     (bind (guard_cold e r True used) (\<lambda>_.
     seq (j_update_at h (start_disk ''Cloning disk sequentially with vmkfstools'' i d))
     (seq (requireOff e (vm_ID (rp_VM r)))
     (bind (attempt (x_StartClone h (rp_ID r) i (vm_ID (rp_VM r)) (dk_Source d) (dk_Target d) True)) (\<lambda>start.
     seq (if is_ok start then ret ()
       else j_phase h PhaseReconnecting ''Clone launch result is unknown; inspecting metadata without relaunching'')
     (bind (waitClone e i (error_of start)) (\<lambda>w.
     seq (waited w)
     (seq (requireOff e (vm_ID (rp_VM r)))
     (seq (j_phase h PhaseVerifyingDisk ''Verifying target descriptor, extent, capacity, thin format and chain'')
     (seq (wrap_error ''target disk verification failed: '' (verifyDisk h d))
     (ret (used + dk_Allocated d))))))))))))))"

definition completed :: "string \<Rightarrow> State \<Rightarrow> State" where
  "completed message s = s\<lparr>js_Phase := PhaseCompleted, js_Message := message, js_Complete := True, js_CanRollback := False,
     js_SourcePower := ''Powered off''\<rparr>"

definition switch_registration :: "'w engine \<Rightarrow> Report \<Rightarrow> ('w, unit) M" where
  "switch_registration e r =
     (if rq_Mode (rp_Request r) = modeMove
      then seq (commit e r) (if rq_PowerOn (rp_Request r) then powerOn e else ret ())
      else ret ())"

definition archive_lock :: "'w engine \<Rightarrow> Report \<Rightarrow> ('w, unit) M" where
  "archive_lock e r = wrap_error ''migration finished but transient lock archive failed; manual review required: '' (x_Finish (eg_Host e) (rp_ID r))"

text \<open>From the last clone to the end.\<close>

definition finish_cold :: "'w engine \<Rightarrow> Report \<Rightarrow> int \<Rightarrow> ('w, unit) M" where
  "finish_cold e r used = (let h = eg_Host e in
     bind (guard_cold e r True used) (\<lambda>_.
     seq (j_proceed h PhaseVerifyingConfig ''Copying only selected configuration files and verifying target VMX'')
     (seq (copyConfig h r (rp_TargetConfig r) (diskNames (rp_Disks r) []))
     (seq (each (verifyDisk h) (rp_Disks r))
     (bind (guard_cold e r True used) (\<lambda>_.
     seq (j_update h (\<lambda>s. s\<lparr>js_TargetVerified := True\<rparr>))
     (seq (switch_registration e r)
     (seq (archive_lock e r)
     (j_update h (completed (''Completed. No source VM files were deleted.'' @ autostartNote r)))))))))))"

text \<open>From the shutdown to the clones.\<close>

definition clone_cold :: "'w engine \<Rightarrow> Report \<Rightarrow> ('w, unit) M" where
  "clone_cold e plan = (let h = eg_Host e in
     bind (guard_cold e plan False 0) (\<lambda>r.
     seq (j_set_plan r)
     (seq (x_CreateTarget h (rp_TargetDir r))
     (bind (foldM (clone_disk e r) (enumerate 0 (rp_Disks r)) 0) (finish_cold e r)))))"

definition run_cold :: "'w engine \<Rightarrow> ('w, unit) M" where
  "run_cold e = (let h = eg_Host e in
     bind j_plan (\<lambda>r.
     seq (require (rp_Ready r) (Errorf ''analysis was blocked''))
     (seq (j_phase h PhasePreflight ''Repeating all critical safety checks'')
     (bind (e_inspect e (rp_Request r) (rp_ID r) fresh_start) (\<lambda>fresh.
     seq (lift_opt (matchPlan r fresh))
     (seq (wrap_error ''cannot acquire host operation lock: '' (x_Acquire h (rp_ID r) (lock_text r (rq_Mode (rp_Request r)))))
     (bind (e_inspect e (rp_Request r) (rp_ID r) (fresh_start\<lparr>pg_ownLock := True\<rparr>)) (\<lambda>fresh.
     seq (lift_opt (matchPlan r fresh))
     (seq (shutdown e fresh
         (bind (e_inspect e (rp_Request r) (rp_ID r) (fresh_start\<lparr>pg_ownLock := True\<rparr>)) (\<lambda>last. lift_opt (matchPlan r last))))
     (clone_cold e r))))))))))"

section \<open>How a run ends\<close>

definition failed_state :: "err \<Rightarrow> State \<Rightarrow> State" where
  "failed_state c s =
     (if js_Phase s \<noteq> PhaseUnknown
      then s\<lparr>js_Phase := PhaseFailed, js_Message := ''Stopped. Source files are preserved. Review the exact registration state before taking action.'',
             js_Error := err_text c, js_Complete := True\<rparr>
      else s\<lparr>js_Error := err_text c, js_Complete := True\<rparr>)"

definition markFailed :: "'w engine \<Rightarrow> err \<Rightarrow> ('w, unit) M" where
  "markFailed e c = j_update (eg_Host e) (failed_state c)"

definition stopped_state :: "err option \<Rightarrow> State \<Rightarrow> State" where
  "stopped_state c s =
     (let s1 = s\<lparr>js_Phase := PhaseStopped, js_Complete := True,
        js_Message := ''Stopped by you. The source is still registered ('' @ js_SourcePower s @
          ''); if it was shut down, start it in Host Client. Nothing was registered on the target; its partial folder is kept.''\<rparr>
      in (case c of None \<Rightarrow> s1 | Some x \<Rightarrow> s1\<lparr>js_Error := ''The operation lock could not be archived: '' @ err_text x\<rparr>))"

definition stopped :: "'w engine \<Rightarrow> ('w, unit) M" where
  "stopped e = (let h = eg_Host e in
     bind j_plan (\<lambda>r.
     bind (attempt (x_Finish h (rp_ID r))) (\<lambda>finish.
     j_update h (stopped_state (error_of finish)))))"

text \<open>\<open>Run\<close> of a cold job.\<close>

definition Run_cold :: "'w engine \<Rightarrow> ('w, unit) M" where
  "Run_cold e = bind (attempt (run_cold e)) (\<lambda>r. case r of
      Inr _ \<Rightarrow> ret ()
    | Inl c \<Rightarrow> if is_stopped c then stopped e else markFailed e c)"

section \<open>Rolling a registration back\<close>

definition Rollback :: "'w engine \<Rightarrow> ('w, unit) M" where
  "Rollback e = (let h = eg_Host e in
     bind (j_Snapshot h) (\<lambda>s.
     seq (require (js_Complete s \<and> js_CanRollback s \<and> js_Phase s = PhaseFailed) (Errorf ''registration rollback is unavailable''))
     (bind j_plan (\<lambda>r.
     bind (attempt (registrations e (rp_SourceVMX r) (rp_TargetVMX r))) (\<lambda>found.
     seq (require (found = Inr (0, js_TargetVMID s)) (Errorf ''rollback inventory is ambiguous''))
     (let dst = js_TargetVMID s in
     bind (attempt (requireOff e dst)) (\<lambda>off.
     seq (require (is_ok off) (Errorf ''rollback requires target Powered off''))
     (bind (attempt (x_Message h dst)) (\<lambda>message.
     seq (require (case message of Inl _ \<Rightarrow> False | Inr m \<Rightarrow> no_message m)
       (Errorf ''resolve pending target questions/tasks in Host Client before registration rollback''))
     (seq (j_update h (\<lambda>s. s\<lparr>js_TargetRegistration := ''unknown'', js_CanRollback := False\<rparr>))
     (bind (attempt (x_Unregister h dst)) (\<lambda>_.
     bind (attempt (registrations e (rp_SourceVMX r) (rp_TargetVMX r))) (\<lambda>found1.
     seq (case found1 of Inr (a, b) \<Rightarrow> publishRegistrations e a b | Inl _ \<Rightarrow> ret ())
     (seq (require (found1 = Inr (0, 0)) (Errorf ''target unregister outcome is not safe for rollback''))
     (seq (j_update h (\<lambda>s. s\<lparr>js_TargetRegistration := ''not registered'', js_SourceRegistration := ''unknown''\<rparr>))
     (bind (attempt (x_Register h (rp_SourceVMX r))) (\<lambda>register.
     bind (attempt (registrations e (rp_SourceVMX r) (rp_TargetVMX r))) (\<lambda>found2.
     seq (case found2 of Inr (a, b) \<Rightarrow> publishRegistrations e a b | Inl _ \<Rightarrow> ret ())
     (seq (require (case found2 of Inr (a, b) \<Rightarrow> a \<noteq> 0 \<and> b = 0 | Inl _ \<Rightarrow> False)
       (Errorf (''source re-registration needs manual review ('' @ err_v (error_of register) @ '')'')))
     (seq (j_update h (\<lambda>s. s\<lparr>js_SourceRegistration := ''registered'', js_TargetPower := ''Powered off'', js_SourcePower := ''Powered off''\<rparr>))
     (seq (x_Finish h (rp_ID r))
     (j_update h (\<lambda>s. s\<lparr>js_Phase := PhaseRolledBack, js_Error := [],
       js_Message := ''Source registration restored. Both copies remain off; all files are preserved.''\<rparr>)))))))))))))))))))))))"

end
