(* ===== verification/Live.thy ===== *)
theory Live
  imports Engine
begin

text \<open>
  \<open>internal/migration/live.go\<close>: a live migration. The disks are cloned behind a snapshot the
  job takes, then the source is shut down and only the snapshot deltas are copied. A failure before the
  registration is switched restores the source, unless a clone may still be running.
\<close>

section \<open>The job's snapshot\<close>

definition liveSnapshot :: "string \<Rightarrow> string" where
  "liveSnapshot i = ''esxi-mover-'' @ take 8 i"

record delta =
  de_descriptor :: string
  de_extent :: string

definition ownSnapshotOnly :: "'w engine \<Rightarrow> int \<Rightarrow> string \<Rightarrow> ('w, unit) M" where
  "ownSnapshotOnly e i name =
     bind (x_Snapshot (eg_Host e) i) (\<lambda>tree.
     bind (lift (SnapshotNames tree)) (\<lambda>names.
     require (names = [name]) (Errorf (''the snapshot tree is not exactly this job'' @ [sq] @ ''s snapshot''))))"

text \<open>The file of a disk's delta next to its parent, or nothing.\<close>

definition delta_file :: "Report \<Rightarrow> Disk \<Rightarrow> string \<Rightarrow> string" where
  "delta_file r d file =
     (let dir = path_dir (dk_Source d) in
      if path_is_abs file \<and> path_dir file = dir \<and> (dk_External d \<or> dir = rp_SourceDir r) then path_base file
      else if dk_External d then [] else file)"

definition find_delta :: "'w engine \<Rightarrow> Report \<Rightarrow> config \<Rightarrow> Disk \<Rightarrow> (string, delta) gomap \<Rightarrow> ('w, (string, delta) gomap) M" where
  "find_delta e r cfg d out =
     (let dir = path_dir (dk_Source d); file = delta_file r d (lookup0 cfg (dk_Key d)); p = path_join [dir, file] in
      seq (require (\<not> (file = [] \<or> file \<noteq> path_base file \<or> file = path_base (dk_Source d) \<or> ValidPath file \<noteq> None))
        (Errorf (''the VM does not run on a snapshot delta for '' @ dk_Key d)))
      (bind (x_ReadFile (eg_Host e) p) (\<lambda>text.
      bind (lift (vmdk_Parse text)) (\<lambda>desc.
      seq (require (contains (to_lower (CreateType desc)) ''sparse'' \<and> equal_fold (ParentCID desc) (CID (dk_Descriptor d)) \<and>
          ParentHint desc = path_base (dk_Source d) \<and> length (Extents desc) = 1)
        (Errorf (''the snapshot delta for '' @ dk_Key d @ '' does not attach to the source disk as expected'')))
      (let extent = File (Extents desc ! 0) in
       seq (require (extent = path_base extent \<and> ValidPath extent = None)
         (Errorf (''the snapshot delta for '' @ dk_Key d @ '' has an unexpected extent'')))
       (ret (put out (dk_Key d) \<lparr>de_descriptor = p, de_extent = path_join [dir, extent]\<rparr>)))))))"

definition zero_delta :: delta where
  "zero_delta = \<lparr>de_descriptor = [], de_extent = []\<rparr>"

definition delta_of :: "(string, delta) gomap \<Rightarrow> Disk \<Rightarrow> delta" where
  "delta_of deltas d = (case map_of deltas (dk_Key d) of Some x \<Rightarrow> x | None \<Rightarrow> zero_delta)"

definition taken_names :: "Report \<Rightarrow> string list" where
  "taken_names r = to_lower (path_base (rp_TargetVMX r)) #
     concat (map (\<lambda>d. [to_lower (path_base (dk_Target d)), to_lower (trim_suffix (path_base (dk_Target d)) ''.vmdk'' @ ''-flat.vmdk'')]) (rp_Disks r)) @
     map (\<lambda>f. to_lower (cf_Name f)) (rp_ConfigFiles r)"

text \<open>Every delta file in turn must have a name no other file takes.\<close>

fun distinct_names :: "string list \<Rightarrow> string list \<Rightarrow> err option" where
  "distinct_names taken [] = None"
| "distinct_names taken (f # fs) =
     (if to_lower (path_base f) \<in> set taken
      then Some (Errorf (''the snapshot delta '' @ path_base f @ '' would collide with another file in the target folder''))
      else distinct_names (to_lower (path_base f) # taken) fs)"

definition delta_files :: "Report \<Rightarrow> (string, delta) gomap \<Rightarrow> string list" where
  "delta_files r deltas = concat (map (\<lambda>d. [de_descriptor (delta_of deltas d), de_extent (delta_of deltas d)]) (rp_Disks r))"

definition liveDeltas :: "'w engine \<Rightarrow> Report \<Rightarrow> string \<Rightarrow> ('w, (string, delta) gomap) M" where
  "liveDeltas e r name =
     seq (ownSnapshotOnly e (vm_ID (rp_VM r)) name)
     (bind (x_ReadFile (eg_Host e) (rp_SourceVMX r)) (\<lambda>raw.
     bind (lift (vmx_Parse raw)) (\<lambda>cfg.
     bind (foldM (find_delta e r cfg) (rp_Disks r) []) (\<lambda>out.
     seq (lift_opt (distinct_names (taken_names r) (delta_files r out)))
     (ret out)))))"

text \<open>Between the steps: the registered VM is the same, on the same deltas, with room to grow.\<close>

definition liveGuard :: "'w engine \<Rightarrow> Report \<Rightarrow> string \<Rightarrow> (string, delta) gomap \<Rightarrow> ('w, unit) M" where
  "liveGuard e r name deltas =
     bind (registrations e (rp_SourceVMX r) (rp_TargetVMX r)) (\<lambda>(src, dst).
     seq (require (src = vm_ID (rp_VM r) \<and> dst = 0) (Errorf ''VM registration changed during the live migration''))
     (bind (liveDeltas e r name) (\<lambda>latest.
     seq (require (list_all (\<lambda>(k, d). (case map_of latest k of Some x \<Rightarrow> x | None \<Rightarrow> zero_delta) = d) deltas)
       (Errorf (''the VM'' @ [sq] @ ''s disks changed during the live migration'')))
     (bind (wrap_error ''cannot check source free space: '' (liveSourceFree e r)) (\<lambda>free.
     lift_opt (requireLiveSourceSpace free))))))"

section \<open>The metadata of the snapshot\<close>

record snapshotMeta =
  sm_vmsd :: string
  sm_vmsn :: string
  sm_target :: string

text \<open>The one VMSD of the folder.\<close>

fun find_vmsd :: "string \<Rightarrow> string list \<Rightarrow> string \<Rightarrow> string result" where
  "find_vmsd want [] found = Inr found"
| "find_vmsd want (f # fs) found =
     (if equal_fold (path_ext f) ''.vmsd'' then
        if found \<noteq> [] \<or> path_base f \<noteq> want then Inl (Errorf (''unexpected snapshot metadata file '' @ path_base f))
        else find_vmsd want fs f
      else find_vmsd want fs found)"

definition disk_entry :: "nat \<Rightarrow> string" where
  "disk_entry i = ''snapshot0.disk'' @ nat_digits i @ ''.filename''"

definition names_disk :: "Report \<Rightarrow> string \<Rightarrow> Disk \<Rightarrow> bool" where
  "names_disk r v d = (if dk_External d then v = dk_Source d \<or> v = lookup0 (rp_Config r) (dk_Key d) else v = path_base (dk_Source d))"

text \<open>One entry of the snapshot's disk list: the disk it names, and the text with that name rewritten.\<close>

definition rewrite_entry :: "Report \<Rightarrow> config \<Rightarrow> nat \<Rightarrow> string \<times> string list \<Rightarrow> (string \<times> string list) result" where
  "rewrite_entry r c i st = (case st of (target, used) \<Rightarrow>
     (let v = lookup0 c (disk_entry i) in
      (case find (\<lambda>d. dk_Key d \<notin> set used \<and> names_disk r v d) (rp_Disks r) of
         None \<Rightarrow> Inl (Errorf ''the snapshot metadata names an unexpected disk'')
       | Some d \<Rightarrow>
           Inr (if dk_External d then replace_all target ([dq] @ v @ [dq]) ([dq] @ path_base (dk_Target d) @ [dq]) else target,
                dk_Key d # used))))"

definition check_vmsd :: "Report \<Rightarrow> string \<Rightarrow> config \<Rightarrow> err option" where
  "check_vmsd r name c = (let vmsn = lookup0 c ''snapshot0.filename'' in
     if lookup0 c ''snapshot.numsnapshots'' \<noteq> ''1'' \<or> lookup0 c ''snapshot0.displayname'' \<noteq> name \<or>
        lookup0 c ''snapshot0.numdisks'' \<noteq> itoa (int (length (rp_Disks r))) \<or>
        vmsn \<noteq> path_base vmsn \<or> \<not> equal_fold (path_ext vmsn) ''.vmsn'' \<or> ValidPath vmsn \<noteq> None
     then Some (Errorf (''the snapshot metadata does not describe exactly this job'' @ [sq] @ ''s snapshot'')) else None)"

definition check_rewritten :: "Report \<Rightarrow> config \<Rightarrow> err option" where
  "check_rewritten r c =
     (if list_ex (\<lambda>i. let v = lookup0 c (disk_entry i) in v = [] \<or> v \<noteq> path_base v) [0..<length (rp_Disks r)]
      then Some (Errorf ''the target snapshot metadata would still name a disk outside the target folder'') else None)"

definition vmsd_name :: "Report \<Rightarrow> string" where
  "vmsd_name r = trim_suffix (path_base (rp_SourceVMX r)) (path_ext (rp_SourceVMX r)) @ ''.vmsd''"

definition liveMetadata :: "'w engine \<Rightarrow> Report \<Rightarrow> string \<Rightarrow> ('w, snapshotMeta) M" where
  "liveMetadata e r name =
     bind (x_List (eg_Host e) (rp_SourceDir r)) (\<lambda>files.
     bind (lift (find_vmsd (vmsd_name r) files [])) (\<lambda>vmsd.
     seq (require (vmsd \<noteq> []) (Errorf ''the snapshot metadata file is missing''))
     (bind (x_ReadFile (eg_Host e) vmsd) (\<lambda>text.
     bind (lift (vmx_Parse text)) (\<lambda>c.
     seq (lift_opt (check_vmsd r name c))
     (bind (lift (fold_result (rewrite_entry r c) [0..<length (rp_Disks r)] (text, []))) (\<lambda>(target, used).
     bind (lift (vmx_Parse target)) (\<lambda>rewritten.
     seq (lift_opt (check_rewritten r rewritten))
     (ret \<lparr>sm_vmsd = vmsd, sm_vmsn = path_join [rp_SourceDir r, lookup0 c ''snapshot0.filename''], sm_target = target\<rparr>)))))))))"

section \<open>Verifying what was copied\<close>

definition sameCID :: "'w engine \<Rightarrow> Disk \<Rightarrow> ('w, unit) M" where
  "sameCID e d =
     bind (x_ReadFile (eg_Host e) (dk_Target d)) (\<lambda>raw.
     bind (lift (vmdk_Parse raw)) (\<lambda>desc.
     require (equal_fold (CID desc) (CID (dk_Descriptor d)))
       (Errorf ''the cloned disk has a different CID, so the snapshot delta cannot attach to it'')))"

definition sameSize :: "'w engine \<Rightarrow> string \<Rightarrow> string \<Rightarrow> ('w, unit) M" where
  "sameSize e a b =
     bind (x_Size (eg_Host e) a) (\<lambda>x.
     bind (attempt (x_Size (eg_Host e) b)) (\<lambda>y.
     require (y = Inr x) (Errorf (''the copy of '' @ path_base a @ '' differs in size from the source''))))"

definition verifyDelta :: "'w engine \<Rightarrow> Report \<Rightarrow> delta \<Rightarrow> ('w, unit) M" where
  "verifyDelta e r d = (let h = eg_Host e; target = path_join [rp_TargetDir r, path_base (de_descriptor d)] in
     bind (x_ReadFile h (de_descriptor d)) (\<lambda>a.
     bind (attempt (x_ReadFile h target)) (\<lambda>b.
     seq (require (b = Inr a) (Errorf ''the copied delta descriptor differs from the source''))
     (seq (wrap_error ''the target disk chain is not consistent: '' (x_VerifyChain h target))
     (sameSize e (de_extent d) (path_join [rp_TargetDir r, path_base (de_extent d)]))))))"

definition verifyCopies :: "'w engine \<Rightarrow> Report \<Rightarrow> snapshotMeta \<Rightarrow> ('w, unit) M" where
  "verifyCopies e r m =
     seq (sameSize e (sm_vmsn m) (path_join [rp_TargetDir r, path_base (sm_vmsn m)]))
     (bind (attempt (x_ReadFile (eg_Host e) (path_join [rp_TargetDir r, path_base (sm_vmsd m)]))) (\<lambda>written.
     require (written = Inr (sm_target m)) (Errorf ''the target snapshot metadata differs from what was written'')))"

text \<open>A merge is done when no snapshot is left and the VMX names the base disks again.\<close>

fun wrong_name :: "config \<Rightarrow> (string, string) gomap \<Rightarrow> string option" where
  "wrong_name cfg [] = None"
| "wrong_name cfg ((k, want) # names) = (if lookup0 cfg k \<noteq> want then Some k else wrong_name cfg names)"

definition merged :: "'w engine \<Rightarrow> int \<Rightarrow> string \<Rightarrow> (string, string) gomap \<Rightarrow> ('w, unit) M" where
  "merged e i vmxPath names =
     bind (x_Snapshot (eg_Host e) i) (\<lambda>tree.
     seq (require (SnapshotNames tree = Inr []) (Errorf ''a snapshot is still present after merging''))
     (bind (x_ReadFile (eg_Host e) vmxPath) (\<lambda>raw.
     bind (lift (vmx_Parse raw)) (\<lambda>cfg.
     (case wrong_name cfg names of
        Some k \<Rightarrow> fail (Errorf (''after merging, '' @ k @ '' does not name the base disk''))
      | None \<Rightarrow> ret ())))))"

definition sourceNames :: "Report \<Rightarrow> (string, string) gomap" where
  "sourceNames r = fold (\<lambda>d names. put names (dk_Key d) (lookup0 (rp_Config r) (dk_Key d))) (rp_Disks r) []"

section \<open>Putting the source back\<close>

definition restore_target :: "'w engine \<Rightarrow> Report \<Rightarrow> int \<times> int \<Rightarrow> ('w, int) M" where
  "restore_target e r found = (let h = eg_Host e; (src, dst) = found in
     if dst = 0 then ret src
     else
      bind (attempt (requireOff e dst)) (\<lambda>off.
      seq (require (is_ok off) (Errorf ''the target is registered and not powered off''))
      (bind (attempt (x_Unregister h dst)) (\<lambda>unregister.
      bind (attempt (registrations e (rp_SourceVMX r) (rp_TargetVMX r))) (\<lambda>again1.
      (case again1 of
         Inl _ \<Rightarrow> fail (Errorf (''the target could not be unregistered ('' @ err_v (error_of unregister) @ '')''))
       | Inr (src', dst') \<Rightarrow>
           seq (require (dst' = 0) (Errorf (''the target could not be unregistered ('' @ err_v (error_of unregister) @ '')'')))
           (seq (publishRegistrations e src' dst') (ret src'))))))))"

definition restore_registration :: "'w engine \<Rightarrow> Report \<Rightarrow> int \<Rightarrow> ('w, int) M" where
  "restore_registration e r src = (let h = eg_Host e in
     if src \<noteq> 0 then ret src
     else
      bind (attempt (x_Register h (rp_SourceVMX r))) (\<lambda>register.
      bind (attempt (registrations e (rp_SourceVMX r) (rp_TargetVMX r))) (\<lambda>again1.
      (case again1 of
         Inl _ \<Rightarrow> fail (Errorf (''the source could not be registered again ('' @ err_v (error_of register) @ '')''))
       | Inr (src', dst') \<Rightarrow>
           seq (require (src' \<noteq> 0 \<and> dst' = 0) (Errorf (''the source could not be registered again ('' @ err_v (error_of register) @ '')'')))
           (seq (publishRegistrations e src' dst') (ret src'))))))"

definition restoreSource :: "'w engine \<Rightarrow> Report \<Rightarrow> string \<Rightarrow> ('w, unit) M" where
  "restoreSource e r name = (let h = eg_Host e in
     bind (registrations e (rp_SourceVMX r) (rp_TargetVMX r)) (\<lambda>found.
     seq (publishRegistrations e (fst found) (snd found))
     (bind (restore_target e r found) (\<lambda>src0.
     bind (restore_registration e r src0) (\<lambda>src.
     bind (x_Snapshot h src) (\<lambda>tree.
     bind (lift (SnapshotNames tree)) (\<lambda>names.
     seq (if names = [] then ret ()
       else if names = [name] then x_ConsolidateOwnSnapshot h src name
       else fail (Errorf ''the source has snapshots this job did not take''))
     (seq (merged e src (rp_SourceVMX r) (sourceNames r))
     (bind (attempt (x_Power h src)) (\<lambda>p.
     seq (case p of Inr pw \<Rightarrow> j_update h (\<lambda>s. s\<lparr>js_SourcePower := pw\<rparr>) | Inl _ \<Rightarrow> ret ())
     (x_Finish h (rp_ID r))))))))))))"

section \<open>The end of a live COPY\<close>

definition mergeCopy :: "'w engine \<Rightarrow> Report \<Rightarrow> string \<Rightarrow> ('w, unit) M" where
  "mergeCopy e r name = (let h = eg_Host e in
     seq (j_phase h PhaseConsolidating ''Merging the snapshot into the copy; it is registered only for this and stays off'')
     (bind (attempt (x_Register h (rp_TargetVMX r))) (\<lambda>register.
     bind (registrations e (rp_SourceVMX r) (rp_TargetVMX r)) (\<lambda>(src, dst).
     seq (require (dst \<noteq> 0 \<and> src = vm_ID (rp_VM r) \<and> (case register of Inr i \<Rightarrow> dst = i | Inl _ \<Rightarrow> True))
       (Errorf (''the copy could not be registered to merge its snapshot ('' @ err_v (error_of register) @ '')'')))
     (seq (requireOff e dst)
     (seq (x_ConsolidateOwnSnapshot h dst name)
     (seq (merged e dst (rp_TargetVMX r) (diskNames (rp_Disks r) []))
     (bind (attempt (x_Unregister h dst)) (\<lambda>unregister.
     bind (attempt (registrations e (rp_SourceVMX r) (rp_TargetVMX r))) (\<lambda>found.
     seq (require (case found of Inr (_, dst') \<Rightarrow> dst' = 0 | Inl _ \<Rightarrow> False)
       (Errorf (''the copy stayed registered after merging ('' @ err_v (error_of unregister) @ '')'')))
     (seq (j_phase h PhaseConsolidating ''Merging the temporary snapshot back into the source'')
     (seq (x_ConsolidateOwnSnapshot h (vm_ID (rp_VM r)) name)
     (merged e (vm_ID (rp_VM r)) (rp_SourceVMX r) (sourceNames r))))))))))))))"

section \<open>The migration\<close>

definition live_check :: "'w engine \<Rightarrow> Report \<Rightarrow> progress \<Rightarrow> ('w, Report) M" where
  "live_check e r done =
     bind (e_inspect e (rp_Request r) (rp_ID r) done) (\<lambda>fresh.
     seq (lift_opt (matchPlan r fresh))
     (seq (require (rp_Power fresh = On) (Errorf ''the source is no longer running; analyze again without shutting down at the end''))
     (ret fresh)))"

text \<open>One disk. The result is the error, if any, and whether a clone may still be running: \<open>pending\<close> is what the
  disk before left behind.\<close>

definition clone_live_disk :: "'w engine \<Rightarrow> Report \<Rightarrow> string \<Rightarrow> (string, delta) gomap \<Rightarrow> bool \<Rightarrow> nat \<times> Disk \<Rightarrow> ('w, err option \<times> bool) M" where
  "clone_live_disk e r name deltas pending x = (let h = eg_Host e; i = int (fst x); d = snd x in
     bind (attempt (bind (j_stopRequested h) (\<lambda>stop.
       seq (require (\<not> stop) Stopped)
       (seq (liveGuard e r name deltas)
       (j_update_at h (start_disk ''Cloning the base disk while the VM keeps running'' i d)))))) (\<lambda>before.
     (case before of
        Inl c \<Rightarrow> ret (Some c, pending)
      | Inr _ \<Rightarrow>
          bind (attempt (x_StartClone h (rp_ID r) i (vm_ID (rp_VM r)) (dk_Source d) (dk_Target d) False)) (\<lambda>start.
          seq (if is_ok start then ret ()
            else j_phase h PhaseReconnecting ''Clone launch result is unknown; inspecting metadata without relaunching'')
          (bind (waitClone e i (error_of start)) (\<lambda>(exited, er).
          (case er of
             Some c \<Rightarrow> ret (Some c, \<not> exited)
           | None \<Rightarrow>
               bind (attempt (seq (j_phase h PhaseVerifyingDisk ''Verifying the cloned base disk'')
                 (seq (wrap_error ''target disk verification failed: '' (verifyDisk h d)) (sameCID e d)))) (\<lambda>verified.
               ret (error_of verified, \<not> exited)))))))))"

fun clone_live :: "'w engine \<Rightarrow> Report \<Rightarrow> string \<Rightarrow> (string, delta) gomap \<Rightarrow> bool \<Rightarrow> (nat \<times> Disk) list \<Rightarrow> ('w, err option \<times> bool) M" where
  "clone_live e r name deltas pending [] = ret (None, pending)"
| "clone_live e r name deltas pending (x # xs) =
     bind (clone_live_disk e r name deltas pending x) (\<lambda>(er, pending').
     (case er of Some c \<Rightarrow> ret (Some c, pending') | None \<Rightarrow> clone_live e r name deltas pending' xs))"

definition copy_delta :: "'w engine \<Rightarrow> Report \<Rightarrow> (string, delta) gomap \<Rightarrow> Disk \<Rightarrow> ('w, unit) M" where
  "copy_delta e r deltas d =
     each (\<lambda>f. x_CopyToTarget (eg_Host e) f (rp_TargetDir r)) [de_descriptor (delta_of deltas d), de_extent (delta_of deltas d)]"

definition delta_names :: "Report \<Rightarrow> (string, delta) gomap \<Rightarrow> (string, string) gomap" where
  "delta_names r deltas = fold (\<lambda>d names. put names (dk_Key d) (path_base (de_descriptor (delta_of deltas d)))) (rp_Disks r) []"

definition live_config :: "Report \<Rightarrow> (string, string) gomap \<Rightarrow> config" where
  "live_config r names = fold (\<lambda>kv c. put c (fst kv) (snd kv)) names (vmx_Clone (rp_TargetConfig r))"

text \<open>From the last clone to the verified target.\<close>

definition cutover :: "'w engine \<Rightarrow> Report \<Rightarrow> Report \<Rightarrow> string \<Rightarrow> (string, delta) gomap \<Rightarrow> ('w, unit) M" where
  "cutover e r fresh name deltas = (let h = eg_Host e; names = delta_names r deltas in
     seq (liveGuard e r name deltas)
     (seq (j_proceed h PhaseCutover ''Shutting down the source to copy what changed during the clone'')
     (seq (shutdown e fresh (liveGuard e r name deltas))
     (seq (liveGuard e r name deltas)
     (bind (liveMetadata e r name) (\<lambda>meta.
     seq (j_phase h PhaseCutover ''Copying the changes and the snapshot metadata to the target'')
     (seq (each (copy_delta e r deltas) (rp_Disks r))
     (seq (x_CopyToTarget h (sm_vmsn meta) (rp_TargetDir r))
     (seq (x_WriteTarget h (rp_TargetDir r) (path_base (sm_vmsd meta)) (sm_target meta))
     (seq (j_phase h PhaseVerifyingConfig ''Writing the target configuration and verifying disks, changes and metadata'')
     (seq (copyConfig h r (live_config r names) (diskNames (rp_Disks r) names))
     (seq (each (\<lambda>d. seq (verifyDisk h d) (verifyDelta e r (delta_of deltas d))) (rp_Disks r))
     (seq (verifyCopies e r meta)
     (j_update h (\<lambda>s. s\<lparr>js_TargetVerified := True\<rparr>)))))))))))))))"

text \<open>What is left after the switch of a MOVE: the result is a warning, or nothing.\<close>

definition live_after :: "'w engine \<Rightarrow> Report \<Rightarrow> string \<Rightarrow> ('w, string) M" where
  "live_after e r name = (let h = eg_Host e in
     seq (if rq_PowerOn (rp_Request r) then powerOn e else ret ())
     (bind (j_Snapshot h) (\<lambda>s.
     seq (j_phase h PhaseConsolidating ''Merging the temporary snapshot on the target'')
     (bind (attempt (x_ConsolidateOwnSnapshot h (js_TargetVMID s) name)) (\<lambda>merge.
     bind (case merge of
         Inl c \<Rightarrow> ret (err_text c)
       | Inr _ \<Rightarrow> bind (attempt (merged e (js_TargetVMID s) (rp_TargetVMX r) (diskNames (rp_Disks r) []))) (\<lambda>v.
           ret (case v of Inl c \<Rightarrow> err_text c | Inr _ \<Rightarrow> []))) (\<lambda>warning.
     seq (archive_lock e r) (ret warning)))))))"

definition live_warning :: "Report \<Rightarrow> string \<Rightarrow> string \<Rightarrow> State \<Rightarrow> State" where
  "live_warning r name warning s = (if warning = [] then s
     else s\<lparr>js_Error := (''The target'' @ [sq] @ ''s temporary snapshot '') @ name @ '' could not be merged ('' @ warning @ ''). Consolidate it in Host Client.'' @
       (case find dk_External (rp_Disks r) of
          None \<Rightarrow> []
        | Some d \<Rightarrow> '' Never revert to it: its saved configuration still names the source disk '' @ dk_Source d @ ''.'')\<rparr>)"

definition copy_message :: string where
  "copy_message = ''Completed. The copy holds everything up to the shutdown and is left unregistered. The source is off; start it in Host Client when you need it.''"

definition move_message :: "Report \<Rightarrow> string" where
  "move_message r = ''Completed. The VM was down only while the changes were copied. No source VM files were deleted.'' @ autostartNote r"

text \<open>The error of the migration, whether a clone may still be running, and whether the registration was switched.\<close>

type_synonym live_end = "err option \<times> bool \<times> bool"

definition live_close :: "'w engine \<Rightarrow> Report \<Rightarrow> Report \<Rightarrow> string \<Rightarrow> (string, delta) gomap \<Rightarrow> bool \<Rightarrow> ('w, live_end) M" where
  "live_close e r fresh name deltas pending = (let h = eg_Host e; copy = (rq_Mode (rp_Request r) = modeCopy) in
     bind (attempt (seq (cutover e r fresh name deltas)
       (if copy then seq (mergeCopy e r name) (archive_lock e r) else commit e r))) (\<lambda>switched.
     (case switched of
        Inl c \<Rightarrow> ret (Some c, pending, False)
      | Inr _ \<Rightarrow>
          if copy then seq (j_update h (completed copy_message)) (ret (None, pending, False))
          else bind (attempt (live_after e r name)) (\<lambda>rest.
            (case rest of
               Inl c \<Rightarrow> ret (Some c, pending, True)
             | Inr warning \<Rightarrow>
                 seq (j_update h (\<lambda>s. live_warning r name warning (completed (move_message r) s)))
                 (ret (None, pending, True)))))))"

definition live_body :: "'w engine \<Rightarrow> Report \<Rightarrow> Report \<Rightarrow> string \<Rightarrow> unit result \<Rightarrow> ('w, live_end) M" where
  "live_body e r fresh name snap =
     bind (attempt (case snap of
         Inl c \<Rightarrow> fail (Wrapped ''the snapshot could not be taken: '' c [])
       | Inr _ \<Rightarrow>
           bind (liveDeltas e r name) (\<lambda>deltas.
           seq (x_CreateTarget (eg_Host e) (rp_TargetDir r)) (ret deltas)))) (\<lambda>ready.
     (case ready of
        Inl c \<Rightarrow> ret (Some c, False, False)
      | Inr deltas \<Rightarrow>
          bind (clone_live e r name deltas False (enumerate 0 (rp_Disks r))) (\<lambda>(er, pending).
          (case er of
             Some c \<Rightarrow> ret (Some c, pending, False)
           | None \<Rightarrow> live_close e r fresh name deltas pending))))"

text \<open>The deferred end of \<open>live\<close>.\<close>

definition live_deferred :: "'w engine \<Rightarrow> Report \<Rightarrow> string \<Rightarrow> live_end \<Rightarrow> ('w, unit) M" where
  "live_deferred e r name x = (case x of (er, pending, committed) \<Rightarrow>
     (case er of
        None \<Rightarrow> ret ()
      | Some c \<Rightarrow>
          if committed then fail c
          else if pending
          then fail (Wrapped [] c (''; clone exit was not confirmed: the source snapshot '' @ name @
            '' and operation lock are retained. Confirm the clone has ended on ESXi before merging the snapshot or archiving the lock''))
          else seq (j_phase (eg_Host e) PhaseRestoring ''Restoring the source: registering it as before and merging the temporary snapshot'')
            (bind (attempt (restoreSource e r name)) (\<lambda>back.
            (case back of
               Inl rc \<Rightarrow> fail (Errorf (err_text c @ ''; restoring the source needs manual review: '' @ err_text rc))
             | Inr _ \<Rightarrow> fail (Restored c))))))"

definition live :: "'w engine \<Rightarrow> ('w, unit) M" where
  "live e = (let h = eg_Host e in
     bind j_plan (\<lambda>r.
     seq (require (rp_Ready r) (Errorf ''analysis was blocked''))
     (seq (j_phase h PhasePreflight ''Repeating all critical safety checks'')
     (bind (live_check e r fresh_start) (\<lambda>_.
     seq (wrap_error ''cannot acquire host operation lock: '' (x_Acquire h (rp_ID r) (lock_text r (''live-'' @ rq_Mode (rp_Request r)))))
     (bind (live_check e r (fresh_start\<lparr>pg_ownLock := True\<rparr>)) (\<lambda>fresh.
     let name = liveSnapshot (rp_ID r) in
     seq (j_phase h PhaseSnapshot ''Taking a temporary snapshot; the VM keeps running'')
     (bind (attempt (x_CreateSnapshot h (vm_ID (rp_VM r)) name)) (\<lambda>snap.
     bind (live_body e r fresh name snap) (live_deferred e r name))))))))))"

definition restored_state :: "err \<Rightarrow> State \<Rightarrow> State" where
  "restored_state c s = s\<lparr>js_Phase := PhaseRolledBack, js_Error := err_text c,
     js_Message := ''Nothing was switched. The source is registered as before, without the temporary snapshot; if it had already been shut down, start it in Host Client. Files written to the target folder are kept.'',
     js_Complete := True, js_CanRollback := False\<rparr>"

definition runLive :: "'w engine \<Rightarrow> ('w, unit) M" where
  "runLive e = bind (attempt (live e)) (\<lambda>r. case r of
      Inr _ \<Rightarrow> ret ()
    | Inl c \<Rightarrow> (case as_restored c of
        Some cause \<Rightarrow> j_update (eg_Host e) (restored_state cause)
      | None \<Rightarrow> markFailed e c))"

definition Run :: "'w engine \<Rightarrow> ('w, unit) M" where
  "Run e = bind j_plan (\<lambda>r. if rq_Live (rp_Request r) then runLive e else Run_cold e)"

end
