(* ===== verification/Run_Rules.thy ===== *)
theory Run_Rules
  imports Live
begin

text \<open>
  What holds throughout a run. \<open>keeps I m\<close>: a state with \<open>I\<close> is left with \<open>I\<close>, whether \<open>m\<close> ends with
  a value, an error or no fuel; it follows from the structure of the code. The locale \<open>run_law\<close> is the contract
  between an invariant and the engine: it survives the operator's requests, the job's own
  operations and every host call of a kind \<open>C\<close>. Under it, all parts of the engine keep the invariant whose
  host calls are of that kind.
\<close>

section \<open>Invariants of code\<close>

definition keeps :: "('w st \<Rightarrow> bool) \<Rightarrow> ('w, 'a) M \<Rightarrow> bool" where
  "keeps I m = hoare I m (\<lambda>_. I) (\<lambda>_. I)"

named_theorems keeps_intros \<open>code that keeps an invariant\<close>

lemma keeps_alt: "keeps I m \<longleftrightarrow> (\<forall>s. I s \<longrightarrow> I (snd (m s)))"
  by (simp add: keeps_def hoare_def split_beta split: sum.split)

lemma keepsI: "(\<And>s. I s \<Longrightarrow> I (snd (m s))) \<Longrightarrow> keeps I m"
  by (simp add: keeps_alt)

lemma keepsD: "keeps I m \<Longrightarrow> I s \<Longrightarrow> I (snd (m s))"
  by (simp add: keeps_alt)

lemma keeps_hoare: "keeps I m \<Longrightarrow> hoare I m (\<lambda>_. I) (\<lambda>_. I)"
  by (simp add: keeps_def)

lemma hoare_keeps: "hoare I m (\<lambda>_. I) (\<lambda>_. I) \<Longrightarrow> keeps I m"
  by (simp add: keeps_def)

lemma keeps_ret [keeps_intros]: "keeps I (ret x)"
  and keeps_throw [keeps_intros]: "keeps I (throw e)"
  and keeps_fail [keeps_intros]: "keeps I (fail f)"
  by (simp_all add: keeps_alt ret_def throw_def fail_def)

lemma keeps_bind [keeps_intros]: "keeps I m \<Longrightarrow> (\<And>x. keeps I (f x)) \<Longrightarrow> keeps I (bind m f)"
  unfolding keeps_def by (rule hoare_bind)

lemma keeps_seq [keeps_intros]: "keeps I m \<Longrightarrow> keeps I k \<Longrightarrow> keeps I (seq m k)"
  by (simp add: seq_def keeps_bind)

lemma keeps_attempt [keeps_intros]: "keeps I m \<Longrightarrow> keeps I (attempt m)"
  by (simp add: keeps_alt snd_attempt)

lemma keeps_lift [keeps_intros]: "keeps I (lift r)"
  by (cases r) (simp_all add: lift_def keeps_intros)

lemma keeps_lift_opt [keeps_intros]: "keeps I (lift_opt r)"
  by (cases r) (simp_all add: lift_opt_def keeps_intros)

lemma keeps_require [keeps_intros]: "keeps I (require b e)"
  by (simp add: require_def keeps_intros)

lemma keeps_if [keeps_intros]: "(b \<Longrightarrow> keeps I m) \<Longrightarrow> (\<not> b \<Longrightarrow> keeps I k) \<Longrightarrow> keeps I (if b then m else k)"
  by simp

lemma keeps_option [keeps_intros]:
  "(x = None \<Longrightarrow> keeps I m) \<Longrightarrow> (\<And>y. x = Some y \<Longrightarrow> keeps I (f y)) \<Longrightarrow> keeps I (case x of None \<Rightarrow> m | Some y \<Rightarrow> f y)"
  by (cases x) simp_all

lemma keeps_sum [keeps_intros]:
  "(\<And>e. x = Inl e \<Longrightarrow> keeps I (g e)) \<Longrightarrow> (\<And>y. x = Inr y \<Longrightarrow> keeps I (f y)) \<Longrightarrow> keeps I (case x of Inl e \<Rightarrow> g e | Inr y \<Rightarrow> f y)"
  by (cases x) simp_all

lemma keeps_prod [keeps_intros]: "(\<And>a b. x = (a, b) \<Longrightarrow> keeps I (f a b)) \<Longrightarrow> keeps I (case x of (a, b) \<Rightarrow> f a b)"
  by (cases x) simp

lemma keeps_let [keeps_intros]: "keeps I (f x) \<Longrightarrow> keeps I (let y = x in f y)"
  by simp

lemma keeps_each [keeps_intros]: "(\<And>x. x \<in> set xs \<Longrightarrow> keeps I (f x)) \<Longrightarrow> keeps I (each f xs)"
  by (induction xs) (simp_all add: keeps_intros)

lemma keeps_foldM [keeps_intros]: "(\<And>x a. x \<in> set xs \<Longrightarrow> keeps I (f x a)) \<Longrightarrow> keeps I (foldM f xs a)"
  by (induction xs arbitrary: a) (simp_all add: keeps_intros)

lemma keeps_wrap_error [keeps_intros]: "keeps I m \<Longrightarrow> keeps I (wrap_error p m)"
  unfolding wrap_error_def by (intro keeps_intros)

text \<open>Two invariants, or one from the other, around the same code.\<close>

lemma keeps_both: "keeps I m \<Longrightarrow> keeps J m \<Longrightarrow> keeps (\<lambda>s. I s \<and> J s) m"
  by (simp add: keeps_alt)

lemma hoare_into:
  assumes "hoare I m (\<lambda>_. J) (\<lambda>_. I)" and "keeps J k" and "\<And>s. J s \<Longrightarrow> I s"
  shows "keeps I (seq m k)"
  unfolding keeps_def
  by (rule hoare_seq [OF assms(1)], rule hoare_conseq [OF keeps_hoare [OF assms(2)]]) (simp_all add: assms(3))

text \<open>
  Where \<open>m\<close> leads from \<open>I\<close> to a stronger \<open>J\<close>, or code keeps a stronger \<open>K\<close> on the way back to \<open>I\<close>.
\<close>

lemma hoare_attempt_into:
  assumes "hoare I m (\<lambda>_. J) (\<lambda>_. I)" and "\<And>c. keeps I (f (Inl c))" and "\<And>x. hoare J (f (Inr x)) (\<lambda>_. I) (\<lambda>_. I)"
  shows "keeps I (bind (attempt m) f)"
proof (rule hoare_keeps, rule hoare_bind)
  show "hoare I (attempt m) (\<lambda>r s. case r of Inl _ \<Rightarrow> I s | Inr _ \<Rightarrow> J s) (\<lambda>_. I)"
    by (rule hoare_attempt, rule hoare_conseq [OF assms(1)]) (simp_all split: exn.split)
  show "hoare (\<lambda>s. case r of Inl _ \<Rightarrow> I s | Inr _ \<Rightarrow> J s) (f r) (\<lambda>_. I) (\<lambda>_. I)" for r
    using keeps_hoare [OF assms(2)] assms(3) by (cases r) simp_all
qed

lemma hoare_within: "keeps K m \<Longrightarrow> (\<And>s. K s \<Longrightarrow> I s) \<Longrightarrow> hoare K m (\<lambda>_. K) (\<lambda>_. I)"
  by (erule hoare_conseq [OF keeps_hoare]) simp_all

lemma hoare_from: "keeps J k \<Longrightarrow> (\<And>s. J s \<Longrightarrow> I s) \<Longrightarrow> hoare J k (\<lambda>_. I) (\<lambda>_. I)"
  by (erule hoare_conseq [OF keeps_hoare]) simp_all

lemma keeps_attempt_into:
  assumes "hoare I m (\<lambda>_. J) (\<lambda>_. I)" and "\<And>c. keeps I (f (Inl c))" and "\<And>x. keeps J (f (Inr x))" and "\<And>s. J s \<Longrightarrow> I s"
  shows "keeps I (bind (attempt m) f)"
proof (rule hoare_attempt_into [OF assms(1)])
  show "hoare J (f (Inr x)) (\<lambda>_. I) (\<lambda>_. I)" for x
    by (rule hoare_from [OF assms(3,4)])
qed (rule assms(2))

lemma hoare_stay_bind: "keeps K m \<Longrightarrow> (\<And>s. K s \<Longrightarrow> I s) \<Longrightarrow> (\<And>x. hoare K (f x) Q (\<lambda>_. I)) \<Longrightarrow> hoare K (bind m f) Q (\<lambda>_. I)"
  by (rule hoare_bind, rule hoare_within) simp_all

lemma hoare_stay_seq: "keeps K m \<Longrightarrow> (\<And>s. K s \<Longrightarrow> I s) \<Longrightarrow> hoare K k Q (\<lambda>_. I) \<Longrightarrow> hoare K (seq m k) Q (\<lambda>_. I)"
  unfolding seq_def by (rule hoare_stay_bind)

lemma hoare_enter: "hoare I m (\<lambda>_. K) (\<lambda>_. I) \<Longrightarrow> hoare K k (\<lambda>_. I) (\<lambda>_. I) \<Longrightarrow> keeps I (seq m k)"
  unfolding keeps_def by (rule hoare_seq)

lemma hoare_keeps_seq: "keeps I m \<Longrightarrow> hoare I k Q (\<lambda>_. I) \<Longrightarrow> hoare I (seq m k) Q (\<lambda>_. I)"
  unfolding keeps_def by (rule hoare_seq)

lemma hoare_keeps_bind: "keeps I m \<Longrightarrow> (\<And>x. hoare I (f x) Q (\<lambda>_. I)) \<Longrightarrow> hoare I (bind m f) Q (\<lambda>_. I)"
  unfolding keeps_def by (rule hoare_bind)

lemma keeps_bind_gives: "gives R m \<Longrightarrow> keeps I m \<Longrightarrow> (\<And>x. R x \<Longrightarrow> keeps I (f x)) \<Longrightarrow> keeps I (bind m f)"
  by (auto simp: keeps_alt bind_def gives_def split_beta split: sum.split) (metis prod.collapse)

section \<open>The contract\<close>

text \<open>What the plan of a job keeps through a run, though every inspection makes a new report.\<close>

record plan_id =
  pi_Request :: Request
  pi_ID :: string
  pi_Source :: string
  pi_Target :: string
  pi_Fingerprint :: string

definition plan_key :: "Report \<Rightarrow> plan_id" where
  "plan_key r = \<lparr>pi_Request = rp_Request r, pi_ID = rp_ID r, pi_Source = rp_SourceVMX r, pi_Target = rp_TargetVMX r,
     pi_Fingerprint = rp_Fingerprint r\<rparr>"

lemma plan_key_simps [simp]:
  "pi_Request (plan_key r) = rp_Request r" "pi_ID (plan_key r) = rp_ID r" "pi_Source (plan_key r) = rp_SourceVMX r"
  "pi_Target (plan_key r) = rp_TargetVMX r" "pi_Fingerprint (plan_key r) = rp_Fingerprint r"
  by (simp_all add: plan_key_def)

definition same_control :: "Job \<Rightarrow> Job \<Rightarrow> bool" where
  "same_control j k = (jb_stop k = jb_stop j \<and> jb_final k = jb_final j \<and> jb_actions k = jb_actions j \<and>
     jb_plan k = jb_plan j)"

definition with_job :: "Job \<Rightarrow> 'w st \<Rightarrow> 'w st" where
  "with_job j s = s\<lparr>s_job := j\<rparr>"

locale run_law =
  fixes I :: "'w st \<Rightarrow> bool" and C :: "call \<Rightarrow> bool" and q :: plan_id
  assumes call: "I s \<Longrightarrow> C c \<Longrightarrow> I (noted c s)"
    and world: "I s \<Longrightarrow> I (s\<lparr>s_world := w\<rparr>)"
    and serves: "I s \<Longrightarrow> I (serve x s)"
    and planned: "I s \<Longrightarrow> plan_key (jb_plan (s_job s)) = q"
    and job: "I s \<Longrightarrow> same_control (s_job s) j \<Longrightarrow> I (with_job j s)"
    and past: "I s \<Longrightarrow> \<not> jb_stop (s_job s) \<Longrightarrow> I (with_job (snd (proceed p m t (s_job s))) s)"
    and taken: "I s \<Longrightarrow> I (snd (take_action s))"
    and reads: "is_read c \<Longrightarrow> C c"
begin

lemma all_served: "I s \<Longrightarrow> I (fold serve qs s)"
  by (induction qs arbitrary: s) (simp_all add: serves)

lemma keeps_call [keeps_intros]: "(\<And>r. C (c r)) \<Longrightarrow> keeps I (call_host f c)"
  by (rule keepsI) (simp add: call_host_def split_beta call world)

lemma keeps_now [keeps_intros]: "keeps I (now h)"
  and keeps_pause [keeps_intros]: "keeps I (pause h d)"
  by (simp_all add: keeps_alt now_def pause_def split_beta world)

lemma keeps_turn [keeps_intros]: "keeps I (operator_turn h)"
  by (simp add: keeps_alt operator_turn_def split_beta all_served world)

lemma keeps_on_job: "(\<And>j. same_control j (snd (f j))) \<Longrightarrow> keeps I (on_job f)"
  unfolding keeps_alt on_job_def by (simp add: split_beta job [unfolded with_job_def])

lemma keeps_proceed_job: "keeps I (on_job (proceed p m t))"
proof (rule keepsI)
  fix s
  assume I: "I s"
  show "I (snd (on_job (proceed p m t) s))"
  proof (cases "jb_stop (s_job s)")
    case True
    then have "snd (on_job (proceed p m t) s) = s" by (simp add: on_job_def proceed_def)
    with I show ?thesis by simp
  next
    case False
    with past [OF I False] show ?thesis by (simp add: on_job_def with_job_def split_beta)
  qed
qed

lemma keeps_job [keeps_intros]:
  "keeps I (j_update h u)" "keeps I (j_update_at h v)" "keeps I (j_phase h p m)" "keeps I (j_stopRequested h)"
  "keeps I (j_proceed h p m)" "keeps I (j_Snapshot h)" "keeps I j_plan"
  unfolding j_phase_def j_update_def j_update_at_def j_stopRequested_def j_proceed_def j_Snapshot_def j_plan_def
  by (intro keeps_intros keeps_on_job keeps_proceed_job; simp add: same_control_def)+

lemma keeps_plan_bind: "(\<And>r. plan_key r = q \<Longrightarrow> keeps I (f r)) \<Longrightarrow> keeps I (bind j_plan f)"
  by (simp add: keeps_alt bind_def j_plan_def on_job_def planned)

lemma keeps_show_clone [keeps_intros]: "keeps I (j_update_job h (show_clone i status))"
  unfolding j_update_job_def
  by (intro keeps_intros keeps_on_job) (simp add: same_control_def show_clone_def Let_def)

lemma keeps_await [keeps_intros]: "keeps I (await_action n h)"
proof (induction n)
  case 0
  show ?case by (simp add: keeps_alt)
next
  case (Suc n)
  show ?case
  proof (rule keepsI)
    fix s
    assume I: "I s"
    obtain k w where k: "h_wake h (s_world s) = (k, w)" by (cases "h_wake h (s_world s)")
    show "I (snd (await_action (Suc n) h s))"
    proof (cases k)
      case (Cancelled c)
      with k I show ?thesis by (simp add: world)
    next
      case (Requests qs)
      let ?t = "fold serve qs (s\<lparr>s_world := w\<rparr>)"
      from I have t: "I (snd (take_action ?t))" by (simp add: world all_served taken)
      with k Requests keepsD [OF Suc.IH t] show ?thesis by (cases "take_action ?t"; cases "fst (take_action ?t)") simp_all
    qed
  qed
qed

lemma keeps_quiet: "quiet is_read m \<Longrightarrow> keeps I m"
proof (rule keepsI)
  fix s
  assume q: "quiet is_read m" and I: "I s"
  obtain w new where new: "snd (m s) = after s w new" "\<forall>c \<in> set new. is_read c"
    by (rule quietD [OF q])
  have "I (after s w cs)" if "\<forall>c \<in> set cs. is_read c" for cs
    using that
  proof (induction cs)
    case Nil
    from world [OF I, of w] show ?case by (simp add: world_after)
  next
    case (Cons c cs)
    have "after s w (c # cs) = noted c (after s w cs)" by (simp add: noted_def after_def)
    with Cons call reads show ?case by simp
  qed
  with new show "I (snd (m s))" by simp
qed

end

text \<open>
  Where the invariant also survives a new report on the same plan, which a cold migration makes after the
  shutdown.
\<close>

locale replan_law = run_law +
  assumes replanned: "I s \<Longrightarrow> plan_key r = q \<Longrightarrow> I (with_job ((s_job s)\<lparr>jb_plan := r\<rparr>) s)"
begin

lemma keeps_set_plan: "plan_key r = q \<Longrightarrow> keeps I (j_set_plan r)"
  unfolding keeps_alt j_set_plan_def on_job_def by (simp add: replanned [unfolded with_job_def])

end

text \<open>The operator does not move the phase.\<close>

lemma served_phase [simp]: "js_Phase (jb_state (s_job (serve x s))) = js_Phase (jb_state (s_job s))"
  by (cases x) (auto simp: noted_def requestStop_def control_send_def try_send_def Let_def split: prod.split option.splits)

lemma all_served_phase [simp]: "js_Phase (jb_state (s_job (fold serve xs s))) = js_Phase (jb_state (s_job s))"
  by (induction xs arbitrary: s) simp_all

lemma taken_phase [simp]: "js_Phase (jb_state (s_job (snd (take_action s)))) = js_Phase (jb_state (s_job s))"
  by (simp add: take_action_def noted_def split: option.split)

section \<open>Triples of the job's operations\<close>

lemma hoare_turn:
  assumes "\<And>s w. P s \<Longrightarrow> P (s\<lparr>s_world := w\<rparr>)" and "\<And>s x. P s \<Longrightarrow> P (serve x s)"
  shows "hoare P (operator_turn h) (\<lambda>_. P) E"
proof -
  have "P (fold serve xs s)" if "P s" for xs s
    using that by (induction xs arbitrary: s) (simp_all add: assms(2))
  then show ?thesis by (simp add: hoare_def operator_turn_def split_beta assms(1))
qed

lemma hoare_update:
  assumes "\<And>s w. P s \<Longrightarrow> P (s\<lparr>s_world := w\<rparr>)" and "\<And>s x. P s \<Longrightarrow> P (serve x s)"
    and "\<And>s t. P s \<Longrightarrow> Q () (with_job (update_job f t (s_job s)) s)"
  shows "hoare P (j_update h f) Q E"
  unfolding j_update_def
proof (rule hoare_seq [OF hoare_turn [OF assms(1,2)]])
  show "hoare P (bind (now h) (\<lambda>t. on_job (\<lambda>j. ((), update_job f t j)))) Q E"
    unfolding hoare_def
  proof (intro allI impI)
    fix s
    assume P: "P s"
    obtain t w where t: "h_now h (s_world s) = (t, w)" by (cases "h_now h (s_world s)")
    with assms(3) [OF assms(1) [OF P, of w], of t]
    show "case bind (now h) (\<lambda>t. on_job (\<lambda>j. ((), update_job f t j))) s of (Inl e, s') \<Rightarrow> E e s' | (Inr x, s') \<Rightarrow> Q x s'"
      by (simp add: bind_def now_def on_job_def with_job_def)
  qed
qed

lemma hoare_Snapshot:
  assumes "\<And>s w. P s \<Longrightarrow> P (s\<lparr>s_world := w\<rparr>)" and "\<And>s x. P s \<Longrightarrow> P (serve x s)"
    and "\<And>s. P s \<Longrightarrow> Q (Snapshot (s_job s)) s"
  shows "hoare P (j_Snapshot h) Q E"
  unfolding j_Snapshot_def
  by (rule hoare_seq [OF hoare_turn [OF assms(1,2)]]) (simp_all add: hoare_def on_job_def assms)

lemma hoare_proceed:
  assumes "\<And>s w. P s \<Longrightarrow> P (s\<lparr>s_world := w\<rparr>)" and "\<And>s x. P s \<Longrightarrow> P (serve x s)"
    and "\<And>s t. P s \<Longrightarrow> \<not> jb_stop (s_job s) \<Longrightarrow> Q () (with_job (snd (proceed p m t (s_job s))) s)"
    and "\<And>s. P s \<Longrightarrow> jb_stop (s_job s) \<Longrightarrow> E (Err Stopped) s"
  shows "hoare P (j_proceed h p m) Q E"
  unfolding j_proceed_def
proof (rule hoare_seq [OF hoare_turn [OF assms(1,2)]])
  show "hoare P (bind (now h) (\<lambda>t. bind (on_job (proceed p m t)) lift_opt)) Q E"
    unfolding hoare_def
  proof (intro allI impI)
    fix s
    assume P: "P s"
    obtain t w where t: "h_now h (s_world s) = (t, w)" by (cases "h_now h (s_world s)")
    let ?s = "s\<lparr>s_world := w\<rparr>"
    have P': "P ?s" by (rule assms(1) [OF P])
    show "case bind (now h) (\<lambda>t. bind (on_job (proceed p m t)) lift_opt) s of (Inl e, s') \<Rightarrow> E e s' | (Inr x, s') \<Rightarrow> Q x s'"
    proof (cases "jb_stop (s_job s)")
      case True
      with t assms(4) [OF P'] show ?thesis
        by (simp add: bind_def now_def on_job_def proceed_def lift_opt_def fail_def throw_def)
    next
      case False
      with t assms(3) [OF P', of t] show ?thesis
        by (simp add: bind_def now_def on_job_def proceed_def lift_opt_def ret_def with_job_def)
    qed
  qed
qed

section \<open>Code that only reads\<close>

lemma quiet_inspect [quiet_intros]: "quiet is_read (e_inspect e req i done)"
  unfolding e_inspect_def by (rule looks_inspect)

lemma quiet_guard_cold [quiet_intros]: "quiet is_read (guard_cold e r created used)"
  unfolding guard_cold_def by (intro quiet_intros)

lemma quiet_requireOff [quiet_intros]: "quiet is_read (requireOff e i)"
  unfolding requireOff_def by (intro quiet_intros quiet_x)

lemma quiet_liveSourceFree [quiet_intros]: "quiet is_read (liveSourceFree e r)"
  unfolding liveSourceFree_def by (intro quiet_intros quiet_x)

lemma quiet_registrations [quiet_intros]: "quiet is_read (registrations e a b)"
  unfolding registrations_def match_registration_def Let_def by (intro quiet_intros quiet_x)

lemma quiet_wrap_error [quiet_intros]: "quiet C m \<Longrightarrow> quiet C (wrap_error p m)"
  unfolding wrap_error_def by (intro quiet_intros)

lemma quiet_waited [quiet_intros]: "quiet C (waited x)"
  unfolding waited_def by (intro quiet_intros)

lemma quiet_ownSnapshotOnly [quiet_intros]: "quiet is_read (ownSnapshotOnly e i name)"
  unfolding ownSnapshotOnly_def by (intro quiet_intros quiet_x)

lemma quiet_liveDeltas [quiet_intros]: "quiet is_read (liveDeltas e r name)"
  unfolding liveDeltas_def find_delta_def Let_def by (intro quiet_intros quiet_x)

lemma quiet_liveGuard [quiet_intros]: "quiet is_read (liveGuard e r name deltas)"
  unfolding liveGuard_def by (intro quiet_intros)

lemma quiet_liveMetadata [quiet_intros]: "quiet is_read (liveMetadata e r name)"
  unfolding liveMetadata_def by (intro quiet_intros quiet_x)

lemma quiet_checks [quiet_intros]:
  "quiet is_read (sameCID e d)" "quiet is_read (sameSize e a b)" "quiet is_read (verifyDelta e r dl)"
  "quiet is_read (verifyCopies e r m)" "quiet is_read (merged e i p names)" "quiet is_read (live_check e r done)"
  unfolding verifyDelta_def verifyCopies_def sameCID_def sameSize_def merged_def live_check_def Let_def
  by (intro quiet_intros quiet_x)+

lemma quiet_verify [quiet_intros]: "quiet is_read (verifyDisk h d)"
  by (rule quiet_verifyDisk)

end
