(* ===== verification/Engine_Laws.thy ===== *)
theory Engine_Laws
  imports Run_Rules
begin

text \<open>
  The parts of the engine under the contract \<open>run_law\<close>: which host calls each of them
  makes. A lemma asks for the kinds of calls its part makes beside reads, or, where a property has something to say
  of the inside of a part, for that part's own proof.
\<close>

text \<open>Where every call of a kind that a run makes is allowed.\<close>

definition starts :: "(call \<Rightarrow> bool) \<Rightarrow> bool" where
  "starts C = (\<forall>i k vm a b off r. C (DidStartClone i k vm a b off r))"

definition stops_source :: "(call \<Rightarrow> bool) \<Rightarrow> bool" where
  "stops_source C = (\<forall>i r. C (DidShutdown i r))"

definition unregisters :: "(call \<Rightarrow> bool) \<Rightarrow> bool" where
  "unregisters C = (\<forall>i r. C (DidUnregister i r))"

definition registers :: "(call \<Rightarrow> bool) \<Rightarrow> bool" where
  "registers C = (\<forall>p r. C (DidRegister p r))"

definition powers :: "(call \<Rightarrow> bool) \<Rightarrow> bool" where
  "powers C = (\<forall>i r. C (DidPowerOn i r))"

definition answers :: "(call \<Rightarrow> bool) \<Rightarrow> bool" where
  "answers C = (\<forall>i q a r. C (DidAnswer i q a r))"

definition writes :: "(call \<Rightarrow> bool) \<Rightarrow> bool" where
  "writes C = ((\<forall>d n x r. C (DidWriteTarget d n x r)) \<and> (\<forall>f d r. C (DidCopyToTarget f d r)))"

definition creates :: "(call \<Rightarrow> bool) \<Rightarrow> bool" where
  "creates C = (\<forall>d r. C (DidCreateTarget d r))"

definition locks :: "(call \<Rightarrow> bool) \<Rightarrow> bool" where
  "locks C = ((\<forall>i x r. C (DidAcquire i x r)) \<and> (\<forall>i r. C (DidFinish i r)))"

definition snapshots :: "(call \<Rightarrow> bool) \<Rightarrow> bool" where
  "snapshots C = ((\<forall>i n r. C (DidCreateSnapshot i n r)) \<and> (\<forall>i n r. C (DidConsolidate i n r)))"

definition ends_clones :: "(call \<Rightarrow> bool) \<Rightarrow> bool" where
  "ends_clones C = (\<forall>i r. C (DidStopClone i r))"

definition forces :: "(call \<Rightarrow> bool) \<Rightarrow> bool" where
  "forces C = (\<forall>i r. C (DidForceOff i r))"

lemmas kinds = starts_def stops_source_def unregisters_def registers_def powers_def answers_def writes_def creates_def locks_def snapshots_def ends_clones_def forces_def

text \<open>What a guard of a cold job lets through: a ready report on the reviewed plan, of a VM that is off.\<close>

definition guarded :: "plan_id \<Rightarrow> Report \<Rightarrow> bool" where
  "guarded q r = (plan_key r = q \<and> reviewed (pi_Request q) (pi_ID q) r \<and> rp_Ready r \<and> rp_Power r = Off)"

lemma guard_cold_guarded: "gives (guarded (plan_key r)) (guard_cold e r created used)"
  unfolding guard_cold_def e_inspect_def
proof (rule gives_bind [OF inspect_reviewed])
  fix fresh
  assume f: "reviewed (rp_Request r) (rp_ID r) fresh"
  have "gives (guarded (plan_key r)) (seq (require (rp_Power fresh = Off) x) (ret fresh))" if "matchPlan r fresh = None" for x
    using that f by (intro gives_intros) (auto simp: guarded_def plan_key_def matchPlan_def reviewed_def report_ok_def split: if_splits)
  then show "gives (guarded (plan_key r)) (seq (lift_opt (matchPlan r fresh))
      (seq (require (rp_Power fresh = Off) (Errorf ''source VM is not powered off; no clone or commit is permitted'')) (ret fresh)))"
    unfolding seq_def [of "lift_opt _"] by (rule gives_bind [OF gives_lift_opt])
qed

text \<open>The last look at the plan before a force-off, and what comes after the point of no return.\<close>

definition recheck :: "'w engine \<Rightarrow> Report \<Rightarrow> ('w, unit) M" where
  "recheck e r = bind (e_inspect e (rp_Request r) (rp_ID r) (fresh_start\<lparr>pg_ownLock := True\<rparr>)) (\<lambda>last. lift_opt (matchPlan r last))"

definition finish_rest :: "'w engine \<Rightarrow> Report \<Rightarrow> int \<Rightarrow> ('w, unit) M" where
  "finish_rest e r used = (let h = eg_Host e in
     seq (copyConfig h r (rp_TargetConfig r) (diskNames (rp_Disks r) []))
     (seq (each (verifyDisk h) (rp_Disks r))
     (bind (guard_cold e r True used) (\<lambda>_.
     seq (j_update h (\<lambda>s. s\<lparr>js_TargetVerified := True\<rparr>))
     (seq (switch_registration e r)
     (seq (archive_lock e r)
     (j_update h (completed (''Completed. No source VM files were deleted.'' @ autostartNote r)))))))))"

lemma finish_cold_split: "finish_cold e r used = bind (guard_cold e r True used) (\<lambda>_.
    seq (j_proceed (eg_Host e) PhaseVerifyingConfig ''Copying only selected configuration files and verifying target VMX'')
    (finish_rest e r used))"
  by (simp add: finish_cold_def finish_rest_def Let_def)

definition cutover_rest :: "'w engine \<Rightarrow> Report \<Rightarrow> Report \<Rightarrow> string \<Rightarrow> (string, delta) gomap \<Rightarrow> ('w, unit) M" where
  "cutover_rest e r fresh name deltas = (let h = eg_Host e; names = delta_names r deltas in
     seq (shutdown e fresh (liveGuard e r name deltas))
     (seq (liveGuard e r name deltas)
     (bind (liveMetadata e r name) (\<lambda>meta.
     seq (j_phase h PhaseCutover ''Copying the changes and the snapshot metadata to the target'')
     (seq (each (copy_delta e r deltas) (rp_Disks r))
     (seq (x_CopyToTarget h (sm_vmsn meta) (rp_TargetDir r))
     (seq (x_WriteTarget h (rp_TargetDir r) (path_base (sm_vmsd meta)) (sm_target meta))
     (seq (j_phase h PhaseVerifyingConfig ''Writing the target configuration and verifying disks, changes and metadata'')
     (seq (copyConfig h r (live_config r names) (diskNames (rp_Disks r) names))
     (seq (each (\<lambda>d. seq (verifyDisk h d) (verifyDelta e r (delta_of deltas d))) (rp_Disks r))
     (seq (verifyCopies e r meta)
     (j_update h (\<lambda>s. s\<lparr>js_TargetVerified := True\<rparr>)))))))))))))"

lemma cutover_split: "cutover e r fresh name deltas = seq (liveGuard e r name deltas)
    (seq (j_proceed (eg_Host e) PhaseCutover ''Shutting down the source to copy what changed during the clone'')
    (cutover_rest e r fresh name deltas))"
  by (simp add: cutover_def cutover_rest_def Let_def)

lemma quiet_recheck [quiet_intros]: "quiet is_read (recheck e r)"
  unfolding recheck_def by (intro quiet_intros)

context run_law
begin

lemma keeps_host_calls [keeps_intros]:
  "starts C \<Longrightarrow> keeps I (x_StartClone h i k vm a b off)"
  "stops_source C \<Longrightarrow> keeps I (x_Shutdown h vm)"
  "forces C \<Longrightarrow> keeps I (x_ForceOff h vm)"
  "unregisters C \<Longrightarrow> keeps I (x_Unregister h vm)"
  "registers C \<Longrightarrow> keeps I (x_Register h p)"
  "powers C \<Longrightarrow> keeps I (x_PowerOn h vm)"
  "answers C \<Longrightarrow> keeps I (x_Answer h vm p ans)"
  "writes C \<Longrightarrow> keeps I (x_WriteTarget h p x ans)"
  "creates C \<Longrightarrow> keeps I (x_CreateTarget h p)"
  "writes C \<Longrightarrow> keeps I (x_CopyToTarget h p x)"
  "locks C \<Longrightarrow> keeps I (x_Acquire h p x)"
  "locks C \<Longrightarrow> keeps I (x_Finish h p)"
  "snapshots C \<Longrightarrow> keeps I (x_CreateSnapshot h vm p)"
  "snapshots C \<Longrightarrow> keeps I (x_ConsolidateOwnSnapshot h vm p)"
  "ends_clones C \<Longrightarrow> keeps I (x_StopClone h k)"
  by (simp_all add: x_defs kinds keeps_call)

lemma keeps_reads [keeps_intros]:
  "keeps I (x_Power h vm)" "keeps I (x_Message h vm)" "keeps I (x_Snapshot h vm)" "keeps I (x_CloneStatus h k)"
  "keeps I (e_inspect e req i done)" "keeps I (guard_cold e r made used)" "keeps I (requireOff e vm)"
  "keeps I (liveSourceFree e r)" "keeps I (registrations e p x1)" "keeps I (verifyDisk h d)" "keeps I (waited ended)"
  "keeps I (liveDeltas e r name)" "keeps I (liveGuard e r name deltas)" "keeps I (liveMetadata e r name)"
  "keeps I (sameCID e d)" "keeps I (verifyDelta e r dl)" "keeps I (verifyCopies e r m)" "keeps I (merged e vm p names)"
  "keeps I (live_check e r done)" "keeps I (recheck e r)" "keeps I (x_ReadFile h p)" "keeps I (x_Size h p)"
  by (rule keeps_quiet, intro quiet_intros quiet_x)+

lemma keeps_copyConfig [keeps_intros]: "writes C \<Longrightarrow> keeps I (copyConfig h r cfg names)"
  unfolding copyConfig_def copy_file_def Let_def
  by (intro keeps_intros)

lemma keeps_publish [keeps_intros]: "keeps I (publishRegistrations e a b)"
  unfolding publishRegistrations_def by (intro keeps_intros)

text \<open>\<open>J\<close> is what a force-off relies on: it holds when the operator's \<open>force\<close> was taken.\<close>

lemma keeps_shutdown_loop:
  assumes "hoare I (await_action (eg_fuel e) (eg_Host e)) (\<lambda>a s. I s \<and> (a = ''force'' \<longrightarrow> J s)) (\<lambda>_. I)"
    and "hoare (\<lambda>s. I s \<and> J s) (seq revalidate (x_ForceOff (eg_Host e) vm)) (\<lambda>_. I) (\<lambda>_. I)"
  shows "keeps I (shutdown_loop n e vm revalidate t)"
proof (induction n arbitrary: t)
  case 0
  show ?case by (simp add: keeps_intros)
next
  case (Suc n)
  have forced: "keeps I (bind (await_action (eg_fuel e) (eg_Host e)) (\<lambda>a. if a = ''stop'' then fail Stopped
      else seq (if a = ''force'' then seq revalidate (x_ForceOff (eg_Host e) vm) else ret ()) k))" if "keeps I k" for k :: "('w, unit) M"
  proof (rule hoare_keeps, rule hoare_bind [OF assms(1)])
    fix a
    have "hoare (\<lambda>s. I s \<and> (a = ''force'' \<longrightarrow> J s)) (if a = ''force'' then seq revalidate (x_ForceOff (eg_Host e) vm) else ret ()) (\<lambda>_. I) (\<lambda>_. I)"
      using assms(2) by (cases "a = ''force''") (simp_all add: hoare_ret)
    then have "hoare (\<lambda>s. I s \<and> (a = ''force'' \<longrightarrow> J s)) (seq (if a = ''force'' then seq revalidate (x_ForceOff (eg_Host e) vm) else ret ()) k) (\<lambda>_. I) (\<lambda>_. I)"
      by (rule hoare_seq) (rule keeps_hoare [OF that])
    then show "hoare (\<lambda>s. I s \<and> (a = ''force'' \<longrightarrow> J s)) (if a = ''stop'' then fail Stopped
        else seq (if a = ''force'' then seq revalidate (x_ForceOff (eg_Host e) vm) else ret ()) k) (\<lambda>_. I) (\<lambda>_. I)"
      by (intro hoare_if hoare_fail) simp_all
  qed
  show ?case unfolding shutdown_loop.simps Let_def by (intro keeps_intros forced Suc)
qed

lemma keeps_shutdown_forced:
  assumes "hoare I (await_action (eg_fuel e) (eg_Host e)) (\<lambda>a s. I s \<and> (a = ''force'' \<longrightarrow> J s)) (\<lambda>_. I)"
    and "hoare (\<lambda>s. I s \<and> J s) (seq revalidate (x_ForceOff (eg_Host e) (vm_ID (rp_VM r)))) (\<lambda>_. I) (\<lambda>_. I)"
    and "stops_source C"
  shows "keeps I (shutdown e r revalidate)"
  unfolding shutdown_def Let_def by (intro keeps_intros keeps_shutdown_loop [OF assms(1,2)] assms(3))

lemma keeps_shutdown:
  assumes "stops_source C" and "forces C" and "keeps I revalidate"
  shows "keeps I (shutdown e r revalidate)"
proof (rule keeps_shutdown_forced [where J = I])
  show "hoare I (await_action (eg_fuel e) (eg_Host e)) (\<lambda>a s. I s \<and> (a = ''force'' \<longrightarrow> I s)) (\<lambda>_. I)"
    by (rule hoare_conseq [OF keeps_hoare [OF keeps_await]]) simp_all
  have "keeps I (seq revalidate (x_ForceOff (eg_Host e) (vm_ID (rp_VM r))))"
    by (intro keeps_intros assms)
  then show "hoare (\<lambda>s. I s \<and> I s) (seq revalidate (x_ForceOff (eg_Host e) (vm_ID (rp_VM r)))) (\<lambda>_. I) (\<lambda>_. I)"
    by (simp add: keeps_def)
qed (rule assms(1))

lemma keeps_observe [keeps_intros]: "keeps I (observe_clone e k startErr since w)"
  unfolding observe_clone_def clone_done_def watch_space_def Let_def by (intro keeps_intros)

lemma keeps_stop_clone [keeps_intros]: "ends_clones C \<Longrightarrow> keeps I (stop_clone e k w)"
  unfolding stop_clone_def Let_def by (intro keeps_intros)

lemma keeps_wait_loop: "ends_clones C \<Longrightarrow> keeps I (wait_loop n e k startErr since t w)"
proof (induction n arbitrary: w)
  case 0
  show ?case by (simp add: keeps_intros)
next
  case (Suc n)
  show ?case unfolding wait_loop.simps Let_def by (intro keeps_intros Suc)
qed

lemma keeps_waitClone [keeps_intros]: "ends_clones C \<Longrightarrow> keeps I (waitClone e k startErr)"
  unfolding waitClone_def Let_def by (intro keeps_intros keeps_wait_loop)

lemma keeps_commit_register [keeps_intros]: "registers C \<Longrightarrow> keeps I (commit_register e r)"
  unfolding commit_register_def Let_def by (intro keeps_intros)

lemma keeps_commit: "unregisters C \<Longrightarrow> registers C \<Longrightarrow> keeps I (commit e r)"
  unfolding commit_def Let_def by (intro keeps_intros)

lemma keeps_power_loop: "answers C \<Longrightarrow> keeps I (power_loop n e vm t powerErr answered)"
proof (induction n arbitrary: answered)
  case 0
  show ?case by (simp add: keeps_intros)
next
  case (Suc n)
  show ?case unfolding power_loop.simps Let_def by (intro keeps_intros Suc)
qed

lemma keeps_powerOn [keeps_intros]: "powers C \<Longrightarrow> answers C \<Longrightarrow> keeps I (powerOn e)"
  unfolding powerOn_def Let_def by (intro keeps_intros keeps_power_loop)

lemma keeps_archive_lock [keeps_intros]: "locks C \<Longrightarrow> keeps I (archive_lock e r)"
  unfolding archive_lock_def by (intro keeps_intros)

lemma keeps_clone_disk: "starts C \<Longrightarrow> ends_clones C \<Longrightarrow> keeps I (clone_disk e r x used)"
  unfolding clone_disk_def Let_def by (intro keeps_intros)

lemma keeps_clone_disk_with:
  assumes "ends_clones C"
    and "\<And>f :: unit result \<Rightarrow> ('w, int) M. (\<And>y. keeps I (f y)) \<Longrightarrow>
      keeps I (seq (requireOff e (vm_ID (rp_VM r))) (bind (attempt (x_StartClone (eg_Host e) (rp_ID r) (int (fst x)) (vm_ID (rp_VM r))
        (dk_Source (snd x)) (dk_Target (snd x)) True)) f))"
  shows "keeps I (clone_disk e r x used)"
  unfolding clone_disk_def Let_def
  by (rule keeps_bind, intro keeps_intros, rule keeps_seq, intro keeps_intros, rule keeps_bind, intro keeps_intros, rule keeps_seq,
    intro keeps_intros, rule assms(2), intro keeps_intros assms(1))

lemma keeps_finish_rest: "writes C \<Longrightarrow> locks C \<Longrightarrow> keeps I (switch_registration e r) \<Longrightarrow> keeps I (finish_rest e r used)"
  unfolding finish_rest_def Let_def by (intro keeps_intros)

lemma keeps_finish_cold: "keeps I (finish_rest e r used) \<Longrightarrow> keeps I (finish_cold e r used)"
  unfolding finish_cold_split by (intro keeps_intros)

lemma keeps_switch_registration:
  "(rq_Mode (rp_Request r) = modeMove \<Longrightarrow> keeps I (commit e r)) \<Longrightarrow> powers C \<Longrightarrow> answers C \<Longrightarrow> keeps I (switch_registration e r)"
  unfolding switch_registration_def by (intro keeps_intros)

lemma keeps_run_cold:
  assumes "locks C" "\<And>r. plan_key r = q \<Longrightarrow> keeps I (clone_cold e r)" "\<And>r fresh. keeps I (shutdown e fresh (recheck e r))"
  shows "keeps I (run_cold e)"
  unfolding run_cold_def Let_def by (rule keeps_plan_bind) (intro keeps_intros assms [unfolded recheck_def] | assumption)+

lemma keeps_Run_cold:
  assumes "locks C" "keeps I (run_cold e)"
  shows "keeps I (Run_cold e)"
  unfolding Run_cold_def markFailed_def stopped_def Let_def by (intro keeps_intros assms)

lemma keeps_Rollback: "unregisters C \<Longrightarrow> registers C \<Longrightarrow> locks C \<Longrightarrow> keeps I (Rollback e)"
  unfolding Rollback_def Let_def by (intro keeps_intros)

section \<open>A live migration\<close>

lemma keeps_restoreSource: "unregisters C \<Longrightarrow> registers C \<Longrightarrow> snapshots C \<Longrightarrow> locks C \<Longrightarrow> keeps I (restoreSource e r name)"
  unfolding restoreSource_def restore_target_def restore_registration_def Let_def by (intro keeps_intros)

lemma keeps_mergeCopy: "unregisters C \<Longrightarrow> registers C \<Longrightarrow> snapshots C \<Longrightarrow> keeps I (mergeCopy e r name)"
  unfolding mergeCopy_def Let_def by (intro keeps_intros)

lemma keeps_clone_live_disk: "starts C \<Longrightarrow> ends_clones C \<Longrightarrow> keeps I (clone_live_disk e r name deltas p x)"
  unfolding clone_live_disk_def Let_def by (intro keeps_intros)

lemma keeps_clone_live: "(\<And>p x. keeps I (clone_live_disk e r name deltas p x)) \<Longrightarrow> keeps I (clone_live e r name deltas p xs)"
  by (induction xs arbitrary: p) (auto intro!: keeps_intros)

lemma keeps_cutover_rest:
  assumes "writes C" "keeps I (shutdown e fresh (liveGuard e r name deltas))"
  shows "keeps I (cutover_rest e r fresh name deltas)"
  unfolding cutover_rest_def copy_delta_def Let_def by (intro keeps_intros assms)

lemma keeps_live_after: "snapshots C \<Longrightarrow> locks C \<Longrightarrow> powers C \<Longrightarrow> answers C \<Longrightarrow> keeps I (live_after e r name)"
  unfolding live_after_def Let_def by (intro keeps_intros)

lemma keeps_cutover: "keeps I (cutover_rest e r fresh name deltas) \<Longrightarrow> keeps I (cutover e r fresh name deltas)"
  unfolding cutover_split by (intro keeps_intros)

lemma keeps_live_close:
  assumes "keeps I (cutover e r fresh name deltas)" "locks C"
    and "rq_Mode (rp_Request r) = modeCopy \<Longrightarrow> keeps I (mergeCopy e r name)"
    and "rq_Mode (rp_Request r) \<noteq> modeCopy \<Longrightarrow> keeps I (commit e r)"
    and "rq_Mode (rp_Request r) \<noteq> modeCopy \<Longrightarrow> keeps I (live_after e r name)"
  shows "keeps I (live_close e r fresh name deltas p)"
  unfolding live_close_def Let_def by (intro keeps_intros assms)

lemma keeps_live_body:
  assumes "creates C" "\<And>deltas p x. keeps I (clone_live_disk e r name deltas p x)"
    and "\<And>deltas p. keeps I (live_close e r fresh name deltas p)"
  shows "keeps I (live_body e r fresh name snap)"
  unfolding live_body_def by (intro keeps_intros assms keeps_clone_live)

lemma keeps_live_deferred: "keeps I (restoreSource e r name) \<Longrightarrow> keeps I (live_deferred e r name x)"
  unfolding live_deferred_def by (intro keeps_intros)

lemma keeps_runLive:
  assumes "locks C" "snapshots C" "\<And>r fresh name snap. plan_key r = q \<Longrightarrow> keeps I (bind (live_body e r fresh name snap) (live_deferred e r name))"
  shows "keeps I (runLive e)"
proof -
  have "keeps I (live e)"
    unfolding live_def Let_def by (rule keeps_plan_bind) (intro keeps_intros assms | assumption)+
  then show ?thesis
    unfolding runLive_def markFailed_def by (intro keeps_intros)
qed

lemma keeps_Run:
  assumes "rq_Live (pi_Request q) \<Longrightarrow> keeps I (runLive e)" and "\<not> rq_Live (pi_Request q) \<Longrightarrow> keeps I (Run_cold e)"
  shows "keeps I (Run e)"
  unfolding Run_def by (rule keeps_plan_bind) (use assms in auto)

end

context replan_law
begin

lemma keeps_clone_cold:
  assumes "plan_key plan = q" "creates C"
    and "\<And>r x used. guarded q r \<Longrightarrow> keeps I (clone_disk e r x used)"
    and "\<And>r used. guarded q r \<Longrightarrow> keeps I (finish_cold e r used)"
  shows "keeps I (clone_cold e plan)"
proof -
  have key: "plan_key r = q" if "guarded q r" for r
    using that by (simp add: guarded_def)
  have "gives (guarded q) (guard_cold e plan False 0)"
    using guard_cold_guarded [of plan e False 0] assms(1) by simp
  then show ?thesis
    unfolding clone_cold_def Let_def
    by (rule keeps_bind_gives) (intro keeps_intros keeps_set_plan key assms | assumption)+
qed

end

end
