(* ===== verification/Cold_Safety.thy ===== *)
theory Cold_Safety
  imports Engine_Laws
begin

text \<open>
  What a migration does to the host, as statements about the trace of its run: each call is
  judged by the job's state when it was made and by the calls before it. This theory is about the cold migration.
\<close>

section \<open>Statements about traces\<close>

fun along :: "(State \<Rightarrow> call \<Rightarrow> trace \<Rightarrow> bool) \<Rightarrow> trace \<Rightarrow> bool" where
  "along ok [] = True"
| "along ok ((st, c) # older) = (ok st c older \<and> along ok older)"

text \<open>A job that has just been created, on a host in any state.\<close>

definition begun :: "'w \<Rightarrow> Report \<Rightarrow> int \<Rightarrow> int \<Rightarrow> 'w st" where
  "begun w r t t' = \<lparr>s_world = w, s_job = NewJob r t t', s_granted = [], s_trace = []\<rparr>"

definition run_of :: "('w, 'a) M \<Rightarrow> 'w \<Rightarrow> Report \<Rightarrow> int \<Rightarrow> int \<Rightarrow> trace" where
  "run_of m w r t t' = s_trace (snd (m (begun w r t t')))"

definition allowed :: "(State \<Rightarrow> call \<Rightarrow> trace \<Rightarrow> bool) \<Rightarrow> plan_id \<Rightarrow> 'w st \<Rightarrow> bool" where
  "allowed ok q s = (along ok (s_trace s) \<and> plan_key (jb_plan (s_job s)) = q)"

lemma allowed_begun: "allowed ok (plan_key r) (begun w r t t')"
  by (simp add: allowed_def begun_def NewJob_def)

lemma allowed_run: "keeps (allowed ok (plan_key r)) m \<Longrightarrow> along ok (run_of m w r t t')"
  using allowed_begun [of ok r w t t'] by (auto simp: allowed_def run_of_def dest: keepsD)

lemma plan_served [simp]: "jb_plan (s_job (serve x s)) = jb_plan (s_job s)"
  by (cases x) (auto simp: noted_def requestStop_def control_send_def Let_def split: prod.split option.splits)

lemma serve_trace:
  "s_trace (serve x s) = s_trace s \<or> (\<exists>c. is_operator c \<and> s_trace (serve x s) = (jb_state (s_job (serve x s)), c) # s_trace s)"
  by (cases x) (auto simp: noted_def Let_def split: prod.split)

lemma along_law:
  assumes "\<And>st c older. C c \<Longrightarrow> ok st c older" and "\<And>st c older. is_operator c \<Longrightarrow> ok st c older"
    and "\<And>st a older. ok st (Taken a) older" and "\<And>c. is_read c \<Longrightarrow> C c"
  shows "replan_law (allowed ok q) C q"
proof
  fix s :: "'w st" and x
  assume "allowed ok q s"
  with serve_trace [of x s] assms(2) show "allowed ok q (serve x s)" by (auto simp: allowed_def)
qed (auto simp: allowed_def noted_def assms same_control_def with_job_def proceed_def take_action_def split: option.split)

section \<open>No clone of a running VM\<close>

text \<open>
  The disks of a cold migration are cloned only when the host has just said that the VM is
  off, with nothing between, and the remote worker is told to look again.
\<close>

definition clones_off :: "State \<Rightarrow> call \<Rightarrow> trace \<Rightarrow> bool" where
  "clones_off st c older = (case c of
      DidStartClone i k vm a b off r \<Rightarrow>
        off \<and> (case older of (st', GotPower vm' (Inr p)) # _ \<Rightarrow> vm' = vm \<and> p = Off | _ \<Rightarrow> False)
    | _ \<Rightarrow> True)"

definition no_start :: "call \<Rightarrow> bool" where
  "no_start c = (case c of DidStartClone i k vm a b off r \<Rightarrow> False | _ \<Rightarrow> True)"

interpretation clones: replan_law "allowed clones_off q" no_start q for q
proof (rule along_law)
  fix st c older
  show "no_start c \<Longrightarrow> clones_off st c older" "is_operator c \<Longrightarrow> clones_off st c older" "is_read c \<Longrightarrow> no_start c"
    by (cases c; simp add: no_start_def clones_off_def)+
  show "clones_off st (Taken a) older" for a
    by (simp add: clones_off_def)
qed

lemma no_start_kinds: "stops_source no_start" "forces no_start" "unregisters no_start" "registers no_start" "powers no_start" "answers no_start" "writes no_start" "creates no_start" "locks no_start"
  "snapshots no_start" "ends_clones no_start"
  by (simp_all add: kinds no_start_def)

text \<open>What the last call of the host said.\<close>

definition told_off :: "int \<Rightarrow> 'w st \<Rightarrow> bool" where
  "told_off vm s = (\<exists>st older. s_trace s = (st, GotPower vm (Inr Off)) # older)"

lemma requireOff_told:
  assumes "\<And>s w r. I s \<Longrightarrow> I (after s w [GotPower vm r])"
  shows "hoare I (requireOff e vm) (\<lambda>_ s. I s \<and> told_off vm s) (\<lambda>_. I)"
  unfolding requireOff_def x_Power_def
  apply (rule hoare_bind [where R = "\<lambda>p s. I s \<and> (p = Off \<longrightarrow> told_off vm s)"])
   apply (rule hoare_call)
   apply (auto simp: assms told_off_def split: sum.split)[1]
  apply (rule hoare_require)
   apply simp_all
  done

lemma start_clone_off:
  "hoare (\<lambda>s. allowed clones_off q s \<and> told_off vm s) (attempt (x_StartClone h i k vm a b True)) (\<lambda>_. allowed clones_off q) (\<lambda>_. allowed clones_off q)"
  unfolding x_StartClone_def
  by (rule hoare_attempt, rule hoare_call)
    (auto simp: allowed_def told_off_def clones_off_def split: sum.split)

lemma clones_power: "allowed clones_off q s \<Longrightarrow> allowed clones_off q (after s w [GotPower vm r])"
  by (simp add: allowed_def clones_off_def)

lemma clones_clone_disk: "keeps (allowed clones_off q) (clone_disk e r x used)"
proof (rule clones.keeps_clone_disk_with [OF no_start_kinds(11)])
  let ?I = "allowed clones_off q" and ?h = "eg_Host e" and ?vm = "vm_ID (rp_VM r)"
  fix f :: "unit result \<Rightarrow> ('a, int) M"
  assume f: "\<And>y. keeps ?I (f y)"
  have "hoare ?I (requireOff e ?vm) (\<lambda>_ s. ?I s \<and> told_off ?vm s) (\<lambda>_. ?I)"
    by (rule requireOff_told) (rule clones_power)
  then have "hoare ?I (seq (requireOff e ?vm) (bind (attempt (x_StartClone ?h i k ?vm a b True)) f)) (\<lambda>_. ?I) (\<lambda>_. ?I)" for i k a b
    by (rule hoare_seq) (rule hoare_bind [OF start_clone_off], rule keeps_hoare [OF f])
  then show "keeps ?I (seq (requireOff e ?vm) (bind (attempt (x_StartClone ?h (rp_ID r) (int (fst x)) ?vm (dk_Source (snd x)) (dk_Target (snd x)) True)) f))"
    by (rule hoare_keeps)
qed

lemma clones_Run_cold: "keeps (allowed clones_off q) (Run_cold e)"
  by (intro clones.keeps_Run_cold clones.keeps_run_cold clones.keeps_clone_cold clones_clone_disk clones.keeps_finish_cold
      clones.keeps_finish_rest clones.keeps_shutdown clones.keeps_switch_registration clones.keeps_commit clones.keeps_reads no_start_kinds)
    assumption

text \<open>
  C2: every clone a cold migration launches is launched directly after the host reported
  that same VM as powered off, and asks the remote worker to check again; whatever the host answers and the
  operator does.
\<close>

theorem cold_clones_only_off: "along clones_off (run_of (Run_cold e) w r t t')"
  by (rule allowed_run) (rule clones_Run_cold)

end
