(* ===== verification/Operator_Safety.thy ===== *)
theory Operator_Safety
  imports Cold_Safety
begin

text \<open>
  What a stop of the operator guarantees, whatever the host answers and whenever the requests arrive: a stop that was
  accepted is final, in cold and live migrations. (Forced power-offs are in the theory on them.)
\<close>

section \<open>A stop is final\<close>

definition accepted :: "trace \<Rightarrow> bool" where
  "accepted tr = list_ex (\<lambda>(st, c). case c of Asked a conf ok \<Rightarrow> a = ''stop'' \<and> ok | _ \<Rightarrow> False) tr"

text \<open>
  What a migration does only past its point of no return: it writes the target's configuration and
  powers the target on; a live one shuts the source down, a cold one switches the registration. (A live migration
  that was stopped may still register its source again.)
\<close>

definition past_stop :: "bool \<Rightarrow> call \<Rightarrow> bool" where
  "past_stop alive c = (case c of
      DidWriteTarget d n x r \<Rightarrow> True | DidCopyToTarget f d r \<Rightarrow> True | DidPowerOn i r \<Rightarrow> True | DidAnswer i m a r \<Rightarrow> True
    | DidShutdown i r \<Rightarrow> alive | DidForceOff i r \<Rightarrow> alive
    | DidUnregister i r \<Rightarrow> \<not> alive | DidRegister p r \<Rightarrow> \<not> alive
    | _ \<Rightarrow> False)"

definition stop_respected :: "bool \<Rightarrow> State \<Rightarrow> call \<Rightarrow> trace \<Rightarrow> bool" where
  "stop_respected alive st c older = (past_stop alive c \<longrightarrow> \<not> accepted older)"

definition stop_law :: "plan_id \<Rightarrow> 'w st \<Rightarrow> bool" where
  "stop_law q s = (allowed (stop_respected (rq_Live (pi_Request q))) q s \<and> (accepted (s_trace s) \<longrightarrow> jb_stop (s_job s)) \<and> stop_inv (s_job s))"

definition final_law :: "plan_id \<Rightarrow> 'w st \<Rightarrow> bool" where
  "final_law q s = (stop_law q s \<and> jb_final (s_job s))"

lemma final_stop: "final_law q s \<Longrightarrow> stop_law q s"
  by (simp add: final_law_def)

lemma stop_law_serve: "stop_law q s \<Longrightarrow> stop_law q (serve x s)"
  by (cases x) (auto simp: stop_law_def allowed_def stop_respected_def past_stop_def noted_def accepted_def Let_def split_beta
      requestStop_def stop_inv_def)

lemma final_served [simp]: "jb_final (s_job (serve x s)) = jb_final (s_job s)"
  by (cases x) (auto simp: noted_def Let_def requestStop_def split_beta)

lemma final_law_serve: "final_law q s \<Longrightarrow> final_law q (serve x s)"
  by (simp add: final_law_def stop_law_serve)

lemma stop_law_call: "stop_law q s \<Longrightarrow> \<not> past_stop (rq_Live (pi_Request q)) c \<or> jb_final (s_job s) \<Longrightarrow>
    \<not> is_operator c \<Longrightarrow> stop_law q (noted c s)"
  by (cases c) (auto simp: stop_law_def allowed_def noted_def stop_respected_def accepted_def stop_inv_def)

definition before_return :: "bool \<Rightarrow> call \<Rightarrow> bool" where
  "before_return alive c = (\<not> past_stop alive c \<and> \<not> is_operator c)"

interpretation stops: replan_law "stop_law q" "before_return (rq_Live (pi_Request q))" q for q
proof
  fix s :: "'w st" and x
  show "stop_law q s \<Longrightarrow> stop_law q (serve x s)" by (rule stop_law_serve)
next
  fix s :: "'w st"
  assume "stop_law q s"
  then show "stop_law q (snd (take_action s))"
    by (auto simp: stop_law_def allowed_def take_action_def noted_def stop_respected_def past_stop_def accepted_def stop_inv_def split: option.split)
next
  fix s :: "'w st" and c
  show "stop_law q s \<Longrightarrow> before_return (rq_Live (pi_Request q)) c \<Longrightarrow> stop_law q (noted c s)"
    by (simp add: stop_law_call before_return_def)
next
  fix c
  assume "is_read c"
  then show "before_return (rq_Live (pi_Request q)) c"
    by (cases c) (simp_all add: before_return_def past_stop_def)
qed (auto simp: stop_law_def allowed_def same_control_def with_job_def proceed_def stop_inv_def)

interpretation final: run_law "final_law q" "\<lambda>c. \<not> is_operator c" q for q
proof
  fix s :: "'w st" and x
  show "final_law q s \<Longrightarrow> final_law q (serve x s)" by (rule final_law_serve)
next
  fix s :: "'w st" and c
  show "final_law q s \<Longrightarrow> \<not> is_operator c \<Longrightarrow> final_law q (noted c s)"
    using stop_law_call [of q s c] by (auto simp: final_law_def noted_def)
next
  fix s :: "'w st"
  assume f: "final_law q s"
  then have "stop_law q (snd (take_action s))" by (intro stops.taken final_stop)
  with f show "final_law q (snd (take_action s))"
    by (auto simp: final_law_def take_action_def noted_def split: option.split)
next
  fix s :: "'w st" and j
  assume "final_law q s" and "same_control (s_job s) j"
  then show "final_law q (with_job j s)"
    using stops.job [of q s j] by (auto simp: final_law_def same_control_def with_job_def)
qed (auto simp: final_law_def stop_law_def allowed_def with_job_def proceed_def stop_inv_def elim: is_read.elims)

lemma stop_proceed: "hoare (stop_law q) (j_proceed h p m) (\<lambda>_. final_law q) (\<lambda>_. stop_law q)"
proof (rule hoare_proceed)
  fix s :: "'w st" and t
  assume "stop_law q s" and "\<not> jb_stop (s_job s)"
  from stops.past [OF this, of p m t] \<open>\<not> jb_stop (s_job s)\<close>
  show "final_law q (with_job (snd (proceed p m t (s_job s))) s)"
    by (simp add: final_law_def with_job_def proceed_def)
qed (simp_all add: stops.world stop_law_serve)

lemma cold_before: "\<not> alive \<Longrightarrow> starts (before_return alive)" "\<not> alive \<Longrightarrow> stops_source (before_return alive)"
    "\<not> alive \<Longrightarrow> forces (before_return alive)" "locks (before_return alive)" "snapshots (before_return alive)"
    "ends_clones (before_return alive)" "creates (before_return alive)"
  and live_before: "starts (before_return alive)" "alive \<Longrightarrow> unregisters (before_return alive)" "alive \<Longrightarrow> registers (before_return alive)"
  by (simp_all add: kinds before_return_def past_stop_def)

lemma final_kinds: "starts (\<lambda>c. \<not> is_operator c)" "stops_source (\<lambda>c. \<not> is_operator c)" "forces (\<lambda>c. \<not> is_operator c)" "locks (\<lambda>c. \<not> is_operator c)"
  "snapshots (\<lambda>c. \<not> is_operator c)" "ends_clones (\<lambda>c. \<not> is_operator c)" "creates (\<lambda>c. \<not> is_operator c)" "writes (\<lambda>c. \<not> is_operator c)"
  "unregisters (\<lambda>c. \<not> is_operator c)" "registers (\<lambda>c. \<not> is_operator c)" "powers (\<lambda>c. \<not> is_operator c)" "answers (\<lambda>c. \<not> is_operator c)"
  by (simp_all add: kinds)

lemma stop_finish_cold: "keeps (stop_law q) (finish_cold e r used)"
proof -
  have "keeps (final_law q) (finish_rest e r used)"
    by (intro final.keeps_finish_rest final.keeps_switch_registration final.keeps_commit final_kinds)
  with stop_proceed have "keeps (stop_law q) (seq (j_proceed h p m) (finish_rest e r used))" for h :: "'a host" and p m
    by (rule hoare_into) (rule final_stop)
  then show ?thesis unfolding finish_cold_split by (intro keeps_bind stops.keeps_reads)
qed

lemma stop_Run_cold:
  assumes "\<not> rq_Live (pi_Request q)"
  shows "keeps (stop_law q) (Run_cold e)"
  by (intro stops.keeps_Run_cold stops.keeps_run_cold stops.keeps_clone_cold stops.keeps_clone_disk stop_finish_cold
      stops.keeps_shutdown stops.keeps_reads cold_before assms) assumption

lemma stop_live_close: "keeps (stop_law q) (live_close e r fresh name deltas p)"
proof -
  have "keeps (final_law q) (cutover_rest e r fresh name deltas)"
    by (intro final.keeps_cutover_rest final.keeps_shutdown final.keeps_reads final_kinds)
  then have "hoare (final_law q) (cutover_rest e r fresh name deltas) (\<lambda>_. final_law q) (\<lambda>_. stop_law q)"
    by (rule hoare_conseq [OF keeps_hoare]) (simp_all add: final_stop)
  with stop_proceed have "hoare (stop_law q) (seq (j_proceed h ph m) (cutover_rest e r fresh name deltas)) (\<lambda>_. final_law q) (\<lambda>_. stop_law q)" for h :: "'a host" and ph m
    by (rule hoare_seq)
  note tail = this
  have cut: "hoare (stop_law q) (cutover e r fresh name deltas) (\<lambda>_. final_law q) (\<lambda>_. stop_law q)"
    unfolding cutover_split by (rule hoare_keeps_seq [OF _ tail]) (rule stops.keeps_reads)
  have both: "hoare (stop_law q) (seq (cutover e r fresh name deltas) k) (\<lambda>_. final_law q) (\<lambda>_. stop_law q)"
    if "keeps (final_law q) k" for k :: "('a, unit) M"
    by (rule hoare_seq [OF cut], rule hoare_conseq [OF keeps_hoare [OF that]]) (simp_all add: final_stop)
  show ?thesis
    unfolding live_close_def Let_def
  proof (rule keeps_attempt_into [where J = "final_law q", OF both])
    show "keeps (final_law q) (if rq_Mode (rp_Request r) = modeCopy then seq (mergeCopy e r name) (archive_lock e r) else commit e r)"
      by (intro keeps_intros final.keeps_mergeCopy final.keeps_commit final_kinds)
    show "final_law q s \<Longrightarrow> stop_law q s" for s :: "'a st"
      by (rule final_stop)
  qed (simp_all only: sum.case, (intro keeps_intros final.keeps_live_after final_kinds)+)
qed

lemma stop_runLive:
  assumes "rq_Live (pi_Request q)"
  shows "keeps (stop_law q) (runLive e)"
proof (rule stops.keeps_runLive)
  fix r fresh name snap
  show "keeps (stop_law q) (bind (live_body e r fresh name snap) (live_deferred e r name))"
    by (intro keeps_bind stops.keeps_live_body stop_live_close stops.keeps_clone_live_disk stops.keeps_live_deferred
        stops.keeps_restoreSource cold_before live_before assms)
qed (rule cold_before)+

lemma stop_law_begun: "stop_law (plan_key r) (begun w r t t')"
  by (simp add: stop_law_def allowed_begun) (simp add: begun_def accepted_def stop_inv_NewJob)

text \<open>
  C6: a stop that was accepted is final. After it, no run writes the target's configuration, copies a delta or powers
  the target on; a live run does not shut the source down, and a cold run does not touch the registrations.
\<close>

theorem stop_is_final: "along (stop_respected (rq_Live (rp_Request r))) (run_of (Run e) w r t t')"
proof -
  have "keeps (stop_law (plan_key r)) (Run e)"
    by (rule stops.keeps_Run) (simp_all add: stop_runLive stop_Run_cold)
  from keepsD [OF this stop_law_begun] show ?thesis
    by (simp add: run_of_def stop_law_def allowed_def)
qed

end
