(* ===== verification/Force_Safety.thy ===== *)
theory Force_Safety
  imports Cold_Safety
begin

text \<open>
  Forced power-offs. \<open>Control\<close> grants a \<open>force\<close> only when it is confirmed and the job waits for
  the shutdown; the grant, the channel and the engine hand it on; the engine powers off once for each that it takes.
\<close>

section \<open>Counting\<close>

definition confirmations :: "trace \<Rightarrow> nat" where
  "confirmations tr = length (filter (\<lambda>(st, c). c = Asked ''force'' True True \<and> js_Phase st = PhaseAwaitingShutdown) tr)"

fun is_force_off :: "call \<Rightarrow> bool" where
  "is_force_off (DidForceOff i r) = True"
| "is_force_off c = False"

definition force_offs :: "trace \<Rightarrow> nat" where
  "force_offs tr = length (filter (\<lambda>(st, c). is_force_off c) tr)"

definition forces_taken :: "trace \<Rightarrow> nat" where
  "forces_taken tr = length (filter (\<lambda>(st, c). c = Taken ''force'') tr)"

lemmas counting = confirmations_def force_offs_def forces_taken_def

text \<open>
  A force-off has a confirmation that no other has used, and comes directly after the
  operator's \<open>force\<close> was taken and the plan was looked at again.
\<close>

definition forced_well :: "State \<Rightarrow> call \<Rightarrow> trace \<Rightarrow> bool" where
  "forced_well st c older = (is_force_off c \<longrightarrow> force_offs older < confirmations older \<and>
     (case dropWhile (\<lambda>(st, c). is_read c) older of (st', c') # _ \<Rightarrow> c' = Taken ''force'' | [] \<Rightarrow> False))"

text \<open>Where the confirmations are: granted but not sent, in the channel, taken, or used.\<close>

definition in_channel :: "Job \<Rightarrow> nat" where
  "in_channel j = (if jb_actions j = Some ''force'' then 1 else 0)"

definition force_law :: "plan_id \<Rightarrow> 'w st \<Rightarrow> bool" where
  "force_law q s = (allowed forced_well q s \<and> force_offs (s_trace s) \<le> forces_taken (s_trace s) \<and>
     forces_taken (s_trace s) + in_channel (s_job s) + count_list (s_granted s) ''force'' \<le> confirmations (s_trace s))"

definition force_at_hand :: "'w st \<Rightarrow> bool" where
  "force_at_hand s = (force_offs (s_trace s) < forces_taken (s_trace s) \<and>
     (case dropWhile (\<lambda>(st, c). is_read c) (s_trace s) of (st', c') # _ \<Rightarrow> c' = Taken ''force'' | [] \<Rightarrow> False))"

fun is_taken :: "call \<Rightarrow> bool" where
  "is_taken (Taken a) = True"
| "is_taken c = False"

definition not_forced :: "call \<Rightarrow> bool" where
  "not_forced c = (\<not> is_force_off c \<and> \<not> is_operator c \<and> \<not> is_taken c)"

lemma force_law_noted: "force_law q s \<Longrightarrow> \<not> is_force_off c \<Longrightarrow> \<not> is_taken c \<Longrightarrow> force_law q (noted c s)"
  by (auto simp: force_law_def allowed_def noted_def forced_well_def counting)

lemma force_law_job: "force_law q s \<Longrightarrow> in_channel j = in_channel (s_job s) \<Longrightarrow> jb_plan j = jb_plan (s_job s) \<Longrightarrow> force_law q (s\<lparr>s_job := j\<rparr>)"
  by (simp add: force_law_def allowed_def)

lemma control_check_force: "control_check ''force'' c j = None \<Longrightarrow> c \<and> js_Phase (jb_state j) = PhaseAwaitingShutdown"
  by (auto simp: control_check_def Snapshot_def split: if_splits)

lemma count_list_granted: "i < length xs \<Longrightarrow> count_list xs x = count_list (take i xs @ drop (Suc i) xs) x + (if xs ! i = x then 1 else 0)"
proof -
  assume "i < length xs"
  then have "count_list xs x = count_list (take i xs @ xs ! i # drop (Suc i) xs) x" by (simp only: id_take_nth_drop [symmetric])
  then show ?thesis by simp
qed

lemma in_channel_stop: "in_channel (snd (requestStop c j)) = in_channel j" "jb_plan (snd (requestStop c j)) = jb_plan j"
  by (auto simp: requestStop_def in_channel_def try_send_def split: option.split)

lemma force_law_ask:
  assumes "force_law q s"
  shows "force_law q (serve (Ask a c) s)"
proof (cases "a = ''stop''")
  case True
  have "force_law q (s\<lparr>s_job := snd (requestStop c (s_job s))\<rparr>)"
    by (rule force_law_job [OF assms]) (simp_all add: in_channel_stop)
  with True show ?thesis by (simp add: split_beta force_law_noted)
next
  case stop: False
  show ?thesis
  proof (cases "control_check a c (s_job s) = None")
    case False
    with stop have "serve (Ask a c) s = noted (Asked a c False) s" by (simp only: serve.simps if_False Let_def)
    with assms show ?thesis by (simp add: force_law_noted)
  next
    case granted: True
    show ?thesis
    proof (cases "a = ''force''")
      case False
      with assms have "force_law q (s\<lparr>s_granted := s_granted s @ [a]\<rparr>)" by (simp add: force_law_def allowed_def)
      with stop granted show ?thesis by (simp add: Let_def force_law_noted)
    next
      case True
      with granted control_check_force [of c "s_job s"] have "c" "js_Phase (jb_state (s_job s)) = PhaseAwaitingShutdown" by auto
      with True granted assms show ?thesis
        by (simp add: force_law_def allowed_def noted_def forced_well_def confirmations_def force_offs_def forces_taken_def)
    qed
  qed
qed

lemma force_law_send:
  assumes "force_law q s"
  shows "force_law q (serve (Send i) s)"
proof (cases "i < length (s_granted s)")
  case True
  let ?t = "s\<lparr>s_job := snd (control_send (s_granted s ! i) (s_job s)), s_granted := take i (s_granted s) @ drop (Suc i) (s_granted s)\<rparr>"
  have "in_channel (snd (control_send a j)) \<le> in_channel j + (if a = ''force'' then 1 else 0)" for a j
    by (simp add: in_channel_def control_send_def split: option.split)
  from this [of "s_granted s ! i" "s_job s"] assms count_list_granted [OF True, of "''force''"]
  have "force_law q ?t" by (simp add: force_law_def allowed_def)
  with True show ?thesis by (simp add: split_beta force_law_noted)
next
  case False
  with assms show ?thesis by simp
qed

lemma force_law_serve: "force_law q s \<Longrightarrow> force_law q (serve x s)"
  by (cases x) (simp_all only: force_law_ask force_law_send)

lemma force_law_taken: "force_law q s \<Longrightarrow> force_law q (snd (take_action s)) \<and> (fst (take_action s) = Some ''force'' \<longrightarrow> force_at_hand (snd (take_action s)))"
  by (auto simp: force_law_def force_at_hand_def allowed_def noted_def forced_well_def counting take_action_def in_channel_def split: option.split if_splits)

interpretation forced: replan_law "force_law q" not_forced q for q
proof
  fix s :: "'w st" and x
  show "force_law q s \<Longrightarrow> force_law q (serve x s)" by (rule force_law_serve)
next
  fix s :: "'w st"
  show "force_law q s \<Longrightarrow> force_law q (snd (take_action s))" by (simp add: force_law_taken)
next
  fix s :: "'w st" and c
  show "force_law q s \<Longrightarrow> not_forced c \<Longrightarrow> force_law q (noted c s)" by (simp add: force_law_noted not_forced_def)
next
  fix c
  assume "is_read c"
  then show "not_forced c" by (cases c) (simp_all add: not_forced_def)
qed (auto simp: force_law_def allowed_def same_control_def with_job_def proceed_def in_channel_def)

section \<open>The run\<close>

lemma forced_kinds: "starts not_forced" "stops_source not_forced" "unregisters not_forced" "registers not_forced" "powers not_forced" "answers not_forced"
  "writes not_forced" "creates not_forced" "locks not_forced" "snapshots not_forced" "ends_clones not_forced"
  by (simp_all add: kinds not_forced_def)

lemma force_await: "hoare (force_law q) (await_action n h) (\<lambda>a s. force_law q s \<and> (a = ''force'' \<longrightarrow> force_at_hand s)) (\<lambda>_. force_law q)"
proof (induction n)
  case 0
  show ?case by (simp add: hoare_def)
next
  case (Suc n)
  show ?case
    unfolding hoare_def
  proof (intro allI impI)
    fix s :: "'a st"
    assume f: "force_law q s"
    obtain k w where k: "h_wake h (s_world s) = (k, w)" by (cases "h_wake h (s_world s)")
    show "case await_action (Suc n) h s of (Inl e, s') \<Rightarrow> force_law q s'
      | (Inr a, s') \<Rightarrow> force_law q s' \<and> (a = ''force'' \<longrightarrow> force_at_hand s')"
    proof (cases k)
      case (Cancelled c)
      with k f show ?thesis by (simp add: forced.world)
    next
      case (Requests xs)
      let ?t = "fold serve xs (s\<lparr>s_world := w\<rparr>)"
      have t: "force_law q ?t" by (intro forced.all_served forced.world f)
      obtain a u where u: "take_action ?t = (a, u)" by (cases "take_action ?t")
      with force_law_taken [OF t] have "force_law q u" "a = Some ''force'' \<longrightarrow> force_at_hand u" by simp_all
      with k Requests u Suc.IH show ?thesis by (cases a) (simp_all add: hoare_def)
    qed
  qed
qed

lemma drop_reads:
  "\<forall>c \<in> set new. is_read c \<Longrightarrow> dropWhile (\<lambda>(st, c). is_read c) (map (Pair st) new @ tr) = dropWhile (\<lambda>(st, c). is_read c) tr"
  by (induction new) auto

lemma no_force_reads:
  assumes "\<forall>c \<in> set new. is_read c"
  shows "filter (\<lambda>(st, c). is_force_off c) (map (Pair x) new) = []" "filter (\<lambda>(st, c). c = Taken a) (map (Pair x) new) = []"
proof -
  have "\<not> is_force_off c \<and> c \<noteq> Taken a" if "is_read c" for c
    using that by (cases c) simp_all
  with assms show "filter (\<lambda>(st, c). is_force_off c) (map (Pair x) new) = []" "filter (\<lambda>(st, c). c = Taken a) (map (Pair x) new) = []"
    by (auto simp: filter_empty_conv)
qed

lemma force_at_hand_reads: "force_at_hand s \<Longrightarrow> \<forall>c \<in> set new. is_read c \<Longrightarrow> force_at_hand (after s w new)"
  by (simp add: force_at_hand_def force_offs_def forces_taken_def drop_reads no_force_reads)

lemma force_revalidate:
  assumes "quiet is_read revalidate"
  shows "hoare (\<lambda>s. force_law q s \<and> force_at_hand s) (seq revalidate (x_ForceOff h vm)) (\<lambda>_. force_law q) (\<lambda>_. force_law q)"
proof (rule hoare_seq)
  show "hoare (\<lambda>s. force_law q s \<and> force_at_hand s) revalidate (\<lambda>_ s. force_law q s \<and> force_at_hand s) (\<lambda>_. force_law q)"
    unfolding hoare_alt
  proof (intro allI impI)
    fix s :: "'a st"
    assume f: "force_law q s \<and> force_at_hand s"
    obtain w new where new: "snd (revalidate s) = after s w new" "\<forall>c \<in> set new. is_read c" by (rule quietD [OF assms])
    have "force_law q (snd (revalidate s))" by (rule keepsD [OF forced.keeps_quiet [OF assms]]) (use f in simp)
    with f new have "force_law q (snd (revalidate s)) \<and> force_at_hand (snd (revalidate s))"
      by (simp add: force_at_hand_reads)
    then show "(\<forall>x s'. revalidate s = (Inr x, s') \<longrightarrow> force_law q s' \<and> force_at_hand s') \<and> (\<forall>e s'. revalidate s = (Inl e, s') \<longrightarrow> force_law q s')"
      by auto
  qed
  show "hoare (\<lambda>s. force_law q s \<and> force_at_hand s) (x_ForceOff h vm) (\<lambda>_. force_law q) (\<lambda>_. force_law q)"
    unfolding x_ForceOff_def
    by (rule hoare_call) (auto simp: force_law_def allowed_def forced_well_def force_at_hand_def counting split: sum.split list.split)
qed

lemma forced_shutdown: "quiet is_read revalidate \<Longrightarrow> keeps (force_law q) (shutdown e r revalidate)"
  by (rule forced.keeps_shutdown_forced [OF force_await force_revalidate]) (simp_all add: forced_kinds)

lemma forced_Run: "keeps (force_law q) (Run e)"
proof (rule forced.keeps_Run)
  show "keeps (force_law q) (Run_cold e)"
    by (intro forced.keeps_Run_cold forced.keeps_run_cold forced.keeps_clone_cold forced.keeps_clone_disk forced.keeps_finish_cold
        forced.keeps_finish_rest forced_shutdown quiet_intros forced.keeps_switch_registration forced.keeps_commit forced_kinds) assumption
  show "keeps (force_law q) (runLive e)"
  proof (rule forced.keeps_runLive)
    fix r fresh name snap
    show "keeps (force_law q) (bind (live_body e r fresh name snap) (live_deferred e r name))"
      by (intro keeps_bind forced.keeps_live_body forced.keeps_clone_live_disk forced.keeps_live_deferred forced.keeps_restoreSource
          forced.keeps_live_close forced.keeps_cutover forced.keeps_cutover_rest forced_shutdown quiet_intros forced.keeps_mergeCopy
          forced.keeps_commit forced.keeps_live_after forced_kinds)
  qed (rule forced_kinds)+
qed

text \<open>
  C7: no VM is powered off by force without the operator: before each force-off, cold or live, the operator has
  confirmed a force while the job was waiting for the shutdown, once for each force-off; and between the engine's taking of that
  request and the force-off, the host was only read, to look at the plan again.
\<close>

theorem force_off_confirmed: "along forced_well (run_of (Run e) w r t t')"
proof -
  have "force_law (plan_key r) (begun w r t t')"
    by (simp add: force_law_def allowed_begun) (simp add: begun_def counting in_channel_def NewJob_def)
  from keepsD [OF forced_Run this] show ?thesis by (simp add: run_of_def force_law_def allowed_def)
qed

end
