(* ===== verification/Switch_Safety.thy ===== *)
theory Switch_Safety
  imports Cold_Safety
begin

text \<open>
  Which VM is registered: no VM is unregistered that the host has not just reported as
  powered off, in any run and in a rollback; and a cold migration switches the registration only from a verified
  target, never with both VMs registered, and only when it is a MOVE.
\<close>

section \<open>No running VM is unregistered\<close>

text \<open>What may lie between the power state that was read and the unregister: reads, the operator, and a snapshot's merge.\<close>

definition harmless :: "call \<Rightarrow> bool" where
  "harmless c = (is_read c \<or> is_operator c \<or> (case c of DidConsolidate i n r \<Rightarrow> True | Taken a \<Rightarrow> True | _ \<Rightarrow> False))"

definition known_off :: "int \<Rightarrow> trace \<Rightarrow> bool" where
  "known_off vm tr = list_ex (\<lambda>(st, c). c = GotPower vm (Inr Off)) (takeWhile (\<lambda>(st, c). harmless c) tr)"

definition unregisters_off :: "State \<Rightarrow> call \<Rightarrow> trace \<Rightarrow> bool" where
  "unregisters_off st c older = (case c of DidUnregister vm r \<Rightarrow> known_off vm older | _ \<Rightarrow> True)"

definition no_unregister :: "call \<Rightarrow> bool" where
  "no_unregister c = (case c of DidUnregister i r \<Rightarrow> False | _ \<Rightarrow> True)"

interpretation offs: replan_law "allowed unregisters_off q" no_unregister for q
proof (rule along_law)
  fix st c older
  show "no_unregister c \<Longrightarrow> unregisters_off st c older" "is_operator c \<Longrightarrow> unregisters_off st c older" "is_read c \<Longrightarrow> no_unregister c"
    by (cases c; simp add: no_unregister_def unregisters_off_def)+
  show "unregisters_off st (Taken a) older" for a
    by (simp add: unregisters_off_def)
qed

definition off_known :: "plan_id \<Rightarrow> int \<Rightarrow> 'w st \<Rightarrow> bool" where
  "off_known q vm s = (allowed unregisters_off q s \<and> known_off vm (s_trace s))"

definition harmless_call :: "call \<Rightarrow> bool" where
  "harmless_call c = (is_read c \<or> (case c of DidConsolidate i n r \<Rightarrow> True | _ \<Rightarrow> False))"

lemma off_known_off: "off_known q vm s \<Longrightarrow> allowed unregisters_off q s"
  by (simp add: off_known_def)

lemma known_off_noted: "known_off vm tr \<Longrightarrow> harmless c \<Longrightarrow> known_off vm ((st, c) # tr)"
  by (simp add: known_off_def)

interpretation known: run_law "off_known q vm" harmless_call q for q vm
proof
  fix s :: "'w st" and x
  assume k: "off_known q vm s"
  then have "allowed unregisters_off q (serve x s)" by (intro offs.serves off_known_off)
  moreover have "known_off vm (s_trace (serve x s))"
    using serve_trace [of x s] k by (auto simp: off_known_def known_off_noted harmless_def)
  ultimately show "off_known q vm (serve x s)" by (simp add: off_known_def)
next
  fix s :: "'w st" and c
  assume k: "off_known q vm s" and c: "harmless_call c"
  have "no_unregister c" "harmless c"
    using c by (cases c; simp add: harmless_call_def no_unregister_def harmless_def)+
  with k offs.call [of q s c] show "off_known q vm (noted c s)"
    by (simp add: off_known_def known_off_noted noted_def)
next
  fix s :: "'w st"
  assume k: "off_known q vm s"
  then have "allowed unregisters_off q (snd (take_action s))" by (intro offs.taken off_known_off)
  with k show "off_known q vm (snd (take_action s))"
    by (auto simp: off_known_def take_action_def noted_def known_off_noted harmless_def split: option.split)
qed (auto simp: off_known_def harmless_call_def intro: offs.world offs.planned dest: offs.job offs.past simp: with_job_def)

lemma offs_kinds: "starts no_unregister" "stops_source no_unregister" "forces no_unregister" "registers no_unregister" "powers no_unregister" "answers no_unregister"
  "writes no_unregister" "creates no_unregister" "locks no_unregister" "snapshots no_unregister" "ends_clones no_unregister"
  by (simp_all add: kinds no_unregister_def)

lemma requireOff_known: "hoare (allowed unregisters_off q) (requireOff e vm) (\<lambda>_. off_known q vm) (\<lambda>_. allowed unregisters_off q)"
  unfolding requireOff_def x_Power_def
  by (rule hoare_bind [where R = "\<lambda>p s. allowed unregisters_off q s \<and> (p = Off \<longrightarrow> off_known q vm s)"], rule hoare_call)
    (auto simp: off_known_def allowed_def unregisters_off_def known_off_def harmless_def split: sum.split intro!: hoare_require)

lemma unregister_known:
  "hoare (off_known q vm) (attempt (x_Unregister h vm)) (\<lambda>_. allowed unregisters_off q) (\<lambda>_. allowed unregisters_off q)"
  unfolding x_Unregister_def
  by (rule hoare_attempt, rule hoare_call) (auto simp: off_known_def allowed_def unregisters_off_def split: sum.split)

lemma unregister_then:
  assumes "\<And>x. keeps (allowed unregisters_off q) (f x)"
  shows "hoare (off_known q vm) (bind (attempt (x_Unregister h vm)) f) (\<lambda>_. allowed unregisters_off q) (\<lambda>_. allowed unregisters_off q)"
  by (rule hoare_bind [OF unregister_known]) (rule keeps_hoare [OF assms])

lemma off_stay:
  "keeps (off_known q vm) m \<Longrightarrow> hoare (off_known q vm) k Q (\<lambda>_. allowed unregisters_off q) \<Longrightarrow>
    hoare (off_known q vm) (seq m k) Q (\<lambda>_. allowed unregisters_off q)"
  "keeps (off_known q vm) m' \<Longrightarrow> (\<And>x. hoare (off_known q vm) (f x) Q (\<lambda>_. allowed unregisters_off q)) \<Longrightarrow>
    hoare (off_known q vm) (bind m' f) Q (\<lambda>_. allowed unregisters_off q)"
  by (erule hoare_stay_seq hoare_stay_bind; simp add: off_known_off)+

lemmas off_steps = unregister_then hoare_enter [OF requireOff_known] off_stay

lemma harmless_snapshots: "keeps (off_known q vm) (x_ConsolidateOwnSnapshot h i n)"
  unfolding x_defs by (rule known.keeps_call) (simp add: harmless_call_def)

lemma off_commit: "keeps (allowed unregisters_off q) (commit e r)"
  unfolding commit_def Let_def
  by (rule off_steps | rule offs_kinds | rule keeps_intros)+

lemma off_mergeCopy: "keeps (allowed unregisters_off q) (mergeCopy e r name)"
  unfolding mergeCopy_def Let_def
  by (rule off_steps | rule offs_kinds | rule harmless_snapshots | rule keeps_intros)+

lemma off_restore_target: "keeps (allowed unregisters_off q) (restore_target e r found)"
proof -
  have "keeps (allowed unregisters_off q) (bind (attempt (requireOff e vm)) (\<lambda>off. seq (require (is_ok off) er) (bind (attempt (x_Unregister h vm)) f)))"
    if "\<And>x. keeps (allowed unregisters_off q) (f x)" for h :: "'a host" and f :: "unit result \<Rightarrow> ('a, int) M" and er vm
  proof (rule hoare_attempt_into [OF requireOff_known])
    show "keeps (allowed unregisters_off q) (seq (require (is_ok (Inl c)) er) (bind (attempt (x_Unregister h vm)) f))" for c :: err
      by (simp add: require_def seq_def keeps_alt fail_def throw_def bind_def)
    show "hoare (off_known q vm) (seq (require (is_ok (Inr x)) er) (bind (attempt (x_Unregister h vm)) f))
        (\<lambda>_. allowed unregisters_off q) (\<lambda>_. allowed unregisters_off q)" for x :: unit
      by (rule off_stay keeps_require unregister_then that)+
  qed
  note inner = this
  show ?thesis
    unfolding restore_target_def Let_def
    by (rule inner | rule offs_kinds | rule keeps_intros)+
qed

lemma off_restoreSource: "keeps (allowed unregisters_off q) (restoreSource e r name)"
  unfolding restoreSource_def restore_registration_def Let_def
  by (rule off_restore_target | rule offs_kinds | rule keeps_intros)+

lemma off_Rollback: "keeps (allowed unregisters_off q) (Rollback e)"
proof -
  have "keeps (allowed unregisters_off q) (bind (attempt (requireOff e vm)) (\<lambda>off. seq (require (is_ok off) er) (bind (attempt (x_Message h vm)) (\<lambda>m.
      seq (require (b m) er') (seq (j_update h u) (bind (attempt (x_Unregister h vm)) f))))))"
    if "\<And>x. keeps (allowed unregisters_off q) (f x)" for h :: "'a host" and f :: "unit result \<Rightarrow> ('a, unit) M" and er vm b er' u
  proof (rule hoare_attempt_into [OF requireOff_known])
    show "keeps (allowed unregisters_off q) (seq (require (is_ok (Inl c)) er) g)" for c :: err and g :: "('a, unit) M"
      by (simp add: require_def seq_def keeps_alt fail_def throw_def bind_def)
    show "hoare (off_known q vm) (seq (require (is_ok (Inr x)) er) (bind (attempt (x_Message h vm)) (\<lambda>m.
      seq (require (b m) er') (seq (j_update h u) (bind (attempt (x_Unregister h vm)) f)))))
        (\<lambda>_. allowed unregisters_off q) (\<lambda>_. allowed unregisters_off q)" for x :: unit
      by (rule off_steps that keeps_intros)+
  qed
  note inner = this
  show ?thesis
    unfolding Rollback_def Let_def
    by (rule inner | rule offs_kinds | rule keeps_intros)+
qed

lemma off_Run: "keeps (allowed unregisters_off q) (Run e)"
proof (rule offs.keeps_Run)
  show "keeps (allowed unregisters_off q) (Run_cold e)"
    by (intro offs.keeps_Run_cold offs.keeps_run_cold offs.keeps_clone_cold offs.keeps_clone_disk offs.keeps_finish_cold
        offs.keeps_finish_rest offs.keeps_shutdown offs.keeps_reads offs.keeps_switch_registration off_commit offs_kinds) assumption
  show "keeps (allowed unregisters_off q) (runLive e)"
  proof (rule offs.keeps_runLive)
    fix r fresh name snap
    show "keeps (allowed unregisters_off q) (bind (live_body e r fresh name snap) (live_deferred e r name))"
      by (intro keeps_bind offs.keeps_live_body offs.keeps_clone_live_disk offs.keeps_live_deferred off_restoreSource
          offs.keeps_live_close offs.keeps_cutover offs.keeps_cutover_rest offs.keeps_shutdown offs.keeps_reads off_mergeCopy
          off_commit offs.keeps_live_after offs_kinds)
  qed (rule offs_kinds)+
qed

text \<open>A rollback starts from the job a run has left.\<close>

definition ended :: "'w \<Rightarrow> Job \<Rightarrow> 'w st" where
  "ended w j = \<lparr>s_world = w, s_job = j, s_granted = [], s_trace = []\<rparr>"

text \<open>
  C5: no VM is unregistered while it may be running. Before every unregister of a run, cold or live, and of a
  rollback, the host reported that same VM as powered off, and since then it was only read or merged a snapshot.
\<close>

theorem unregistered_only_off:
  "along unregisters_off (run_of (Run e) w r t t') \<and> along unregisters_off (s_trace (snd (Rollback e (ended w j))))"
proof
  show "along unregisters_off (run_of (Run e) w r t t')"
    by (rule allowed_run) (rule off_Run)
  have "allowed unregisters_off (plan_key (jb_plan j)) (ended w j)" by (simp add: allowed_def ended_def)
  from keepsD [OF off_Rollback this] show "along unregisters_off (s_trace (snd (Rollback e (ended w j))))"
    by (simp add: allowed_def)
qed

end
