(* ===== verification/Commit_Safety.thy ===== *)
theory Commit_Safety
  imports Cold_Safety
begin

text \<open>
  How a cold migration switches the registration: only as a MOVE, only from a verified target in the commit
  phase, and never asking the host for a second registration while it knows of the first.
\<close>

section \<open>What each switching call relies on\<close>

definition happened :: "(call \<Rightarrow> bool) \<Rightarrow> trace \<Rightarrow> bool" where
  "happened P tr = list_ex (\<lambda>(st, c). P c) tr"

fun is_unregister :: "call \<Rightarrow> bool" where
  "is_unregister (DidUnregister i r) = True"
| "is_unregister c = False"

fun is_register :: "call \<Rightarrow> bool" where
  "is_register (DidRegister p r) = True"
| "is_register c = False"

fun is_power_on :: "call \<Rightarrow> bool" where
  "is_power_on (DidPowerOn i r) = True"
| "is_power_on c = False"

definition switch_guard :: "plan_id \<Rightarrow> State \<Rightarrow> call \<Rightarrow> trace \<Rightarrow> bool" where
  "switch_guard q st c older = (case c of
      DidUnregister i r \<Rightarrow> rq_Mode (pi_Request q) = modeMove \<and> i = rq_VMID (pi_Request q) \<and> js_TargetVerified st \<and> js_Phase st = PhaseCommit
    | DidRegister p r \<Rightarrow> rq_Mode (pi_Request q) = modeMove \<and> happened is_unregister older \<and>
        (p = pi_Target q \<and> js_SourceRegistration st = ''not registered'' \<or>
         p = pi_Source q \<and> js_TargetRegistration st = ''not registered'')
    | DidPowerOn i r \<Rightarrow> rq_Mode (pi_Request q) = modeMove \<and> rq_PowerOn (pi_Request q) \<and> happened is_register older \<and>
        i = js_TargetVMID st \<and> js_Phase st = PhasePowerOn
    | DidAnswer i m a r \<Rightarrow> happened is_power_on older
    | _ \<Rightarrow> True)"

text \<open>The stages of the switch: the source was unregistered, a VM registered, the target powered on.\<close>

definition stage :: "nat \<Rightarrow> trace \<Rightarrow> bool" where
  "stage n tr = ((1 \<le> n \<longrightarrow> happened is_unregister tr) \<and> (2 \<le> n \<longrightarrow> happened is_register tr) \<and> (3 \<le> n \<longrightarrow> happened is_power_on tr))"

definition switch_law :: "plan_id \<Rightarrow> nat \<Rightarrow> 'w st \<Rightarrow> bool" where
  "switch_law q n s = (allowed (switch_guard q) q s \<and> stage n (s_trace s))"

definition between_switches :: "nat \<Rightarrow> call \<Rightarrow> bool" where
  "between_switches n c = (\<not> is_unregister c \<and> \<not> is_register c \<and> \<not> is_power_on c \<and> \<not> is_operator c \<and> (case c of DidAnswer i m a r \<Rightarrow> 3 \<le> n | _ \<Rightarrow> True))"

lemma happened_Cons: "happened P ((st, c) # tr) = (P c \<or> happened P tr)"
  by (simp add: happened_def)

lemma stage_Cons: "stage n tr \<Longrightarrow> stage n ((st, c) # tr)"
  by (simp add: stage_def happened_Cons)

lemma switch_law_less: "switch_law q m s \<Longrightarrow> n \<le> m \<Longrightarrow> switch_law q n s"
  by (auto simp: switch_law_def stage_def)

lemma stage_served: "stage n (s_trace s) \<Longrightarrow> stage n (s_trace (serve x s))"
  using serve_trace [of x s] by (auto simp: stage_Cons)

interpretation switching: replan_law "switch_law q n" "between_switches n" q for q n
proof
  fix s :: "'w st" and x
  assume l: "switch_law q n s"
  have "switch_guard q st c older" if "is_operator c" for st c older
    using that by (cases c) (simp_all add: switch_guard_def)
  with l serve_trace [of x s] show "switch_law q n (serve x s)"
    by (auto simp: switch_law_def allowed_def stage_Cons)
next
  fix s :: "'w st" and c
  assume l: "switch_law q n s" and "between_switches n c"
  then have "switch_guard q (jb_state (s_job s)) c (s_trace s)"
    by (cases c) (simp_all add: switch_guard_def between_switches_def switch_law_def stage_def)
  with l show "switch_law q n (noted c s)"
    by (simp add: switch_law_def allowed_def noted_def stage_Cons)
next
  fix s :: "'w st"
  show "switch_law q n s \<Longrightarrow> switch_law q n (snd (take_action s))"
    by (auto simp: switch_law_def allowed_def take_action_def noted_def stage_Cons switch_guard_def split: option.split)
next
  fix c
  show "is_read c \<Longrightarrow> between_switches n c"
    by (cases c) (simp_all add: between_switches_def)
qed (auto simp: switch_law_def allowed_def same_control_def with_job_def proceed_def)

lemma switching_kinds: "starts (between_switches n)" "stops_source (between_switches n)" "forces (between_switches n)" "locks (between_switches n)"
  "writes (between_switches n)" "creates (between_switches n)" "snapshots (between_switches n)" "ends_clones (between_switches n)"
  "3 \<le> n \<Longrightarrow> answers (between_switches n)"
  by (simp_all add: kinds between_switches_def)

section \<open>The job's state on the way\<close>

text \<open>A state of the job that the operator's requests leave alone.\<close>

definition steady :: "(State \<Rightarrow> bool) \<Rightarrow> bool" where
  "steady F = (\<forall>st m. F (st\<lparr>js_Message := m\<rparr>) = F st)"

definition shown :: "plan_id \<Rightarrow> nat \<Rightarrow> (State \<Rightarrow> bool) \<Rightarrow> 'w st \<Rightarrow> bool" where
  "shown q n F s = (switch_law q n s \<and> F (jb_state (s_job s)))"

lemma shown_law: "shown q n F s \<Longrightarrow> switch_law q n s"
  by (simp add: shown_def)

lemma shown_world: "shown q n F s \<Longrightarrow> shown q n F (s\<lparr>s_world := w\<rparr>)"
  by (simp add: shown_def switching.world)

lemma shown_serve: "steady F \<Longrightarrow> shown q n F s \<Longrightarrow> shown q n F (serve x s)"
proof -
  assume F: "steady F" and s: "shown q n F s"
  have "F (jb_state (s_job (serve x s))) = F (jb_state (s_job s))"
    using F by (cases x) (auto simp: steady_def noted_def Let_def requestStop_def split_beta)
  with s show ?thesis by (simp add: shown_def switching.serves)
qed

lemma shown_fails: "shown q n F s \<Longrightarrow> switch_law q 0 s"
  by (rule switch_law_less [OF shown_law]) simp_all

lemma shown_bind:
  assumes "quiet is_read m" and "\<And>x. hoare (shown q n F) (f x) Q (\<lambda>_. switch_law q 0)"
  shows "hoare (shown q n F) (bind m f) Q (\<lambda>_. switch_law q 0)"
proof (rule hoare_bind)
  show "hoare (shown q n F) m (\<lambda>_. shown q n F) (\<lambda>_. switch_law q 0)"
    unfolding hoare_alt
  proof (intro allI impI)
    fix s :: "'a st"
    assume s: "shown q n F s"
    obtain w new where new: "snd (m s) = after s w new" by (rule quietD [OF assms(1)])
    have "switch_law q n (snd (m s))" by (rule keepsD [OF switching.keeps_quiet [OF assms(1)] shown_law [OF s]])
    then have "shown q n F (snd (m s))" using s new by (simp add: shown_def)
    then show "(\<forall>x s'. m s = (Inr x, s') \<longrightarrow> shown q n F s') \<and> (\<forall>e s'. m s = (Inl e, s') \<longrightarrow> switch_law q 0 s')"
      by (auto dest: shown_fails)
  qed
qed (rule assms(2))

lemma shown_seq: "quiet is_read m \<Longrightarrow> hoare (shown q n F) k Q (\<lambda>_. switch_law q 0) \<Longrightarrow> hoare (shown q n F) (seq m k) Q (\<lambda>_. switch_law q 0)"
  unfolding seq_def by (rule shown_bind)

lemma shown_require: "(b \<Longrightarrow> hoare (shown q n F) k Q (\<lambda>_. switch_law q 0)) \<Longrightarrow> hoare (shown q n F) (seq (require b e) k) Q (\<lambda>_. switch_law q 0)"
  by (cases b) (simp_all add: require_def seq_def hoare_def bind_def ret_def fail_def throw_def shown_fails)

lemma shown_fail: "hoare (shown q n F) (fail e) Q (\<lambda>_. switch_law q 0)"
  by (rule hoare_fail) (rule shown_fails)

lemma shown_update:
  assumes "hoare (shown q n G) k Q (\<lambda>_. switch_law q 0)" and "steady F" and "\<And>st t. F st \<Longrightarrow> G ((f st)\<lparr>js_Updated := t\<rparr>)"
  shows "hoare (shown q n F) (seq (j_update h f) k) Q (\<lambda>_. switch_law q 0)"
proof (rule hoare_seq [OF hoare_update assms(1)])
  fix s :: "'a st" and t
  assume s: "shown q n F s"
  have "switch_law q n (with_job (update_job f t (s_job s)) s)"
    by (rule switching.job [OF shown_law [OF s]]) (simp add: same_control_def)
  with s assms(3) show "shown q n G (with_job (update_job f t (s_job s)) s)"
    by (simp add: shown_def with_job_def)
qed (simp_all add: shown_world shown_serve assms(2))

text \<open>Any state of the job.\<close>

definition whatever :: "State \<Rightarrow> bool" where
  "whatever st = True"

lemma steady_whatever: "steady whatever"
  by (simp add: steady_def whatever_def)

lemma shown_whatever: "shown q n whatever = switch_law q n"
  by (simp add: shown_def whatever_def fun_eq_iff)

lemma shown_keeps: "keeps (switch_law q n) k \<Longrightarrow> m \<le> n \<Longrightarrow> hoare (shown q n F) k (\<lambda>_. switch_law q m) (\<lambda>_. switch_law q 0)"
  by (erule hoare_conseq [OF keeps_hoare]) (auto dest: shown_law switch_law_less)

lemma shown_call:
  assumes "\<And>st tr r. F st \<Longrightarrow> stage n tr \<Longrightarrow> switch_guard q st (c r) tr" and "\<And>tr st r. stage n tr \<Longrightarrow> stage n' ((st, c r) # tr)"
    and "\<And>x. hoare (shown q n' F) (f x) Q (\<lambda>_. switch_law q 0)"
  shows "hoare (shown q n F) (bind (attempt (call_host a c)) f) Q (\<lambda>_. switch_law q 0)"
proof (rule hoare_bind [OF _ assms(3)], rule hoare_attempt, rule hoare_call)
  fix s r w
  assume "shown q n F s"
  with assms(1,2) have "shown q n' F (after s w [c r])"
    by (simp add: shown_def switch_law_def allowed_def)
  then show "case r of Inl e \<Rightarrow> (case Err e of Err x \<Rightarrow> shown q n' F (after s w [c r]) | OutOfFuel \<Rightarrow> switch_law q 0 (after s w [c r]))
      | Inr x \<Rightarrow> shown q n' F (after s w [c r])"
    by (cases r) simp_all
qed

lemma shown_Snapshot:
  assumes "steady F" and "\<And>x. hoare (shown q n (\<lambda>st. F st \<and> js_TargetVerified st = js_TargetVerified x \<and> js_TargetVMID st = js_TargetVMID x)) (f x) Q (\<lambda>_. switch_law q 0)"
  shows "hoare (shown q n F) (bind (j_Snapshot h) f) Q (\<lambda>_. switch_law q 0)"
proof (rule hoare_bind [OF hoare_Snapshot assms(2)])
  fix s :: "'a st"
  assume "shown q n F s"
  then show "shown q n (\<lambda>st. F st \<and> js_TargetVerified st = js_TargetVerified (Snapshot (s_job s)) \<and> js_TargetVMID st = js_TargetVMID (Snapshot (s_job s))) s"
    by (simp add: shown_def Snapshot_def)
qed (simp_all add: shown_world shown_serve assms(1))

section \<open>The commit\<close>

lemma quiet_registrations_attempt [quiet_intros]: "quiet is_read (attempt (registrations e a b))"
  by (intro quiet_intros)

lemma move_register:
  assumes "rq_Mode (pi_Request q) = modeMove" and "guarded q r"
  shows "hoare (shown q 1 (\<lambda>st. js_SourceRegistration st = ''not registered'')) (commit_register e r) (\<lambda>_. switch_law q 2) (\<lambda>_. switch_law q 0)"
proof -
  from assms(2) have r: "rp_TargetVMX r = pi_Target q" "rp_SourceVMX r = pi_Source q"
    by (auto simp: guarded_def)
  have again: "hoare (shown q 2 whatever) (seq (j_update h (\<lambda>s. s\<lparr>js_TargetRegistration := ''not registered'', js_SourceRegistration := ''unknown''\<rparr>))
      (bind (attempt (x_Register h (rp_SourceVMX r))) f)) (\<lambda>_. switch_law q 2) (\<lambda>_. switch_law q 0)"
    if "\<And>x. keeps (switch_law q 2) (f x)" for h :: "'a host" and f :: "int result \<Rightarrow> ('a, unit) M"
  proof (rule shown_update [where G = "\<lambda>st. js_TargetRegistration st = ''not registered''"])
    show "hoare (shown q 2 (\<lambda>st. js_TargetRegistration st = ''not registered'')) (bind (attempt (x_Register h (rp_SourceVMX r))) f)
        (\<lambda>_. switch_law q 2) (\<lambda>_. switch_law q 0)"
      unfolding x_Register_def
      by (rule shown_call [where n' = 2]) (auto simp: switch_guard_def r assms(1) stage_def happened_Cons intro!: shown_keeps that)
  qed (simp_all add: steady_whatever)
  show ?thesis
    unfolding commit_register_def Let_def x_Register_def [of _ "rp_TargetVMX r"]
    apply (rule shown_call [where n' = 2])
      apply (auto simp: switch_guard_def r assms(1) stage_def happened_Cons)[2]
    apply (rule shown_update [where G = whatever])
      apply (rule shown_bind, intro quiet_intros)
      apply (intro hoare_sum hoare_prod shown_fail)
      apply (unfold publishRegistrations_def [of e])
      apply (rule shown_update [where G = whatever])
        apply (rule shown_require, rule hoare_if)
         apply (rule again, intro keeps_intros)
        apply (rule shown_keeps, intro keeps_intros, simp)
       apply (simp_all add: steady_whatever whatever_def steady_def)
    done
qed

lemma move_commit:
  assumes "rq_Mode (pi_Request q) = modeMove" and "guarded q r"
  shows "hoare (switch_law q 0) (commit e r) (\<lambda>_. switch_law q 2) (\<lambda>_. switch_law q 0)"
proof -
  let ?ready = "\<lambda>st. js_TargetVerified st \<and> js_Phase st = PhaseCommit"
  from assms(2) have r: "vm_ID (rp_VM r) = rq_VMID (pi_Request q)"
    by (auto simp: guarded_def reviewed_def report_ok_def)
  have unregister: "hoare (shown q 0 ?ready) (bind (attempt (x_Unregister h (rq_VMID (pi_Request q)))) f) (\<lambda>_. switch_law q 2) (\<lambda>_. switch_law q 0)"
    if "\<And>x. hoare (switch_law q 1) (f x) (\<lambda>_. switch_law q 2) (\<lambda>_. switch_law q 0)" for h :: "'a host" and f :: "unit result \<Rightarrow> ('a, unit) M"
    unfolding x_Unregister_def
  proof (rule shown_call [where n' = 1])
    show "hoare (shown q 1 ?ready) (f x) (\<lambda>_. switch_law q 2) (\<lambda>_. switch_law q 0)" for x
      by (rule hoare_pre [OF that]) (rule shown_law)
  qed (auto simp: switch_guard_def assms(1) stage_def happened_Cons)
  have rest: "hoare (switch_law q 1) (bind (attempt (registrations e a b)) (\<lambda>found. case found of Inl _ \<Rightarrow> fail er
      | Inr (src', dst') \<Rightarrow> seq (publishRegistrations e src' dst') (if src' \<noteq> 0 then seq (j_update h u) (fail (er' y))
          else seq (j_update h (\<lambda>s. s\<lparr>js_SourceRegistration := ''not registered''\<rparr>)) (seq (require (dst' = 0) er'') (commit_register e r)))))
      (\<lambda>_. switch_law q 2) (\<lambda>_. switch_law q 0)" for a b h er er' u er'' and y :: "unit result"
    unfolding shown_whatever [of q 1, symmetric] publishRegistrations_def [of e]
    apply (rule shown_bind, intro quiet_intros)
    apply (intro hoare_sum hoare_prod shown_fail)
    apply (rule shown_update [where G = whatever])
      apply (rule hoare_if)
       apply (rule shown_update [where G = whatever], rule shown_fail, rule steady_whatever, simp add: whatever_def)
      apply (rule shown_update [where G = "\<lambda>st. js_SourceRegistration st = ''not registered''"])
        apply (rule shown_require)
        apply (rule move_register [OF assms])
       apply (simp_all add: steady_whatever whatever_def)
    done
  show ?thesis
    unfolding commit_def Let_def
    apply (rule hoare_pre [where P = "shown q 0 whatever"])
    apply (rule shown_Snapshot, rule steady_whatever)
    apply (rule shown_require, rule shown_bind, intro quiet_intros)
    apply (rule hoare_prod, rule shown_require, rule shown_seq, intro quiet_intros)
    apply (unfold j_phase_def)
    apply (rule shown_update [where G = ?ready])
      apply (rule shown_update [where G = ?ready])
        apply (elim conjE, hypsubst)
        apply (simp only: r)
        apply (rule unregister, rule rest)
       apply (simp_all add: steady_def whatever_def set_phase_def shown_def)
    done
qed

section \<open>The power-on\<close>

lemma move_powerOn:
  assumes "rq_Mode (pi_Request q) = modeMove" and "rq_PowerOn (pi_Request q)"
  shows "hoare (switch_law q 2) (powerOn e) (\<lambda>_. switch_law q 0) (\<lambda>_. switch_law q 0)"
proof -
  let ?on = "\<lambda>i st. js_Phase st = PhasePowerOn \<and> js_TargetVMID st = i"
  have power: "hoare (shown q 2 (?on i)) (bind (attempt (x_PowerOn h i)) f) (\<lambda>_. switch_law q 0) (\<lambda>_. switch_law q 0)"
    if "\<And>x. keeps (switch_law q 3) (f x)" for h :: "'a host" and i and f :: "unit result \<Rightarrow> ('a, unit) M"
    unfolding x_PowerOn_def
    by (rule shown_call [where n' = 3]) (auto simp: switch_guard_def assms stage_def happened_Cons intro!: shown_keeps that)
  show ?thesis
    unfolding powerOn_def Let_def
    apply (rule hoare_pre [where P = "shown q 2 whatever"])
     apply (rule shown_Snapshot, rule steady_whatever)
     apply (rule shown_bind, intro quiet_intros)
     apply (rule shown_bind, intro quiet_intros)
     apply (rule shown_require)
     apply (unfold j_phase_def)
     apply (rule shown_update)
       apply (rule power, intro keeps_intros switching.keeps_power_loop switching_kinds)
       apply (simp_all add: steady_def whatever_def set_phase_def shown_def)
    done
qed

lemma move_switch_registration:
  assumes "guarded q r"
  shows "keeps (switch_law q 0) (switch_registration e r)"
proof -
  have req: "rp_Request r = pi_Request q" using assms by (auto simp: guarded_def)
  have "hoare (switch_law q 2) (if rq_PowerOn (rp_Request r) then powerOn e else ret ()) (\<lambda>_. switch_law q 0) (\<lambda>_. switch_law q 0)"
    if "rq_Mode (pi_Request q) = modeMove"
    using move_powerOn [OF that, of e] by (auto simp: req intro!: hoare_ret dest: switch_law_less [where n = 0])
  then have "keeps (switch_law q 0) (seq (commit e r) (if rq_PowerOn (rp_Request r) then powerOn e else ret ()))"
    if "rq_Mode (pi_Request q) = modeMove"
    using move_commit [OF that assms] that by (blast intro: hoare_enter)
  then show ?thesis
    unfolding switch_registration_def req by (intro keeps_if keeps_ret)
qed

lemma switching_Run_cold: "keeps (switch_law q 0) (Run_cold e)"
  by (intro switching.keeps_Run_cold switching.keeps_run_cold switching.keeps_clone_cold switching.keeps_clone_disk
      switching.keeps_finish_cold switching.keeps_finish_rest switching.keeps_shutdown switching.keeps_reads
      move_switch_registration switching_kinds) assumption+

text \<open>
  C4: a cold migration switches the registration only as it should, whatever the host answers and the operator does. It unregisters
  only the VM of the request, as a MOVE, in the commit phase, after the target was verified; it asks for a registration
  only after that, of the target while the source is known to be unregistered or of the source while the target is
  known to be; and it powers on only the registered target, if that was requested. So a COPY touches no registration.
\<close>

theorem cold_switch_guarded: "along (switch_guard (plan_key r)) (run_of (Run_cold e) w r t t')"
proof -
  have "switch_law (plan_key r) 0 (begun w r t t')"
    by (simp add: switch_law_def allowed_begun stage_def)
  from keepsD [OF switching_Run_cold this] show ?thesis
    by (simp add: run_of_def switch_law_def allowed_def)
qed

end
