(* ===== verification/Clone_Safety.thy ===== *)
theory Clone_Safety
  imports Cold_Safety
begin

text \<open>
  A clone runs detached on the host, so it outlives the connection, the engine's patience and the migration. Until its
  end was seen, nothing that could damage it, or what it reads, is done: not even the operation lock is archived.
\<close>

section \<open>Clones whose end was not seen\<close>

text \<open>The disk of the last clone that was launched, as long as the host has not reported its end.\<close>

fun pending :: "trace \<Rightarrow> int option" where
  "pending [] = None"
| "pending ((st, c) # older) = (case c of
      DidStartClone i k vm a b off r \<Rightarrow> Some k
    | GotCloneStatus k (Inr status) \<Rightarrow> (if cl_Done status \<and> pending older = Some k then None else pending older)
    | _ \<Rightarrow> pending older)"

definition left_alone :: "call \<Rightarrow> bool" where
  "left_alone c = (is_read c \<or> (case c of DidStopClone k r \<Rightarrow> True | Taken a \<Rightarrow> True | _ \<Rightarrow> is_operator c))"

definition clone_alone :: "State \<Rightarrow> call \<Rightarrow> trace \<Rightarrow> bool" where
  "clone_alone st c older = (pending older \<noteq> None \<longrightarrow> left_alone c)"

text \<open>Some clone of \<open>K\<close> may be running; or, where \<open>K\<close> is empty, none.\<close>

definition waiting :: "plan_id \<Rightarrow> int set \<Rightarrow> 'w st \<Rightarrow> bool" where
  "waiting q K s = (allowed clone_alone q s \<and> set_option (pending (s_trace s)) \<subseteq> K)"

definition still :: "call \<Rightarrow> bool" where
  "still c = (is_read c \<or> (case c of DidStopClone k r \<Rightarrow> True | _ \<Rightarrow> False))"

lemma pending_still: "still c \<Longrightarrow> set_option (pending ((st, c) # tr)) \<subseteq> set_option (pending tr)"
  by (cases c) (auto simp: still_def split: sum.split)

lemma pending_operator [simp]: "is_operator c \<Longrightarrow> pending ((st, c) # tr) = pending tr"
  by (cases c) simp_all

lemma pending_start: "no_start c \<Longrightarrow> set_option (pending ((st, c) # tr)) \<subseteq> set_option (pending tr)"
  by (cases c) (auto simp: no_start_def split: sum.split)

lemma waiting_more: "waiting q K s \<Longrightarrow> K \<subseteq> L \<Longrightarrow> waiting q L s"
  by (auto simp: waiting_def)

lemma waiting_serve: "waiting q K s \<Longrightarrow> waiting q K (serve x s)"
proof -
  assume w: "waiting q K s"
  have "clone_alone st c older" if "is_operator c" for st c older
    using that by (cases c) (simp_all add: clone_alone_def left_alone_def)
  with serve_trace [of x s] w show ?thesis
    unfolding waiting_def allowed_def by (elim disjE exE conjE) (simp_all del: pending.simps)
qed

lemma waiting_taken: "waiting q K s \<Longrightarrow> waiting q K (snd (take_action s))"
  by (auto simp: waiting_def allowed_def take_action_def noted_def clone_alone_def left_alone_def split: option.split)

lemma waiting_job: "waiting q K s \<Longrightarrow> plan_key (jb_plan j) = plan_key (jb_plan (s_job s)) \<Longrightarrow> waiting q K (with_job j s)"
  by (simp add: waiting_def allowed_def with_job_def)

interpretation waits: run_law "waiting q K" still q for q K
proof
  fix s :: "'w st" and x
  show "waiting q K s \<Longrightarrow> waiting q K (serve x s)" by (rule waiting_serve)
next
  fix s :: "'w st"
  show "waiting q K s \<Longrightarrow> waiting q K (snd (take_action s))" by (rule waiting_taken)
next
  fix s :: "'w st" and c
  assume w: "waiting q K s" and c: "still c"
  then have "left_alone c" by (cases c) (simp_all add: still_def left_alone_def)
  moreover have "set_option (pending ((st, c) # s_trace s)) \<subseteq> K" for st
    by (rule subset_trans [OF pending_still [OF c]]) (use w in \<open>simp add: waiting_def\<close>)
  ultimately show "waiting q K (noted c s)"
    using w by (simp add: waiting_def allowed_def noted_def clone_alone_def del: pending.simps)
qed (auto simp: waiting_job proceed_def same_control_def still_def, auto simp: waiting_def allowed_def)

interpretation idle: replan_law "waiting q {}" no_start q for q
proof
  fix s :: "'w st" and x
  show "waiting q {} s \<Longrightarrow> waiting q {} (serve x s)" by (rule waiting_serve)
next
  fix s :: "'w st"
  show "waiting q {} s \<Longrightarrow> waiting q {} (snd (take_action s))" by (rule waiting_taken)
next
  fix s :: "'w st" and c
  assume w: "waiting q {} s" and c: "no_start c"
  then have "pending (s_trace s) = None" by (simp add: waiting_def)
  moreover from this pending_start [OF c, of _ "s_trace s"] have "pending ((st, c) # s_trace s) = None" for st
    by (simp del: pending.simps)
  ultimately show "waiting q {} (noted c s)"
    using w by (simp add: waiting_def allowed_def noted_def clone_alone_def del: pending.simps)
next
  fix c
  show "is_read c \<Longrightarrow> no_start c" by (cases c) (simp_all add: no_start_def)
qed (auto simp: waiting_job proceed_def same_control_def, auto simp: waiting_def allowed_def with_job_def)

section \<open>Code that does not fail\<close>

text \<open>Code whose errors are all values: it ends with one, or runs out of fuel.\<close>

definition calm :: "('w, 'a) M \<Rightarrow> bool" where
  "calm m = (\<forall>s c s'. m s \<noteq> (Inl (Err c), s'))"

named_theorems calm_intros \<open>code that raises no error\<close>

lemma calmD: "calm m \<Longrightarrow> m s = (Inl x, s') \<Longrightarrow> x = OutOfFuel"
  by (cases x) (auto simp: calm_def)

lemma calmI: "(\<And>s x s'. m s = (Inl x, s') \<Longrightarrow> x = OutOfFuel) \<Longrightarrow> calm m"
  by (auto simp: calm_def)

lemma calm_simple [calm_intros]: "calm (ret x)" "calm (throw OutOfFuel)" "calm (now h)" "calm (on_job f)" "calm (operator_turn h)"
  by (simp_all add: calm_def ret_def throw_def now_def on_job_def operator_turn_def split_beta)

lemma calm_bind [calm_intros]: "calm m \<Longrightarrow> (\<And>x. calm (f x)) \<Longrightarrow> calm (bind m f)"
  by (rule calmI) (auto simp: bind_def split: prod.splits sum.splits dest: calmD)

lemma calm_seq [calm_intros]: "calm m \<Longrightarrow> calm k \<Longrightarrow> calm (seq m k)"
  by (simp add: seq_def calm_bind)

lemma calm_attempt [calm_intros]: "calm (attempt m)"
  by (auto simp: calm_def attempt_def split: prod.splits sum.splits exn.splits)

lemma calm_cases [calm_intros]:
  "(b \<Longrightarrow> calm m) \<Longrightarrow> (\<not> b \<Longrightarrow> calm k) \<Longrightarrow> calm (if b then m else k)"
  "calm n \<Longrightarrow> (\<And>y. calm (g y)) \<Longrightarrow> calm (case o1 of None \<Rightarrow> n | Some y \<Rightarrow> g y)"
  "(\<And>e. calm (g1 e)) \<Longrightarrow> (\<And>y. calm (f1 y)) \<Longrightarrow> calm (case r of Inl e \<Rightarrow> g1 e | Inr y \<Rightarrow> f1 y)"
  "(\<And>a b. calm (f2 a b)) \<Longrightarrow> calm (case p of (a, b) \<Rightarrow> f2 a b)"
  by (simp_all split: option.split sum.split prod.split)

lemma calm_job [calm_intros]: "calm (j_update h u)" "calm (j_update_at h v)" "calm (j_update_job h x)" "calm (j_phase h p m)" "calm (j_stopRequested h)" "calm j_plan"
  unfolding j_phase_def j_update_def j_update_at_def j_update_job_def j_stopRequested_def j_plan_def by (intro calm_intros)+

lemma calm_wait_loop: "calm (wait_loop n e k startErr since t w)"
proof (induction n arbitrary: w)
  case 0
  show ?case by (simp add: calm_intros)
next
  case (Suc n)
  have "calm (observe_clone e k startErr since w)" "calm (stop_clone e k w')" for w w'
    unfolding observe_clone_def clone_done_def watch_space_def stop_clone_def Let_def by (intro calm_intros)+
  with Suc show ?case unfolding wait_loop.simps Let_def by (intro calm_intros)
qed

lemma calm_waitClone [calm_intros]: "calm (waitClone e k startErr)"
  unfolding waitClone_def Let_def by (intro calm_intros calm_wait_loop)

section \<open>What \<open>waitClone\<close> reports\<close>

text \<open>The host's own errors are not the job's \<open>errStopped\<close>, which no package outside can return.\<close>

definition foreign_errors :: "'w host \<Rightarrow> bool" where
  "foreign_errors h = ((\<forall>k w c w'. h_CloneStatus h k w = (Inl c, w') \<longrightarrow> \<not> is_stopped c) \<and> (\<forall>d w c w'. h_pause h d w = (Inl c, w') \<longrightarrow> \<not> is_stopped c))"

definition reported :: "exit \<Rightarrow> bool" where
  "reported x = (\<not> fst x \<longrightarrow> (\<exists>c. snd x = Some c \<and> \<not> is_stopped c))"

lemma gives_attempt_call:
  assumes "\<And>w c w'. f w = (Inl c, w') \<Longrightarrow> P c"
  shows "gives (\<lambda>r. \<forall>c. r = Inl c \<longrightarrow> P c) (attempt (call_host f n))"
  unfolding gives_def attempt_def call_host_def by (auto split: prod.splits sum.splits exn.splits intro: assms)

lemma foreign_gives:
  assumes "foreign_errors h"
  shows "gives (\<lambda>r. \<forall>c. r = Inl c \<longrightarrow> \<not> is_stopped c) (attempt (x_CloneStatus h k))"
    and "gives (\<lambda>r. \<forall>c. r = Inl c \<longrightarrow> \<not> is_stopped c) (attempt (pause h d))"
proof -
  show "gives (\<lambda>r. \<forall>c. r = Inl c \<longrightarrow> \<not> is_stopped c) (attempt (x_CloneStatus h k))"
    unfolding x_CloneStatus_def by (rule gives_attempt_call) (use assms in \<open>auto simp: foreign_errors_def\<close>)
  show "gives (\<lambda>r. \<forall>c. r = Inl c \<longrightarrow> \<not> is_stopped c) (attempt (pause h d))"
    using assms unfolding gives_def attempt_def pause_def foreign_errors_def
    by (auto split: prod.splits sum.splits exn.splits)
qed

lemma gives_clone_done: "gives fst (clone_done e status w)"
  unfolding clone_done_def Let_def by (intro gives_intros) simp_all

lemma observe_reported:
  assumes "foreign_errors (eg_Host e)"
  shows "gives (\<lambda>r. \<forall>x. r = Inl x \<longrightarrow> reported x) (observe_clone e k startErr since w)"
proof -
  have ends: "gives (\<lambda>r. \<forall>x. r = Inl x \<longrightarrow> reported x) (bind (clone_done e status w1) (\<lambda>x. ret (Inl x :: exit + Wait)))" for status w1
    by (rule gives_bind [OF gives_clone_done]) (rule gives_ret, simp add: reported_def)
  show ?thesis
    unfolding observe_clone_def Let_def
    apply (rule gives_bind [OF foreign_gives(1) [OF assms]], rule gives_sum)
     apply (rule gives_bind_any, rule gives_if, rule gives_ret, simp add: reported_def, rule gives_seq, rule gives_ret, simp)
    apply (rule gives_bind_any, rule gives_seq, rule gives_if, rule ends)
    apply (rule gives_bind_any, rule gives_if, rule gives_ret, simp add: reported_def, rule gives_bind_any, rule gives_ret, simp)
    done
qed

lemma stop_clone_errors: "gives (\<lambda>r. \<forall>c. r = Inl c \<longrightarrow> \<not> is_stopped c) (stop_clone e k w)"
  unfolding stop_clone_def Let_def by (intro gives_intros) (simp_all split: option.split)

lemma wait_loop_reported:
  assumes "foreign_errors (eg_Host e)"
  shows "gives reported (wait_loop n e k startErr since deadline w)"
proof (induction n arbitrary: w)
  case 0
  show ?case by (simp add: gives_intros)
next
  case (Suc n)
  have pause: "gives reported (bind (attempt (pause (eg_Host e) d)) (\<lambda>p. case p of Inl c \<Rightarrow> ret (False, Some c) | Inr _ \<Rightarrow> wait_loop n e k startErr since deadline w2))" for d w2
    by (rule gives_bind [OF foreign_gives(2) [OF assms]]) (auto simp: reported_def split: sum.split intro!: gives_ret Suc)
  have stop: "gives reported (bind (stop_clone e k w1) (\<lambda>ended. case ended of Inl c \<Rightarrow> ret (False, Some c)
      | Inr w2 \<Rightarrow> bind (attempt (pause (eg_Host e) (op_PollInterval (eg_Options e)))) (\<lambda>p. case p of Inl c \<Rightarrow> ret (False, Some c)
          | Inr _ \<Rightarrow> wait_loop n e k startErr since deadline w2)))" for w1
    by (rule gives_bind [OF stop_clone_errors]) (auto simp: reported_def split: sum.split intro!: gives_ret pause)
  have look: "gives reported (bind (observe_clone e k startErr since w) (\<lambda>seen. case seen of Inl x \<Rightarrow> ret x
      | Inr w1 \<Rightarrow> bind (stop_clone e k w1) (\<lambda>ended. case ended of Inl c \<Rightarrow> ret (False, Some c)
          | Inr w2 \<Rightarrow> bind (attempt (pause (eg_Host e) (op_PollInterval (eg_Options e)))) (\<lambda>p. case p of Inl c \<Rightarrow> ret (False, Some c)
              | Inr _ \<Rightarrow> wait_loop n e k startErr since deadline w2))))"
    by (rule gives_bind [OF observe_reported [OF assms]]) (auto split: sum.split intro!: gives_ret stop)
  show ?case unfolding wait_loop.simps Let_def by (intro gives_bind_any gives_if look gives_ret) (simp add: reported_def)
qed

lemma waitClone_reported:
  assumes "foreign_errors (eg_Host e)"
  shows "gives reported (waitClone e k startErr)"
  unfolding waitClone_def Let_def
  by (rule gives_bind_any, rule gives_bind_any, rule gives_bind_any, rule gives_bind_any, rule gives_bind [OF wait_loop_reported [OF assms]])
    (intro gives_seq gives_ret)

section \<open>An end that was seen\<close>

lemma hoare_gives: "keeps I m \<Longrightarrow> gives R m \<Longrightarrow> hoare I m (\<lambda>x s. I s \<and> R x) (\<lambda>_. I)"
  unfolding keeps_def hoare_alt gives_def by blast

lemma status_seen:
  "hoare (waiting q {k}) (attempt (x_CloneStatus h k)) (\<lambda>r s. waiting q {k} s \<and> (\<forall>status. r = Inr status \<longrightarrow> cl_Done status \<longrightarrow> waiting q {} s)) (\<lambda>_. waiting q {k})"
  unfolding x_CloneStatus_def
proof (rule hoare_attempt, rule hoare_call)
  fix s :: "'a st" and r :: "CloneStatus result" and w
  assume i: "waiting q {k} s"
  have "pending (s_trace s) = Some k \<or> pending (s_trace s) = None" using i by (cases "pending (s_trace s)") (simp_all add: waiting_def)
  with i show "case r of Inl e \<Rightarrow> (case Err e of Err x \<Rightarrow> waiting q {k} (after s w [GotCloneStatus k r]) \<and>
        (\<forall>status. Inl x = Inr status \<longrightarrow> cl_Done status \<longrightarrow> waiting q {} (after s w [GotCloneStatus k r]))
      | OutOfFuel \<Rightarrow> waiting q {k} (after s w [GotCloneStatus k r]))
    | Inr x \<Rightarrow> waiting q {k} (after s w [GotCloneStatus k r]) \<and>
        (\<forall>status. Inr x = Inr status \<longrightarrow> cl_Done status \<longrightarrow> waiting q {} (after s w [GotCloneStatus k r]))"
    by (cases r) (auto simp: waiting_def allowed_def clone_alone_def left_alone_def)
qed

definition exit_seen :: "plan_id \<Rightarrow> int \<Rightarrow> bool \<Rightarrow> 'w st \<Rightarrow> bool" where
  "exit_seen q k seen s = (waiting q {k} s \<and> (seen \<longrightarrow> waiting q {} s))"

lemma exit_seen_weaken: "waiting q {} s \<Longrightarrow> exit_seen q k x s" "waiting q {k} s \<Longrightarrow> exit_seen q k False s" "exit_seen q k x s \<Longrightarrow> waiting q {k} s"
  by (auto simp: exit_seen_def elim: waiting_more)

lemma unseen: "keeps (waiting q {k}) m \<Longrightarrow> gives (\<lambda>r. \<not> f r) m \<Longrightarrow> hoare (waiting q {k}) m (\<lambda>r. exit_seen q k (f r)) (\<lambda>_. waiting q {k})"
  by (rule hoare_conseq [OF hoare_gives]) (auto simp: exit_seen_def)

lemma seen: "keeps (waiting q {}) m \<Longrightarrow> hoare (waiting q {}) m (\<lambda>r. exit_seen q k (f r)) (\<lambda>_. waiting q {k})"
  by (erule hoare_conseq [OF keeps_hoare]) (auto simp: exit_seen_weaken elim: waiting_more)

lemma calls_still: "ends_clones still"
  by (simp add: kinds still_def)

lemma observe_seen: "hoare (waiting q {k}) (observe_clone e k startErr since w) (\<lambda>r. exit_seen q k (case r of Inl x \<Rightarrow> fst x | Inr _ \<Rightarrow> False)) (\<lambda>_. waiting q {k})"
proof -
  let ?Q = "\<lambda>r. exit_seen q k (case r of Inl x \<Rightarrow> fst x | Inr _ \<Rightarrow> False)"
  have look: "hoare (\<lambda>s. waiting q {k} s \<and> (\<forall>status. look = Inr status \<longrightarrow> cl_Done status \<longrightarrow> waiting q {} s))
      (case look of Inl c \<Rightarrow> m c | Inr status \<Rightarrow> bind (now h) (\<lambda>t. seq (j_update_job h (show_clone k status)) (if cl_Done status then d status t else n status t)))
      ?Q (\<lambda>_. waiting q {k})"
    if m: "\<And>c. hoare (waiting q {k}) (m c) ?Q (\<lambda>_. waiting q {k})"
      and d: "\<And>status t. keeps (waiting q {}) (d status t)"
      and n: "\<And>status t. hoare (waiting q {k}) (n status t) ?Q (\<lambda>_. waiting q {k})"
    for look m d n and h :: "'a host"
  proof (cases look)
    case (Inl c)
    with m [of c] show ?thesis by simp
  next
    case (Inr status)
    show ?thesis
    proof (cases "cl_Done status")
      case True
      have "keeps (waiting q {}) (bind (now h) (\<lambda>t. seq (j_update_job h (show_clone k status)) (d status t)))"
        by (intro keeps_intros d)
      with Inr True show ?thesis by simp (rule hoare_pre [OF seen], simp_all)
    next
      case False
      have "hoare (waiting q {k}) (bind (now h) (\<lambda>t. seq (j_update_job h (show_clone k status)) (n status t))) ?Q (\<lambda>_. waiting q {k})"
        by (intro hoare_keeps_bind hoare_keeps_seq n keeps_intros)
      from hoare_pre [OF this] Inr False show ?thesis by simp
    qed
  qed
  show ?thesis
    unfolding observe_clone_def Let_def
    apply (rule hoare_bind [OF status_seen], rule look)
      apply (rule unseen, intro keeps_intros, intro gives_intros, simp, simp)
     apply (unfold clone_done_def Let_def, intro keeps_intros)
    apply (rule unseen, unfold watch_space_def Let_def, intro keeps_intros, intro gives_intros, simp, simp)
    done
qed

lemma wait_loop_seen: "hoare (waiting q {k}) (wait_loop n e k startErr since t w) (\<lambda>x. exit_seen q k (fst x)) (\<lambda>_. waiting q {k})"
proof (induction n arbitrary: w)
  case 0
  show ?case by (simp add: hoare_throw)
next
  case (Suc n)
  have rest: "hoare (waiting q {k}) (bind (stop_clone e k w1) (\<lambda>ended. case ended of Inl c \<Rightarrow> ret (False, Some c)
      | Inr w2 \<Rightarrow> bind (attempt (pause (eg_Host e) (op_PollInterval (eg_Options e)))) (\<lambda>p. case p of Inl c \<Rightarrow> ret (False, Some c)
          | Inr _ \<Rightarrow> wait_loop n e k startErr since t w2))) (\<lambda>x. exit_seen q k (fst x)) (\<lambda>_. waiting q {k})" for w1
    by (intro hoare_keeps_bind hoare_sum hoare_ret Suc keeps_intros waits.keeps_stop_clone calls_still) (simp_all add: exit_seen_weaken)
  show ?case
    unfolding wait_loop.simps Let_def
    apply (rule hoare_keeps_bind, intro keeps_intros, rule hoare_if)
     apply (rule hoare_ret, simp add: exit_seen_weaken)
    apply (rule hoare_bind [OF observe_seen], rule hoare_sum)
     apply (rule hoare_ret, simp)
    apply (rule hoare_pre [OF rest], simp add: exit_seen_weaken)
    done
qed

lemma exit_seen_eq: "exit_seen q k True = waiting q {}" "exit_seen q k False = waiting q {k}"
  by (auto simp: exit_seen_def fun_eq_iff elim: waiting_more)

lemma keeps_exit_seen: "(\<And>K. keeps (waiting q K) m) \<Longrightarrow> keeps (exit_seen q k b) m"
  by (cases b) (simp_all add: exit_seen_eq)

lemma waitClone_seen: "hoare (waiting q {k}) (waitClone e k startErr) (\<lambda>x. exit_seen q k (fst x)) (\<lambda>_. waiting q {k})"
proof -
  have tell: "hoare (exit_seen q k (fst x)) (seq (if snd x \<noteq> None \<and> \<not> fst x then j_phase h p m else ret ()) (ret x))
      (\<lambda>x. exit_seen q k (fst x)) (\<lambda>_. waiting q {k})" for x :: exit and h :: "'a host" and p m
  proof (rule hoare_seq [where R = "exit_seen q k (fst x)"])
    have "keeps (exit_seen q k (fst x)) (if snd x \<noteq> None \<and> \<not> fst x then j_phase h p m else ret ())"
      by (rule keeps_exit_seen) (intro keeps_intros)
    then show "hoare (exit_seen q k (fst x)) (if snd x \<noteq> None \<and> \<not> fst x then j_phase h p m else ret ()) (\<lambda>_. exit_seen q k (fst x)) (\<lambda>_. waiting q {k})"
      by (rule hoare_within) (rule exit_seen_weaken)
  qed (rule hoare_ret)
  show ?thesis
    unfolding waitClone_def Let_def
    by (rule hoare_keeps_bind, intro keeps_intros, rule hoare_keeps_bind, intro keeps_intros, rule hoare_keeps_bind, intro keeps_intros,
        rule hoare_keeps_bind, intro keeps_intros, rule hoare_bind [OF wait_loop_seen tell])
qed

lemma start_pending:
  "hoare (waiting q {}) (attempt (x_StartClone h i k vm a b off)) (\<lambda>_. waiting q {k}) (\<lambda>_. waiting q {k})"
  unfolding x_StartClone_def
  by (rule hoare_attempt, rule hoare_call) (auto simp: waiting_def allowed_def clone_alone_def split: sum.split)

end
