(* ===== verification/Sample_Host.thy ===== *)
theory Sample_Host
  imports Live
begin

text \<open>
  A small ESXi host to run the engine on: files with sizes, a list of registered VMs, their power, a clock that
  moves with every look and every pause, and clones that finish at once. It has one VM with one thin disk, switched off.
  The witnesses of theorems about all hosts use it.
\<close>

record sim =
  sm_clock :: int
  sm_files :: "(string \<times> string) list"
  sm_sizes :: "(string \<times> int) list"
  sm_vms :: "(int \<times> string) list"
  sm_on :: "int list"
  sm_lock :: string

definition source_place :: string where "source_place = ''/vmfs/volumes/u1/web''"
definition target_place :: string where "target_place = ''/vmfs/volumes/u2/web''"

definition disk_text :: string where
  "disk_text = (''# Disk DescriptorFile'' @ [nl] @ ''version=1'' @ [nl] @ ''CID=fffffffe'' @ [nl] @ ''parentCID=ffffffff'' @ [nl] @ ''createType='' @ [dq] @ ''vmfs'' @ [dq, nl] @ ''RW 2048 VMFS '' @ [dq] @ ''web-flat.vmdk'' @ [dq, nl] @ ''ddb.thinProvisioned = '' @ [dq] @ ''1'' @ [dq])"

definition vmx_text :: string where
  "vmx_text = (''displayName = '' @ [dq] @ ''web'' @ [dq, nl] @ ''scsi0.present = '' @ [dq] @ ''TRUE'' @ [dq, nl] @ ''scsi0:0.present = '' @ [dq] @ ''TRUE'' @ [dq, nl] @ ''scsi0:0.fileName = '' @ [dq] @ ''web.vmdk'' @ [dq, nl])"

definition sim_start :: sim where
  "sim_start = \<lparr>sm_clock = 0, sm_files = [(source_place @ ''/web.vmx'', vmx_text), (source_place @ ''/web.vmdk'', disk_text)],
     sm_sizes = [(source_place @ ''/web-flat.vmdk'', 1048576)], sm_vms = [(7, ''[ds1] web/web.vmx'')], sm_on = [], sm_lock = []\<rparr>"

definition sim_datastores :: "Datastore list" where
  "sim_datastores = [\<lparr>ds_Name = ''ds1'', ds_UUID = ''u1'', ds_Mount = ''/vmfs/volumes/u1'', ds_Type = ''VMFS-6'', ds_Mounted = True, ds_Size = 2 ^ 40, ds_Free = 2 ^ 39\<rparr>,
     \<lparr>ds_Name = ''ds2'', ds_UUID = ''u2'', ds_Mount = ''/vmfs/volumes/u2'', ds_Type = ''VMFS-6'', ds_Mounted = True, ds_Size = 2 ^ 40, ds_Free = 2 ^ 39\<rparr>]"

definition sim_list :: "sim \<Rightarrow> VM list" where
  "sim_list w = map (\<lambda>(i, p). \<lparr>vm_ID = i, vm_Name = ''web'', vm_Datastore = ''ds1'', vm_VMXPath = p, vm_Power = []\<rparr>) (sm_vms w)"

definition none_such :: err where "none_such = Errorf ''no such file''"

text \<open>An operation that looks, and one that acts; both take a moment.\<close>

definition look :: "(sim \<Rightarrow> 'a result) \<Rightarrow> (sim, 'a) act" where
  "look f w = (f w, w\<lparr>sm_clock := sm_clock w + 1\<rparr>)"

definition do_it :: "(sim \<Rightarrow> sim) \<Rightarrow> (sim, unit) act" where
  "do_it f w = (Inr (), (f w)\<lparr>sm_clock := sm_clock w + 1\<rparr>)"

definition sim_register :: "string \<Rightarrow> (sim, int) act" where
  "sim_register p w = (let i = Max (insert 0 (set (map fst (sm_vms w)))) + 1; d = (if has_prefix p ''/vmfs/volumes/u1/'' then ''[ds1] '' else ''[ds2] '') in
     (Inr i, w\<lparr>sm_vms := sm_vms w @ [(i, d @ drop 17 p)], sm_clock := sm_clock w + 1\<rparr>))"

definition sim_clone :: "string \<Rightarrow> string \<Rightarrow> sim \<Rightarrow> sim" where
  "sim_clone a b w = w\<lparr>sm_files := put (sm_files w) b (lookup0 (sm_files w) a),
     sm_sizes := put (sm_sizes w) (trim_suffix b ''.vmdk'' @ ''-flat.vmdk'') (case map_of (sm_sizes w) (trim_suffix a ''.vmdk'' @ ''-flat.vmdk'') of Some n \<Rightarrow> n | None \<Rightarrow> 0)\<rparr>"

definition sim_host :: "sim host" where
  "sim_host = \<lparr>
     h_Inventory = look (\<lambda>w. Inr \<lparr>inv_Capabilities = \<lparr>cap_Version = ''8.0.2'', cap_Supported = True, cap_Commands = []\<rparr>, inv_VMs = sim_list w,
       inv_Datastores = sim_datastores, inv_ExistingOperation = sm_lock w\<rparr>),
     h_VMs = look (\<lambda>w. Inr (sim_list w)),
     h_Datastores = look (\<lambda>w. Inr sim_datastores),
     h_ReadFile = (\<lambda>p. look (\<lambda>w. case map_of (sm_files w) p of Some t \<Rightarrow> Inr t | None \<Rightarrow> Inl none_such)),
     h_Exists = (\<lambda>p. look (\<lambda>w. Inr (has_key (sm_files w) p \<or> has_key (sm_sizes w) p \<or> (\<exists>q \<in> set (keys (sm_files w)). path_dir q = p)))),
     h_Canonical = (\<lambda>p. look (\<lambda>w. Inr p)),
     h_List = (\<lambda>p. look (\<lambda>w. Inr (filter (\<lambda>q. path_dir q = p) (keys (sm_files w) @ keys (sm_sizes w))))),
     h_Size = (\<lambda>p. look (\<lambda>w. case map_of (sm_sizes w) p of Some n \<Rightarrow> Inr n | None \<Rightarrow> Inl none_such)),
     h_Allocated = (\<lambda>p. look (\<lambda>w. case map_of (sm_sizes w) p of Some n \<Rightarrow> Inr (n div 2) | None \<Rightarrow> Inl none_such)),
     h_Power = (\<lambda>i. look (\<lambda>w. Inr (if i \<in> set (sm_on w) then On else Off))),
     h_Snapshot = (\<lambda>i. look (\<lambda>w. Inr (''Get Snapshot:'' @ [nl]))),
     h_ToolsRunning = (\<lambda>i. look (\<lambda>w. Inr True)),
     h_Autostart = look (\<lambda>w. Inr []),
     h_Shutdown = (\<lambda>i. do_it (\<lambda>w. w\<lparr>sm_on := removeAll i (sm_on w)\<rparr>)),
     h_ForceOff = (\<lambda>i. do_it (\<lambda>w. w\<lparr>sm_on := removeAll i (sm_on w)\<rparr>)),
     h_VerifyChain = (\<lambda>p. look (\<lambda>w. if has_key (sm_files w) p then Inr () else Inl none_such)),
     h_Acquire = (\<lambda>i t. do_it (\<lambda>w. w\<lparr>sm_lock := i\<rparr>)),
     h_Finish = (\<lambda>i. do_it (\<lambda>w. w\<lparr>sm_lock := []\<rparr>)),
     h_CreateTarget = (\<lambda>d. do_it (\<lambda>w. w)),
     h_WriteTarget = (\<lambda>d n t. do_it (\<lambda>w. w\<lparr>sm_files := put (sm_files w) (path_join [d, n]) t\<rparr>)),
     h_StartClone = (\<lambda>i k vm a b off. do_it (sim_clone a b)),
     h_CloneStatus = (\<lambda>k. look (\<lambda>w. Inr \<lparr>cl_Done = True, cl_Alive = False, cl_ExitCode = 0, cl_Progress = 100, cl_Log = ''Clone: 100% done.''\<rparr>)),
     h_StopClone = (\<lambda>k. do_it (\<lambda>w. w)),
     h_Unregister = (\<lambda>i. do_it (\<lambda>w. w\<lparr>sm_vms := filter (\<lambda>(j, p). j \<noteq> i) (sm_vms w)\<rparr>)),
     h_Register = sim_register,
     h_PowerOn = (\<lambda>i. do_it (\<lambda>w. w\<lparr>sm_on := i # sm_on w\<rparr>)),
     h_Message = (\<lambda>i. look (\<lambda>w. Inr ''No message.'')),
     h_Answer = (\<lambda>i m a. do_it (\<lambda>w. w)),
     h_CreateSnapshot = (\<lambda>i n. do_it (\<lambda>w. w)),
     h_ConsolidateOwnSnapshot = (\<lambda>i n. do_it (\<lambda>w. w)),
     h_CopyToTarget = (\<lambda>f d. do_it (\<lambda>w. w)),
     h_now = (\<lambda>w. (sm_clock w + 1, w\<lparr>sm_clock := sm_clock w + 1\<rparr>)),
     h_pause = (\<lambda>d w. (Inr (), w\<lparr>sm_clock := sm_clock w + max 0 d\<rparr>)),
     h_operator = (\<lambda>w. ([], w)),
     h_wake = (\<lambda>w. (Requests [Ask ''stop'' True], w))\<rparr>"

definition sim_engine :: "sim engine" where
  "sim_engine = \<lparr>eg_Host = sim_host, eg_Options = DefaultOptions, eg_xml = (\<lambda>_. ([], False)), eg_fuel = Suc 201600\<rparr>"

definition sim_request :: "string \<Rightarrow> Request" where
  "sim_request mode = \<lparr>rq_VMID = 7, rq_TargetUUID = ''u2'', rq_Mode = mode, rq_PowerOn = (mode = ''MOVE''), rq_TargetName = [], rq_Live = False, rq_BringDisks = False\<rparr>"

lemma sim_clone_status: "h_CloneStatus sim_host k w = (Inl c, w') \<Longrightarrow> False"
  by (simp add: sim_host_def look_def)

lemma sim_pause: "h_pause sim_host d w = (Inl c, w') \<Longrightarrow> False"
  by (simp add: sim_host_def)

end
