(* ===== verification/Clone_Untouched.thy ===== *)
theory Clone_Untouched
  imports Clone_Safety Sample_Host
begin

text \<open>
  The runs of the engine around a clone whose end was not seen: what \<open>waitClone\<close> reports decides whether anything
  but reads, and the request that the clone stop, can follow.
\<close>

section \<open>Leaving with a clone behind\<close>

definition leaves :: "plan_id \<Rightarrow> exn \<Rightarrow> 'w st \<Rightarrow> bool" where
  "leaves q e s = (waiting q UNIV s \<and> (waiting q {} s \<or> e = OutOfFuel \<or> (\<exists>c. e = Err c \<and> \<not> is_stopped c)))"

lemma idle_leaves: "waiting q {} s \<Longrightarrow> leaves q e s"
  by (auto simp: leaves_def elim: waiting_more)

lemma leaves_keeps: "keeps (waiting q {}) m \<Longrightarrow> hoare (waiting q {}) m (\<lambda>_. waiting q {}) (leaves q)"
  by (erule hoare_conseq [OF keeps_hoare]) (simp_all add: idle_leaves)

lemma leaves_bind: "keeps (waiting q {}) m \<Longrightarrow> (\<And>x. hoare (waiting q {}) (f x) Q (leaves q)) \<Longrightarrow> hoare (waiting q {}) (bind m f) Q (leaves q)"
  by (rule hoare_bind [OF leaves_keeps])

lemma leaves_seq: "keeps (waiting q {}) m \<Longrightarrow> hoare (waiting q {}) k Q (leaves q) \<Longrightarrow> hoare (waiting q {}) (seq m k) Q (leaves q)"
  unfolding seq_def by (rule leaves_bind)

lemma leaves_gives:
  "gives R m \<Longrightarrow> keeps (waiting q {}) m \<Longrightarrow> (\<And>x. R x \<Longrightarrow> hoare (waiting q {}) (f x) Q (leaves q)) \<Longrightarrow> hoare (waiting q {}) (bind m f) Q (leaves q)"
proof (rule hoare_bind [where R = "\<lambda>x s. R x \<and> waiting q {} s"])
  assume "gives R m" and "keeps (waiting q {}) m"
  then have "hoare (waiting q {}) m (\<lambda>x s. waiting q {} s \<and> R x) (\<lambda>_. waiting q {})" by (intro hoare_gives)
  then show "hoare (waiting q {}) m (\<lambda>x s. R x \<and> waiting q {} s) (leaves q)"
    by (rule hoare_conseq) (simp_all add: idle_leaves)
qed (rule hoare_pure)

lemma hoare_foldM: "(\<And>x a. x \<in> set xs \<Longrightarrow> hoare P (f x a) (\<lambda>_. P) E) \<Longrightarrow> hoare P (foldM f xs a) (\<lambda>_. P) E"
  by (induction xs arbitrary: a) (auto intro!: hoare_ret hoare_bind)

lemma hoare_calm: "hoare P m Q E \<Longrightarrow> gives R m \<Longrightarrow> calm m \<Longrightarrow> hoare P m (\<lambda>x s. Q x s \<and> R x) (\<lambda>e s. E e s \<and> e = OutOfFuel)"
  unfolding hoare_alt gives_def by (blast dest: calmD)

lemma waitClone_leaves:
  assumes "foreign_errors (eg_Host e)"
  shows "hoare (waiting q {k}) (waitClone e k startErr) (\<lambda>x s. exit_seen q k (fst x) s \<and> reported x) (leaves q)"
  by (rule hoare_conseq [OF hoare_calm [OF waitClone_seen waitClone_reported [OF assms] calm_waitClone]])
    (auto simp: leaves_def elim: waiting_more)

lemma waited_leaves: "hoare (\<lambda>s. exit_seen q k (fst x) s \<and> reported x) (waited x) (\<lambda>_. waiting q {}) (leaves q)"
  unfolding waited_def
  by (rule hoare_lift_opt) (auto simp: leaves_def exit_seen_def reported_def elim: waiting_more)

section \<open>A cold run\<close>

lemma idle_kinds: "stops_source no_start" "forces no_start" "unregisters no_start" "registers no_start" "powers no_start" "answers no_start"
  "writes no_start" "creates no_start" "locks no_start" "snapshots no_start" "ends_clones no_start"
  by (simp_all add: kinds no_start_def)

lemma calm_leaves: "hoare P m Q (\<lambda>_. waiting q {k}) \<Longrightarrow> calm m \<Longrightarrow> hoare P m Q (leaves q)"
proof -
  assume "hoare P m Q (\<lambda>_. waiting q {k})" and "calm m"
  from hoare_calm [OF this(1) gives_True this(2)] show ?thesis
    by (rule hoare_conseq) (auto simp: leaves_def elim: waiting_more)
qed

lemma clone_then:
  assumes "foreign_errors (eg_Host e)" and "\<And>x. hoare (waiting q {}) (f x) Q (leaves q)"
  shows "hoare (waiting q {}) (bind (attempt (x_StartClone h i k vm a b off)) (\<lambda>start. seq (if is_ok start then ret () else j_phase h p m)
      (bind (waitClone e k (error_of start)) (\<lambda>x. seq (waited x) (f x))))) Q (leaves q)"
proof (rule hoare_bind [OF calm_leaves [OF start_pending]])
  fix start :: "unit result"
  have "keeps (waiting q {k}) (if is_ok start then ret () else j_phase h p m)"
    by (intro keeps_intros)
  then have tell: "hoare (waiting q {k}) (if is_ok start then ret () else j_phase h p m) (\<lambda>_. waiting q {k}) (leaves q)"
    by (rule calm_leaves [OF keeps_hoare]) (intro calm_intros)
  have "hoare (waiting q {k}) (bind (waitClone e k (error_of start)) (\<lambda>x. seq (waited x) (f x))) Q (leaves q)"
    by (rule hoare_bind [OF waitClone_leaves [OF assms(1)] hoare_seq [OF waited_leaves assms(2)]])
  with tell show "hoare (waiting q {k}) (seq (if is_ok start then ret () else j_phase h p m)
      (bind (waitClone e k (error_of start)) (\<lambda>x. seq (waited x) (f x)))) Q (leaves q)"
    by (rule hoare_seq)
qed (rule calm_attempt)

lemma leaves_clone_disk:
  assumes "foreign_errors (eg_Host e)"
  shows "hoare (waiting q {}) (clone_disk e r x used) (\<lambda>_. waiting q {}) (leaves q)"
proof -
  have rest: "hoare (waiting q {}) (seq (requireOff e vm) (seq (j_phase h p m) (seq (wrap_error t (verifyDisk h d)) (ret n)))) (\<lambda>_. waiting q {}) (leaves q)"
    for vm h p m t d and n :: int
    by (rule leaves_keeps) (intro keeps_intros)
  show ?thesis
    unfolding clone_disk_def Let_def
    by (rule leaves_bind, intro keeps_intros, rule leaves_seq, intro keeps_intros, rule leaves_bind, intro keeps_intros,
      rule leaves_seq, intro keeps_intros, rule leaves_seq, intro keeps_intros, rule clone_then [OF assms rest])
qed

lemma idle_finish_cold: "keeps (waiting q {}) (finish_cold e r used)"
  by (intro idle.keeps_finish_cold idle.keeps_finish_rest idle.keeps_switch_registration idle.keeps_commit idle_kinds)

lemma leaves_clone_cold:
  assumes "foreign_errors (eg_Host e)" and "plan_key plan = q"
  shows "hoare (waiting q {}) (clone_cold e plan) (\<lambda>_. waiting q {}) (leaves q)"
proof -
  have guard: "gives (guarded q) (guard_cold e plan False 0)"
    using guard_cold_guarded [of plan e False 0] assms(2) by simp
  have clones: "hoare (waiting q {}) (bind (foldM (clone_disk e r) xs n) (finish_cold e r)) (\<lambda>_. waiting q {}) (leaves q)" for r xs n
    by (rule hoare_bind [OF hoare_foldM leaves_keeps [OF idle_finish_cold]]) (rule leaves_clone_disk [OF assms(1)])
  show ?thesis
    unfolding clone_cold_def Let_def
    apply (rule leaves_gives [OF guard], intro keeps_intros)
    apply (rule leaves_seq, rule idle.keeps_set_plan, simp add: guarded_def)
    apply (rule leaves_seq [OF _ clones], rule idle.keeps_host_calls, rule idle_kinds)
    done
qed

lemma leaves_plan:
  assumes "\<And>r. plan_key r = q \<Longrightarrow> hoare (waiting q {}) (f r) Q (leaves q)"
  shows "hoare (waiting q {}) (bind j_plan f) Q (leaves q)"
proof (rule hoare_bind [where R = "\<lambda>r s. plan_key r = q \<and> waiting q {} s"])
  show "hoare (waiting q {}) j_plan (\<lambda>r s. plan_key r = q \<and> waiting q {} s) (leaves q)"
    by (rule hoare_plan) (simp add: idle.planned)
qed (rule hoare_pure [OF assms])

lemma leaves_run_cold:
  assumes "foreign_errors (eg_Host e)"
  shows "hoare (waiting q {}) (run_cold e) (\<lambda>_. waiting q {}) (leaves q)"
proof -
  note idles = idle.keeps_shutdown idle.keeps_host_calls idle_kinds
  show ?thesis
    unfolding run_cold_def Let_def recheck_def [symmetric]
    apply (rule leaves_plan)
    apply (rule leaves_seq, intro keeps_intros)+
    apply (rule leaves_bind, intro keeps_intros)
    apply (rule leaves_seq, intro keeps_intros)
    apply (rule leaves_seq, rule keeps_wrap_error, rule idle.keeps_host_calls, rule idle_kinds)
    apply (rule leaves_bind, intro keeps_intros)
    apply (rule leaves_seq, intro keeps_intros)
    apply (rule leaves_seq, rule idle.keeps_shutdown, rule idle_kinds, rule idle_kinds, intro keeps_intros)
    apply (rule leaves_clone_cold [OF assms])
    apply assumption
    done
qed

lemma untouched_Run_cold:
  assumes "foreign_errors (eg_Host e)"
  shows "hoare (waiting q {}) (Run_cold e) (\<lambda>_. waiting q UNIV) (\<lambda>_. waiting q UNIV)"
  unfolding Run_cold_def
proof (rule hoare_bind)
  show "hoare (waiting q {}) (attempt (run_cold e)) (\<lambda>r s. case r of Inr _ \<Rightarrow> waiting q {} s | Inl c \<Rightarrow> leaves q (Err c) s) (\<lambda>_. waiting q UNIV)"
    by (rule hoare_attempt, rule hoare_conseq [OF leaves_run_cold [OF assms]])
      (auto simp: leaves_def split: exn.split elim: waiting_more)
  have stop: "hoare (waiting q {}) (stopped e) (\<lambda>_. waiting q UNIV) (\<lambda>_. waiting q UNIV)"
    unfolding stopped_def Let_def
    by (rule hoare_conseq [OF keeps_hoare]) (rule idle.keeps_host_calls idle_kinds keeps_intros | assumption | (erule waiting_more, simp))+
  have fail: "hoare (waiting q UNIV) (markFailed e c) (\<lambda>_. waiting q UNIV) (\<lambda>_. waiting q UNIV)" for c
    unfolding markFailed_def by (intro keeps_hoare keeps_intros)
  show "hoare (\<lambda>s. case r of Inr _ \<Rightarrow> waiting q {} s | Inl c \<Rightarrow> leaves q (Err c) s)
      (case r of Inr _ \<Rightarrow> ret () | Inl c \<Rightarrow> if is_stopped c then stopped e else markFailed e c) (\<lambda>_. waiting q UNIV) (\<lambda>_. waiting q UNIV)" for r
  proof (cases r)
    case (Inl c)
    then show ?thesis
      by (cases "is_stopped c") (auto simp: leaves_def intro: hoare_pre [OF stop] hoare_pre [OF fail])
  next
    case (Inr x)
    then show ?thesis by (auto intro!: hoare_ret elim: waiting_more)
  qed
qed

section \<open>A live run\<close>

text \<open>What a part of a live run leaves: its error, if any, and whether a clone may be running.\<close>

definition left_by :: "plan_id \<Rightarrow> err option \<Rightarrow> bool \<Rightarrow> 'w st \<Rightarrow> bool" where
  "left_by q er p s = (waiting q UNIV s \<and> (p \<longrightarrow> er \<noteq> None) \<and> (\<not> p \<longrightarrow> waiting q {} s))"

lemma waiting_any: "waiting q K s \<Longrightarrow> waiting q UNIV s"
  by (erule waiting_more) simp

lemma left_idle: "waiting q {} s \<Longrightarrow> left_by q er False s"
  by (auto simp: left_by_def elim: waiting_more)

lemma left_go: "hoare (waiting q {}) (f False) Q E \<Longrightarrow> hoare (left_by q None p) (f p) Q E"
  by (cases p) (simp_all add: left_by_def hoare_def)

lemma anyhow: "keeps (waiting q {}) m \<Longrightarrow> hoare (waiting q {}) m (\<lambda>_. waiting q {}) (\<lambda>_. waiting q UNIV)"
  by (erule hoare_within) (auto elim: waiting_more)

lemma anyhow_bind: "keeps (waiting q {}) m \<Longrightarrow> (\<And>x. hoare (waiting q {}) (f x) Q (\<lambda>_. waiting q UNIV)) \<Longrightarrow> hoare (waiting q {}) (bind m f) Q (\<lambda>_. waiting q UNIV)"
  by (rule hoare_bind [OF anyhow])

lemma anyhow_seq: "keeps (waiting q {}) m \<Longrightarrow> hoare (waiting q {}) k Q (\<lambda>_. waiting q UNIV) \<Longrightarrow> hoare (waiting q {}) (seq m k) Q (\<lambda>_. waiting q UNIV)"
  unfolding seq_def by (rule anyhow_bind)

lemma waited_live:
  assumes "hoare (waiting q {}) (f False) (\<lambda>(er, p). left_by q er p) (\<lambda>_. waiting q UNIV)"
  shows "hoare (\<lambda>s. exit_seen q k (fst x) s \<and> reported x)
     (case x of (exited, er) \<Rightarrow> (case er of Some c \<Rightarrow> ret (Some c, \<not> exited) | None \<Rightarrow> f (\<not> exited)))
     (\<lambda>(er, p). left_by q er p) (\<lambda>_. waiting q UNIV)"
proof (cases x)
  case (Pair exited er)
  show ?thesis
  proof (cases er)
    case None
    with Pair hoare_pre [OF assms, of "\<lambda>s. exit_seen q k True s \<and> reported x"] show ?thesis
      by (cases exited) (simp_all add: exit_seen_def reported_def hoare_def [where P = "\<lambda>s. False"])
  next
    case (Some c)
    with Pair show ?thesis
      by (auto simp: left_by_def exit_seen_def intro!: hoare_ret intro: waiting_any)
  qed
qed

lemma live_disk_left:
  assumes "foreign_errors (eg_Host e)"
  shows "hoare (waiting q {}) (clone_live_disk e r name deltas False x) (\<lambda>(er, p). left_by q er p) (\<lambda>_. waiting q UNIV)"
proof -
  let ?Q = "\<lambda>(er, p). left_by q er p" and ?E = "\<lambda>_. waiting q UNIV"
  have verify: "hoare (waiting q {}) (bind (attempt m) (\<lambda>verified. ret (error_of verified, False))) ?Q ?E"
    if "keeps (waiting q {}) m" for m :: "('a, unit) M"
    by (rule anyhow_bind, intro keeps_attempt that, rule hoare_ret) (simp add: left_idle)
  have clone: "hoare (waiting q {}) (bind (attempt (x_StartClone h i k vm a b off)) (\<lambda>start. seq (if is_ok start then ret () else j_phase h p m)
      (bind (waitClone e k (error_of start)) g))) ?Q ?E"
    if "\<And>x. hoare (\<lambda>s. exit_seen q k (fst x) s \<and> reported x) (g x) ?Q ?E" for h :: "'a host" and i k vm a b off p m g
  proof (rule hoare_bind)
    show "hoare (waiting q {}) (attempt (x_StartClone h i k vm a b off)) (\<lambda>_. waiting q {k}) ?E"
      by (rule hoare_conseq [OF start_pending]) (auto elim: waiting_more)
    fix start :: "unit result"
    have tell: "hoare (waiting q {k}) (if is_ok start then ret () else j_phase h p m) (\<lambda>_. waiting q {k}) ?E"
      by (rule hoare_within) (intro keeps_intros, auto elim: waiting_more)
    have "hoare (waiting q {k}) (waitClone e k (error_of start)) (\<lambda>x s. exit_seen q k (fst x) s \<and> reported x) ?E"
      by (rule hoare_conseq [OF waitClone_leaves [OF assms]]) (auto simp: leaves_def)
    from hoare_seq [OF tell hoare_bind [OF this that]]
    show "hoare (waiting q {k}) (seq (if is_ok start then ret () else j_phase h p m) (bind (waitClone e k (error_of start)) g)) ?Q ?E" .
  qed
  show ?thesis
    unfolding clone_live_disk_def Let_def
    apply (rule anyhow_bind, intro keeps_intros)
    apply (rule hoare_sum)
     apply (rule hoare_ret, simp add: left_idle)
    apply (rule clone)
    apply (rule waited_live)
    apply (rule verify, intro keeps_intros)
    done
qed

lemma live_disks_left:
  assumes "foreign_errors (eg_Host e)"
  shows "hoare (waiting q {}) (clone_live e r name deltas False xs) (\<lambda>(er, p). left_by q er p) (\<lambda>_. waiting q UNIV)"
proof (induction xs)
  case Nil
  show ?case by (simp add: hoare_ret left_idle)
next
  case (Cons x xs)
  have next_disk: "hoare (left_by q er p) (case er of Some c \<Rightarrow> ret (Some c, p) | None \<Rightarrow> clone_live e r name deltas p xs)
      (\<lambda>(er, p). left_by q er p) (\<lambda>_. waiting q UNIV)" for er p
  proof (cases er)
    case None
    have "hoare (left_by q None p) (clone_live e r name deltas p xs) (\<lambda>(er, p). left_by q er p) (\<lambda>_. waiting q UNIV)"
      by (rule left_go) (rule Cons)
    with None show ?thesis by simp
  next
    case (Some c)
    then show ?thesis by (auto simp: left_by_def intro!: hoare_ret)
  qed
  show ?case
    unfolding clone_live.simps
    by (rule hoare_bind [OF live_disk_left [OF assms]]) (auto simp: next_disk split: prod.split)
qed

lemma idle_live_close: "hoare (waiting q {}) (live_close e r fresh name deltas False) (\<lambda>(er, p, done). left_by q er p) (\<lambda>_. waiting q UNIV)"
proof -
  have k: "keeps (waiting q {}) (live_close e r fresh name deltas False)"
    by (rule idle.keeps_live_close, rule idle.keeps_cutover, rule idle.keeps_cutover_rest, rule idle_kinds, rule idle.keeps_shutdown)
      (intro idle_kinds keeps_intros idle.keeps_mergeCopy idle.keeps_commit idle.keeps_live_after)+
  have g: "gives (\<lambda>(er, p, done). \<not> p) (live_close e r fresh name deltas False)"
    unfolding live_close_def Let_def by (intro gives_intros) simp_all
  from hoare_gives [OF k g] show ?thesis
    by (rule hoare_conseq) (auto intro: left_idle waiting_any)
qed

lemma untouched_live_end:
  assumes "foreign_errors (eg_Host e)"
  shows "hoare (waiting q {}) (bind (live_body e r fresh name snap) (live_deferred e r name)) (\<lambda>_. waiting q UNIV) (\<lambda>_. waiting q UNIV)"
proof (rule hoare_bind)
  have close: "hoare (case x of (er, p) \<Rightarrow> left_by q er p) (case x of (er, p) \<Rightarrow> (case er of
      Some c \<Rightarrow> ret (Some c, p, False) | None \<Rightarrow> live_close e r fresh name deltas p)) (\<lambda>(er, p, done). left_by q er p) (\<lambda>_. waiting q UNIV)" for x deltas
  proof (cases x)
    case (Pair er p)
    have "hoare (left_by q None p) (live_close e r fresh name deltas p) (\<lambda>(er, p, done). left_by q er p) (\<lambda>_. waiting q UNIV)"
      by (rule left_go) (rule idle_live_close)
    with Pair show ?thesis by (cases er) (simp_all add: hoare_ret)
  qed
  show "hoare (waiting q {}) (live_body e r fresh name snap) (\<lambda>(er, p, done). left_by q er p) (\<lambda>_. waiting q UNIV)"
    unfolding live_body_def
    apply (rule anyhow_bind, rule keeps_attempt, rule keeps_sum, intro keeps_intros, rule keeps_bind, intro keeps_intros)
     apply (rule keeps_seq, rule idle.keeps_host_calls, rule idle_kinds, intro keeps_intros)
    apply (rule hoare_sum, rule hoare_ret, simp add: left_idle)
    apply (rule hoare_bind [OF live_disks_left [OF assms]])
    apply (rule close)
    done
  show "hoare (case x of (er, p, done) \<Rightarrow> left_by q er p) (live_deferred e r name x) (\<lambda>_. waiting q UNIV) (\<lambda>_. waiting q UNIV)" for x
  proof -
    obtain er p d where x: "x = (er, p, d)" by (cases x)
    have fails: "hoare (left_by q er p) (fail c) Q (\<lambda>_. waiting q UNIV)" for er p c and Q :: "unit \<Rightarrow> 'a st \<Rightarrow> bool"
      by (rule hoare_fail) (simp add: left_by_def)
    have "keeps (waiting q {}) (live_deferred e r name (er, False, d))"
      by (rule idle.keeps_live_deferred, rule idle.keeps_restoreSource) (rule idle_kinds)+
    then have idle: "hoare (left_by q er False) (live_deferred e r name (er, False, d)) (\<lambda>_. waiting q UNIV) (\<lambda>_. waiting q UNIV)"
      by (rule hoare_conseq [OF anyhow]) (simp add: left_by_def, erule waiting_any, assumption)
    show ?thesis
    proof (cases p)
      case True
      show ?thesis
      proof (cases er)
        case None
        with True x show ?thesis by (simp add: left_by_def hoare_def)
      next
        case (Some c)
        show ?thesis
          unfolding x live_deferred_def True Some prod.case option.case if_True
          by (intro hoare_if fails) (use True in simp)
      qed
    next
      case False
      with idle x show ?thesis by simp
    qed
  qed
qed

lemma untouched_runLive:
  assumes "foreign_errors (eg_Host e)"
  shows "hoare (waiting q {}) (runLive e) (\<lambda>_. waiting q UNIV) (\<lambda>_. waiting q UNIV)"
proof -
  have "hoare (waiting q {}) (live e) (\<lambda>_. waiting q UNIV) (\<lambda>_. waiting q UNIV)"
    unfolding live_def Let_def
    apply (rule hoare_bind [where R = "\<lambda>r. waiting q {}"], rule anyhow, intro keeps_intros)
    apply (rule anyhow_seq, intro keeps_intros)+
    apply (rule anyhow_bind, intro keeps_intros)
    apply (rule anyhow_seq, rule keeps_wrap_error, rule idle.keeps_host_calls, rule idle_kinds)
    apply (rule anyhow_bind, intro keeps_intros)
    apply (rule anyhow_seq, intro keeps_intros)
    apply (rule anyhow_bind, rule keeps_attempt, rule idle.keeps_host_calls, rule idle_kinds)
    apply (rule untouched_live_end [OF assms])
    done
  then have "hoare (waiting q {}) (attempt (live e)) (\<lambda>_. waiting q UNIV) (\<lambda>_. waiting q UNIV)"
    by (intro hoare_attempt) (erule hoare_conseq, simp_all split: exn.split)
  then show ?thesis
    unfolding runLive_def markFailed_def
    by (rule hoare_bind) (intro keeps_hoare keeps_intros)
qed

text \<open>
  C1: a clone whose end was not seen is left alone. From the launch of a clone, even one that seemed to fail, until the
  host has reported the end of that clone, the engine only reads, takes the operator's requests and asks the clone to
  stop: it starts no other clone, writes, merges and registers nothing, and does not archive the operation lock. This
  holds for cold and live runs, through every error and stop. (The host's own errors are never the job's private
  \<open>errStopped\<close>.)
\<close>

theorem pending_clone_untouched:
  assumes "foreign_errors (eg_Host e)"
  shows "along clone_alone (run_of (Run e) w r t t')"
proof -
  let ?q = "plan_key r"
  have idle: "waiting ?q {} (begun w r t t')"
    by (simp add: waiting_def allowed_begun) (simp add: begun_def)
  have "hoare (waiting ?q {}) (Run e) (\<lambda>_. waiting ?q UNIV) (\<lambda>_. waiting ?q UNIV)"
    unfolding Run_def
    by (rule anyhow_bind, intro keeps_intros, rule hoare_if)
      (rule untouched_runLive [OF assms] untouched_Run_cold [OF assms])+
  with idle have "waiting ?q UNIV (snd (Run e (begun w r t t')))"
    by (simp add: hoare_def split_beta split: sum.splits)
  then show ?thesis by (simp add: run_of_def waiting_def allowed_def)
qed

lemma pending_clone_untouched_witness:
  "along clone_alone (run_of (Run sim_engine) sim_start (zero_Report [] (sim_request ''MOVE'')) 0 0)"
  by (rule pending_clone_untouched) (auto simp: foreign_errors_def sim_engine_def dest: sim_clone_status sim_pause)

end
