(* ===== verification/Clocks.thy ===== *)
theory Clocks
  imports Run_Rules Sample_Host
begin

text \<open>
  The loops with a deadline end. On a host whose clock never goes back and whose pauses last as long as they
  should, \<open>waitClone\<close> and \<open>powerOn\<close> need no more rounds than their timeout has polling intervals: with that much
  fuel they end, whatever the host answers.
\<close>

section \<open>Time that passes\<close>

definition slow :: "('w \<Rightarrow> int) \<Rightarrow> ('w \<Rightarrow> 'a \<times> 'w) \<Rightarrow> bool" where
  "slow tm f = (\<forall>w. tm w \<le> tm (snd (f w)))"

text \<open>\<open>tm\<close> is the time in a world: \<open>now\<close> reads it, \<open>pause\<close> waits, and no operation turns it back.\<close>

definition clocked :: "('w \<Rightarrow> int) \<Rightarrow> 'w host \<Rightarrow> bool" where
  "clocked tm h =
     ((\<forall>w. fst (h_now h w) = tm (snd (h_now h w))) \<and> slow tm (h_now h) \<and>
      (\<forall>d w. is_ok (fst (h_pause h d w)) \<longrightarrow> tm w + d \<le> tm (snd (h_pause h d w))) \<and> (\<forall>d. slow tm (h_pause h d)) \<and>
      slow tm (h_operator h) \<and> slow tm (h_VMs h) \<and> slow tm (h_Datastores h) \<and> (\<forall>p. slow tm (h_Canonical h p)) \<and>
      (\<forall>i. slow tm (h_CloneStatus h i)) \<and> (\<forall>i. slow tm (h_StopClone h i)) \<and> (\<forall>i. slow tm (h_Power h i)) \<and>
      (\<forall>i. slow tm (h_Message h i)) \<and> (\<forall>i q a. slow tm (h_Answer h i q a)) \<and> (\<forall>i. slow tm (h_PowerOn h i)))"

definition late :: "('w \<Rightarrow> int) \<Rightarrow> int \<Rightarrow> 'w st \<Rightarrow> bool" where
  "late tm b s = (b \<le> tm (s_world s))"

text \<open>Code that takes time and does not run out of fuel.\<close>

definition lasting :: "('w \<Rightarrow> int) \<Rightarrow> int \<Rightarrow> ('w, 'a) M \<Rightarrow> bool" where
  "lasting tm b m = hoare (late tm b) m (\<lambda>_. late tm b) (\<lambda>e s. late tm b s \<and> e \<noteq> OutOfFuel)"

named_theorems lasting_intros \<open>code that takes time and does not run out of fuel\<close>

lemma lasting_ret [lasting_intros]: "lasting tm b (ret x)"
  and lasting_fail [lasting_intros]: "lasting tm b (fail c)"
  by (simp_all add: lasting_def hoare_ret hoare_fail)

lemma lasting_bind [lasting_intros]: "lasting tm b m \<Longrightarrow> (\<And>x. lasting tm b (f x)) \<Longrightarrow> lasting tm b (bind m f)"
  unfolding lasting_def by (rule hoare_bind)

lemma lasting_seq [lasting_intros]: "lasting tm b m \<Longrightarrow> lasting tm b k \<Longrightarrow> lasting tm b (seq m k)"
  by (simp add: seq_def lasting_bind)

lemma lasting_attempt [lasting_intros]: "lasting tm b m \<Longrightarrow> lasting tm b (attempt m)"
  unfolding lasting_def by (rule hoare_attempt, erule hoare_conseq) (simp_all split: exn.split)

lemma lasting_cases [lasting_intros]:
  "(c \<Longrightarrow> lasting tm b m) \<Longrightarrow> (\<not> c \<Longrightarrow> lasting tm b k) \<Longrightarrow> lasting tm b (if c then m else k)"
  "(o1 = None \<Longrightarrow> lasting tm b n) \<Longrightarrow> (\<And>y. lasting tm b (g y)) \<Longrightarrow> lasting tm b (case o1 of None \<Rightarrow> n | Some y \<Rightarrow> g y)"
  "(\<And>e. lasting tm b (g1 e)) \<Longrightarrow> (\<And>y. lasting tm b (f1 y)) \<Longrightarrow> lasting tm b (case r of Inl e \<Rightarrow> g1 e | Inr y \<Rightarrow> f1 y)"
  "(\<And>x y. lasting tm b (f2 x y)) \<Longrightarrow> lasting tm b (case p of (x, y) \<Rightarrow> f2 x y)"
  by (simp_all split: option.split sum.split prod.split)

lemma lasting_small [lasting_intros]: "lasting tm b (lift r)" "lasting tm b (lift_opt c)" "lasting tm b (require x e)" "lasting tm b (on_job g)"
  by (simp_all add: lift_def lift_opt_def require_def lasting_intros split: sum.split option.split)
    (simp add: lasting_def hoare_def on_job_def late_def split_beta)

lemma lasting_foldM [lasting_intros]: "(\<And>x a. lasting tm b (f x a)) \<Longrightarrow> lasting tm b (foldM f xs a)"
  by (induction xs arbitrary: a) (simp_all add: lasting_intros)

lemma lasting_call: "slow tm f \<Longrightarrow> lasting tm b (call_host f c)"
  unfolding lasting_def hoare_def
proof (intro allI impI)
  fix s
  assume f: "slow tm f" and b: "late tm b s"
  obtain r w where r: "f (s_world s) = (r, w)" by (cases "f (s_world s)")
  with f have "tm (s_world s) \<le> tm w" by (auto simp: slow_def dest: spec [of _ "s_world s"])
  with b r show "case call_host f c s of (Inl e, s') \<Rightarrow> late tm b s' \<and> e \<noteq> OutOfFuel | (Inr x, s') \<Rightarrow> late tm b s'"
    by (cases r) (simp_all add: call_host_def late_def noted_def)
qed

lemma world_served [simp]: "s_world (serve x s) = s_world s"
  by (cases x) (simp_all add: noted_def Let_def split_beta)

lemma world_all_served [simp]: "s_world (fold serve xs s) = s_world s"
  by (induction xs arbitrary: s) simp_all

lemma lasting_turn: "clocked tm h \<Longrightarrow> lasting tm b (operator_turn h)"
  by (auto simp: clocked_def lasting_def hoare_def operator_turn_def late_def slow_def split_beta intro: order_trans)

lemma lasting_now: "clocked tm h \<Longrightarrow> lasting tm b (now h)"
  by (auto simp: clocked_def lasting_def hoare_def now_def late_def slow_def split_beta intro: order_trans)

lemma lasting_pause: "clocked tm h \<Longrightarrow> lasting tm b (pause h d)"
  by (auto simp: clocked_def lasting_def hoare_def pause_def late_def slow_def split_beta split: sum.split intro: order_trans)

lemma lasting_calls:
  assumes "clocked tm h"
  shows "lasting tm b (x_VMs h)" "lasting tm b (x_Datastores h)" "lasting tm b (x_Canonical h p)" "lasting tm b (x_CloneStatus h i)"
    "lasting tm b (x_StopClone h i)" "lasting tm b (x_Power h i)" "lasting tm b (x_Message h i)" "lasting tm b (x_Answer h i a c)"
    "lasting tm b (x_PowerOn h i)"
  unfolding x_defs by (rule lasting_call; use assms in \<open>simp add: clocked_def\<close>)+

lemma lasting_job:
  assumes "clocked tm h"
  shows "lasting tm b (j_update h u)" "lasting tm b (j_update_at h v)" "lasting tm b (j_update_job h x)" "lasting tm b (j_phase h p m)"
    "lasting tm b (j_stopRequested h)" "lasting tm b (j_Snapshot h)"
  unfolding j_phase_def j_update_def j_update_at_def j_update_job_def j_stopRequested_def j_Snapshot_def
  by (intro lasting_intros lasting_turn lasting_now assms)+

lemma lasting_plan [lasting_intros]: "lasting tm b j_plan"
  unfolding j_plan_def by (intro lasting_intros)

lemmas lasting_steps = lasting_turn lasting_now lasting_pause lasting_calls lasting_job

text \<open>The time that \<open>now\<close> gives is that of the world it leaves; a pause adds its length.\<close>

lemma now_late:
  assumes "clocked tm h"
  shows "hoare (late tm b) (now h) (\<lambda>t s. b \<le> t \<and> late tm t s) (\<lambda>e s. late tm b s \<and> e \<noteq> OutOfFuel)"
  unfolding hoare_def
proof (intro allI impI)
  fix s
  assume b: "late tm b s"
  obtain t w where t: "h_now h (s_world s) = (t, w)" by (cases "h_now h (s_world s)")
  have "fst (h_now h (s_world s)) = tm (snd (h_now h (s_world s)))" and "tm (s_world s) \<le> tm (snd (h_now h (s_world s)))"
    using assms by (simp_all add: clocked_def slow_def)
  with b t show "case now h s of (Inl e, s') \<Rightarrow> late tm b s' \<and> e \<noteq> OutOfFuel | (Inr t, s') \<Rightarrow> b \<le> t \<and> late tm t s'"
    by (simp add: now_def late_def)
qed

lemma pause_late:
  assumes "clocked tm h"
  shows "hoare (late tm b) (pause h d) (\<lambda>_. late tm (b + d)) (\<lambda>e s. late tm b s \<and> e \<noteq> OutOfFuel)"
  unfolding hoare_def
proof (intro allI impI)
  fix s
  assume b: "late tm b s"
  obtain r w where r: "h_pause h d (s_world s) = (r, w)" by (cases "h_pause h d (s_world s)")
  have "is_ok (fst (h_pause h d (s_world s))) \<longrightarrow> tm (s_world s) + d \<le> tm (snd (h_pause h d (s_world s)))"
    and "tm (s_world s) \<le> tm (snd (h_pause h d (s_world s)))"
    using assms by (simp_all add: clocked_def slow_def)
  with b r show "case pause h d s of (Inl e, s') \<Rightarrow> late tm b s' \<and> e \<noteq> OutOfFuel | (Inr _, s') \<Rightarrow> late tm (b + d) s'"
    by (cases r) (simp_all add: pause_def late_def)
qed

section \<open>Waiting for a clone\<close>

definition ends :: "exn \<Rightarrow> 'w st \<Rightarrow> bool" where
  "ends e s = (e \<noteq> OutOfFuel)"

lemma lasting_ends: "lasting tm b m \<Longrightarrow> hoare (late tm b) m (\<lambda>_. late tm b) ends"
  unfolding lasting_def by (erule hoare_conseq) (auto simp: ends_def)

lemma hoare_never: "hoare (\<lambda>s. False) m Q E"
  by (simp add: hoare_def)

lemma now_then:
  assumes "clocked tm h" and "\<And>t. b \<le> t \<Longrightarrow> hoare (late tm t) (f t) Q ends"
  shows "hoare (late tm b) (bind (now h) f) Q ends"
proof (rule hoare_bind)
  show "hoare (late tm b) (now h) (\<lambda>t s. b \<le> t \<and> late tm t s) ends"
    by (rule hoare_conseq [OF now_late [OF assms(1)]]) (auto simp: ends_def)
qed (rule hoare_pure, rule assms(2))

lemma late_less: "late tm c s \<Longrightarrow> b \<le> c \<Longrightarrow> late tm b s"
  by (simp add: late_def)

lemma lasting_wait_parts:
  assumes "clocked tm (eg_Host e)"
  shows "lasting tm b (observe_clone e k startErr since w)" "lasting tm b (stop_clone e k w)"
proof -
  have "lasting tm b (liveSourceFree e r)" for r
    unfolding liveSourceFree_def by (intro lasting_intros lasting_steps assms)
  then show "lasting tm b (observe_clone e k startErr since w)"
    unfolding observe_clone_def clone_done_def watch_space_def Let_def by (intro lasting_intros lasting_steps assms)
  show "lasting tm b (stop_clone e k w)"
    unfolding stop_clone_def Let_def by (intro lasting_intros lasting_steps assms)
qed

lemma wait_loop_ends:
  assumes "clocked tm (eg_Host e)" and "0 \<le> op_PollInterval (eg_Options e)"
    and "deadline \<le> b + int n * op_PollInterval (eg_Options e)" and "c \<le> b"
  shows "hoare (late tm b) (wait_loop (Suc n) e k startErr since deadline w) (\<lambda>_. late tm c) ends"
  using assms(3,4)
proof (induction n arbitrary: b w)
  case 0
  then show ?case
    unfolding wait_loop.simps Let_def by (intro now_then assms(1)) (auto intro!: hoare_ret elim: late_less)
next
  case (Suc n)
  let ?d = "op_PollInterval (eg_Options e)"
  have step: "hoare (late tm t) (bind (attempt (pause (eg_Host e) ?d)) (\<lambda>p. case p of Inl er \<Rightarrow> ret (False, Some er)
      | Inr _ \<Rightarrow> wait_loop (Suc n) e k startErr since deadline w2)) (\<lambda>_. late tm c) ends" if "b \<le> t" for t w2
  proof (rule hoare_bind)
    show "hoare (late tm t) (attempt (pause (eg_Host e) ?d)) (\<lambda>r. late tm (if is_ok r then t + ?d else t)) ends"
      by (rule hoare_attempt, rule hoare_conseq [OF pause_late [OF assms(1)]]) (auto simp: ends_def split: exn.split)
    fix r :: "unit result"
    have "deadline \<le> (t + ?d) + int n * ?d" "c \<le> t + ?d" using that Suc.prems assms(2) by (simp_all add: algebra_simps)
    from Suc.IH [OF this] show "hoare (late tm (if is_ok r then t + ?d else t)) (case r of Inl er \<Rightarrow> ret (False, Some er)
        | Inr _ \<Rightarrow> wait_loop (Suc n) e k startErr since deadline w2) (\<lambda>_. late tm c) ends"
      using that Suc.prems by (cases r) (auto intro!: hoare_ret elim: late_less)
  qed
  show ?case
    unfolding wait_loop.simps(2) [of "Suc n"] Let_def
  proof (intro now_then assms(1) hoare_if hoare_ret)
    fix t
    assume t: "b \<le> t"
    then have c: "c \<le> t" using Suc.prems by simp
    show "hoare (late tm t) (bind (observe_clone e k startErr since w) (\<lambda>seen. case seen of Inl x \<Rightarrow> ret x
      | Inr w1 \<Rightarrow> bind (stop_clone e k w1) (\<lambda>ended. case ended of Inl er \<Rightarrow> ret (False, Some er)
        | Inr w2 \<Rightarrow> bind (attempt (pause (eg_Host e) ?d)) (\<lambda>p. case p of Inl er \<Rightarrow> ret (False, Some er)
          | Inr _ \<Rightarrow> wait_loop (Suc n) e k startErr since deadline w2)))) (\<lambda>_. late tm c) ends"
      by (rule hoare_bind [OF lasting_ends [OF lasting_wait_parts(1) [OF assms(1)]]], rule hoare_sum, rule hoare_ret, erule late_less, rule c,
        rule hoare_bind [OF lasting_ends [OF lasting_wait_parts(2) [OF assms(1)]]], rule hoare_sum, rule hoare_ret, erule late_less, rule c, rule step [OF t])
    show "late tm t s \<Longrightarrow> late tm c s" for s
      using c by (rule late_less [rotated])
  qed
qed

lemma late_start: "(\<And>b. hoare (late tm b) m (\<lambda>_ _. True) ends) \<Longrightarrow> hoare (\<lambda>_. True) m (\<lambda>_ _. True) ends"
proof -
  assume b: "\<And>b. hoare (late tm b) m (\<lambda>_ _. True) ends"
  show ?thesis
    unfolding hoare_def
  proof (intro allI impI)
    fix s
    have "late tm (tm (s_world s)) s" by (simp add: late_def)
    with b [of "tm (s_world s)"] show "case m s of (Inl e, s') \<Rightarrow> ends e s' | (Inr x, s') \<Rightarrow> True" by (simp add: hoare_def)
  qed
qed

lemma waitClone_ends:
  assumes "clocked tm (eg_Host e)" and "0 \<le> op_PollInterval (eg_Options e)"
    and "op_CloneTimeout (eg_Options e) \<le> int n * op_PollInterval (eg_Options e)" and "eg_fuel e = Suc n"
  shows "hoare (\<lambda>_. True) (waitClone e k startErr) (\<lambda>_ _. True) ends"
proof (rule late_start)
  fix b
  have tell: "hoare (late tm b) (seq (if c then j_phase (eg_Host e) p m else ret ()) (ret x)) (\<lambda>_ _. True) ends" for b c p m and x :: exit
    by (rule hoare_conseq [OF lasting_ends [where b = b]], rule lasting_seq, rule lasting_cases, rule lasting_job [OF assms(1)],
      rule lasting_ret, rule lasting_ret, assumption, rule TrueI, assumption)
  show "hoare (late tm b) (waitClone e k startErr) (\<lambda>_ _. True) ends"
    unfolding waitClone_def Let_def assms(4)
  proof (intro now_then assms(1))
    fix t0 contact since space
    assume "b \<le> t0" "t0 \<le> contact" "contact \<le> since" "since \<le> space"
    then have "t0 + op_CloneTimeout (eg_Options e) \<le> space + int n * op_PollInterval (eg_Options e)" using assms(3) by simp
    from hoare_bind [OF wait_loop_ends [OF assms(1,2) this order_refl] tell]
    show "hoare (late tm space) (bind (wait_loop (Suc n) e k startErr since (t0 + op_CloneTimeout (eg_Options e))
         \<lparr>wt_lastContact = contact, wt_lastSpaceCheck = space, wt_stopCause = None, wt_stopDeadline = None, wt_stopping = False\<rparr>)
        (\<lambda>x. seq (if snd x \<noteq> None \<and> \<not> fst x then j_phase (eg_Host e) PhaseUnknown unknown_clone else ret ()) (ret x))) (\<lambda>_ _. True) ends" .
  qed
qed

section \<open>Powering on\<close>

lemma lasting_registrations: "clocked tm (eg_Host e) \<Longrightarrow> lasting tm b (registrations e x y)"
  unfolding registrations_def match_registration_def Let_def by (intro lasting_intros lasting_calls)

lemma power_loop_ends:
  assumes "clocked tm (eg_Host e)" and "0 \<le> op_PollInterval (eg_Options e)"
    and "deadline \<le> b + int n * op_PollInterval (eg_Options e)"
  shows "hoare (late tm b) (power_loop (Suc n) e vm deadline powerErr answered) (\<lambda>_ _. True) ends"
  using assms(3)
proof (induction n arbitrary: b answered)
  case 0
  then show ?case
    unfolding power_loop.simps Let_def by (intro now_then assms(1)) (auto intro!: hoare_fail simp: ends_def)
next
  case (Suc n)
  let ?d = "op_PollInterval (eg_Options e)" and ?h = "eg_Host e"
  have step: "hoare (late tm t) (seq (pause ?h ?d) (power_loop (Suc n) e vm deadline powerErr answered')) (\<lambda>_ _. True) ends"
    if "b \<le> t" for t answered'
  proof (rule hoare_seq)
    show "hoare (late tm t) (pause ?h ?d) (\<lambda>_. late tm (t + ?d)) ends"
      by (rule hoare_conseq [OF pause_late [OF assms(1)]]) (auto simp: ends_def)
    have "deadline \<le> (t + ?d) + int n * ?d" using that Suc.prems by (simp add: algebra_simps)
    then show "hoare (late tm (t + ?d)) (power_loop (Suc n) e vm deadline powerErr answered') (\<lambda>_ _. True) ends"
      by (rule Suc.IH)
  qed
  show ?case
    unfolding power_loop.simps(2) [of "Suc n"] Let_def
    apply (intro now_then assms(1) hoare_if)
     apply (rule hoare_fail, simp add: ends_def)
    apply (rule hoare_bind [OF lasting_ends [OF lasting_calls(6) [OF assms(1)]]])
    apply (rule hoare_seq [OF lasting_ends [OF lasting_job(1) [OF assms(1)]]])
    apply (rule hoare_bind [OF lasting_ends [OF lasting_calls(7) [OF assms(1)]]])
    apply (rule hoare_if)
     apply (rule hoare_conseq [OF lasting_ends [OF lasting_job(2) [OF assms(1)]]], assumption, simp, assumption)
    apply (rule hoare_bind [OF lasting_ends step])
     apply (intro lasting_intros lasting_calls assms(1))
    apply assumption
    done
qed

lemma powerOn_ends:
  assumes "clocked tm (eg_Host e)" and "0 \<le> op_PollInterval (eg_Options e)"
    and "op_PowerOnTimeout (eg_Options e) \<le> int n * op_PollInterval (eg_Options e)" and "eg_fuel e = Suc n"
  shows "hoare (\<lambda>_. True) (powerOn e) (\<lambda>_ _. True) ends"
proof (rule late_start)
  fix b
  note once = hoare_bind [OF lasting_ends] hoare_seq [OF lasting_ends]
  show "hoare (late tm b) (powerOn e) (\<lambda>_ _. True) ends"
    unfolding powerOn_def Let_def assms(4)
    apply (rule once, rule lasting_job [OF assms(1)])
    apply (rule once, rule lasting_plan)
    apply (rule once, intro lasting_intros lasting_registrations assms(1))
    apply (rule once, intro lasting_intros)
    apply (rule once, rule lasting_job [OF assms(1)])
    apply (rule once, intro lasting_intros lasting_calls assms(1))
    apply (rule now_then [OF assms(1)], rule power_loop_ends [OF assms(1,2)])
    using assms(3) apply simp
    done
qed

text \<open>
  C15: the waits of the engine end. On a host whose clock does not go back and whose pauses are not cut short,
  \<open>waitClone\<close> and \<open>powerOn\<close> end with a result or an error: the fuel, one round more than the timeout has polling
  intervals, is never used up, whatever else the host answers and the operator does.
\<close>

theorem waits_end:
  assumes "clocked tm (eg_Host e)" and "0 \<le> op_PollInterval (eg_Options e)" and "eg_fuel e = Suc n"
    and "op_CloneTimeout (eg_Options e) \<le> int n * op_PollInterval (eg_Options e)"
    and "op_PowerOnTimeout (eg_Options e) \<le> int n * op_PollInterval (eg_Options e)"
  shows "fst (waitClone e k startErr s) \<noteq> Inl OutOfFuel \<and> fst (powerOn e s) \<noteq> Inl OutOfFuel"
proof -
  have "hoare (\<lambda>_. True) (waitClone e k startErr) (\<lambda>_ _. True) ends" "hoare (\<lambda>_. True) (powerOn e) (\<lambda>_ _. True) ends"
    using assms by (auto intro: waitClone_ends powerOn_ends)
  then show ?thesis
    by (auto simp: hoare_def ends_def split_beta dest!: spec [of _ s] split: sum.splits)
qed

lemma sim_clocked: "clocked sm_clock sim_host"
  by (simp add: clocked_def slow_def sim_host_def look_def do_it_def sim_clone_def)

lemma waits_end_witness:
  "fst (waitClone sim_engine 0 None \<lparr>s_world = sim_start, s_job = NewJob (zero_Report [] (sim_request ''MOVE'')) 0 0, s_granted = [], s_trace = []\<rparr>) \<noteq> Inl OutOfFuel"
proof -
  have "op_CloneTimeout DefaultOptions \<le> int 201600 * op_PollInterval DefaultOptions" "op_PowerOnTimeout DefaultOptions \<le> int 201600 * op_PollInterval DefaultOptions" "0 \<le> op_PollInterval DefaultOptions"
    by (simp_all add: DefaultOptions_def hour_def minute_def second_def)
  then show ?thesis
    using waits_end [of sm_clock sim_engine 201600] sim_clocked by (simp add: sim_engine_def)
qed

end
