(* ===== verification/Run_Ends.thy ===== *)
theory Run_Ends
  imports Clocks
begin

text \<open>
  How a whole migration ends. Every wait of the engine has a deadline but one: the source's shutdown, where the operator may let it
  wait for ever. So on a host whose clock runs, a run that does not end is there; and a run that ends has completed its job.
\<close>

section \<open>Code that ends, or waits for the shutdown\<close>

definition shutting :: "'w st \<Rightarrow> bool" where
  "shutting s = (js_Phase (jb_state (s_job s)) \<in> {PhaseShutdown, PhaseAwaitingShutdown})"

definition unended :: "exn \<Rightarrow> 'w st \<Rightarrow> bool" where
  "unended e s = (e = OutOfFuel \<longrightarrow> shutting s)"

definition bounded :: "('w, 'a) M \<Rightarrow> bool" where
  "bounded m = hoare (\<lambda>_. True) m (\<lambda>_ _. True) unended"

named_theorems bounded_intros \<open>code that ends or waits for the shutdown\<close>

lemma bounded_fuelled: "fuelled m \<Longrightarrow> bounded m"
  unfolding bounded_def fuelled_def hoare_alt unended_def by (metis fst_conv)

lemmas bounded_quiet = bounded_fuelled [OF quiet_fuelled]

lemma bounded_simple [bounded_intros]: "bounded (ret x)" "bounded (fail c)" "bounded (now h)" "bounded (pause h d)" "bounded (on_job f)"
    "bounded (operator_turn h)" "bounded (call_host g note)"
  by (intro bounded_fuelled fuelled_simple)+

lemma bounded_bind [bounded_intros]: "bounded m \<Longrightarrow> (\<And>x. bounded (f x)) \<Longrightarrow> bounded (bind m f)"
  unfolding bounded_def by (rule hoare_bind)

lemma bounded_seq [bounded_intros]: "bounded m \<Longrightarrow> bounded k \<Longrightarrow> bounded (seq m k)"
  by (simp add: seq_def bounded_bind)

lemma bounded_attempt [bounded_intros]: "bounded m \<Longrightarrow> bounded (attempt m)"
  unfolding bounded_def by (rule hoare_attempt, erule hoare_conseq) (simp_all add: unended_def split: exn.split)

lemma bounded_cases [bounded_intros]:
  "(c \<Longrightarrow> bounded m) \<Longrightarrow> (\<not> c \<Longrightarrow> bounded k) \<Longrightarrow> bounded (if c then m else k)"
  "(o1 = None \<Longrightarrow> bounded n) \<Longrightarrow> (\<And>y. bounded (g y)) \<Longrightarrow> bounded (case o1 of None \<Rightarrow> n | Some y \<Rightarrow> g y)"
  "(\<And>e. bounded (g1 e)) \<Longrightarrow> (\<And>y. bounded (f1 y)) \<Longrightarrow> bounded (case r of Inl e \<Rightarrow> g1 e | Inr y \<Rightarrow> f1 y)"
  "(\<And>x y. bounded (f2 x y)) \<Longrightarrow> bounded (case p of (x, y) \<Rightarrow> f2 x y)"
  by (simp_all split: option.split sum.split prod.split)

lemma bounded_small [bounded_intros]: "bounded (lift r)" "bounded (lift_opt c)" "bounded (require b e)" "bounded j_plan" "bounded (j_set_plan p)" "bounded (waited w)"
  by (simp_all add: lift_def lift_opt_def require_def j_plan_def j_set_plan_def waited_def bounded_intros split: sum.split option.split)

lemma bounded_wrap [bounded_intros]: "bounded m \<Longrightarrow> bounded (wrap_error t m)"
  unfolding wrap_error_def by (intro bounded_intros)

lemma bounded_each [bounded_intros]: "(\<And>x. bounded (f x)) \<Longrightarrow> bounded (each f xs)"
  by (induction xs) (simp_all add: bounded_intros)

lemma bounded_foldM [bounded_intros]: "(\<And>x a. bounded (f x a)) \<Longrightarrow> bounded (foldM f xs a)"
  by (induction xs arbitrary: a) (simp_all add: bounded_intros)

lemma bounded_job [bounded_intros]:
  "bounded (j_update h u)" "bounded (j_update_at h v)" "bounded (j_update_job h x)" "bounded (j_phase h p m)" "bounded (j_stopRequested h)"
  "bounded (j_Snapshot h)" "bounded (j_proceed h p m)"
  unfolding j_phase_def j_update_def j_update_at_def j_update_job_def j_stopRequested_def j_Snapshot_def j_proceed_def
  by (intro bounded_intros)+

text \<open>The operations of the host that change something; those that only read are quiet.\<close>

lemma bounded_x [bounded_intros]:
  "bounded (x_Shutdown h i)" "bounded (x_ForceOff h i)" "bounded (x_Acquire h k m)" "bounded (x_Finish h k)" "bounded (x_CreateTarget h d)"
  "bounded (x_WriteTarget h d n t)" "bounded (x_StartClone h k j i a b off)" "bounded (x_StopClone h j)" "bounded (x_Unregister h i)"
  "bounded (x_Register h p)" "bounded (x_PowerOn h i)" "bounded (x_Answer h i q a)" "bounded (x_CreateSnapshot h i n)"
  "bounded (x_ConsolidateOwnSnapshot h i n)" "bounded (x_CopyToTarget h f d)"
  unfolding x_defs by (intro bounded_intros)+

lemmas bounded_reads = quiet_x [THEN bounded_quiet] quiet_inspect [THEN bounded_quiet] quiet_guard_cold [THEN bounded_quiet]
  quiet_requireOff [THEN bounded_quiet] quiet_registrations [THEN bounded_quiet] quiet_ownSnapshotOnly [THEN bounded_quiet]
  quiet_liveDeltas [THEN bounded_quiet] quiet_liveGuard [THEN bounded_quiet] quiet_liveMetadata [THEN bounded_quiet]
  quiet_checks [THEN bounded_quiet] quiet_verify [THEN bounded_quiet]

section \<open>The shutdown\<close>

text \<open>Inside the wait for the shutdown the phase says so.\<close>

definition stays_shutting :: "('w, 'a) M \<Rightarrow> bool" where
  "stays_shutting m = hoare shutting m (\<lambda>_. shutting) unended"

lemma shut_bind: "stays_shutting m \<Longrightarrow> (\<And>x. stays_shutting (f x)) \<Longrightarrow> stays_shutting (bind m f)"
  unfolding stays_shutting_def by (rule hoare_bind)

lemma shut_seq: "stays_shutting m \<Longrightarrow> stays_shutting k \<Longrightarrow> stays_shutting (seq m k)"
  by (simp add: seq_def shut_bind)

lemma shut_cases: "(c \<Longrightarrow> stays_shutting m) \<Longrightarrow> (\<not> c \<Longrightarrow> stays_shutting k) \<Longrightarrow> stays_shutting (if c then m else k)"
  by simp

lemma shut_simple: "stays_shutting (ret x)" "stays_shutting (fail c)" "stays_shutting (now h)" "stays_shutting (pause h d)"
    "stays_shutting (operator_turn h)" "stays_shutting (call_host g note)" "stays_shutting (require b er)"
    "stays_shutting (attempt (call_host g note))"
  by (auto simp: attempt_def stays_shutting_def hoare_def shutting_def unended_def ret_def fail_def throw_def now_def pause_def operator_turn_def call_host_def
      noted_def require_def split: prod.split sum.split sum.splits exn.split)

lemma shut_job: "(\<And>j. js_Phase (jb_state (snd (f j))) \<in> {js_Phase (jb_state j), PhaseShutdown, PhaseAwaitingShutdown}) \<Longrightarrow> stays_shutting (on_job f)"
  unfolding stays_shutting_def hoare_def shutting_def on_job_def by (auto split: prod.split) (metis snd_conv)+

lemma shut_quiet: "quiet is_read m \<Longrightarrow> stays_shutting m"
  unfolding stays_shutting_def hoare_alt
proof (intro allI impI conjI)
  fix s x s'
  assume q: "quiet is_read m" and sh: "shutting s" and m: "m s = (Inr x, s')"
  obtain w new where "snd (m s) = after s w new" by (rule quietD [OF q])
  with sh m show "shutting s'" by (simp add: shutting_def)
next
  fix s e s'
  assume q: "quiet is_read m" and m: "m s = (Inl e, s')"
  from quiet_fuelled [OF q] m show "unended e s'" by (auto simp: fuelled_def unended_def) (metis fst_conv)
qed

lemma shut_await: "stays_shutting (await_action n (h :: 'w host))"
  unfolding stays_shutting_def hoare_def
proof (intro allI impI)
  fix s :: "'w st"
  assume "shutting s"
  then show "case await_action n h s of (Inl e, s') \<Rightarrow> unended e s' | (Inr x, s') \<Rightarrow> shutting s'"
  proof (induction n arbitrary: s)
    case 0
    then show ?case by (simp add: unended_def)
  next
    case (Suc n)
    obtain k w where k: "h_wake h (s_world s) = (k, w)" by (cases "h_wake h (s_world s)")
    show ?case
    proof (cases k)
      case (Requests rs)
      let ?s = "fold serve rs (s\<lparr>s_world := w\<rparr>)"
      have sh: "shutting (snd (take_action ?s))" using Suc.prems by (simp add: shutting_def)
      obtain a t where a: "take_action ?s = (a, t)" by (cases "take_action ?s")
      with sh Suc.IH [of t] k Requests show ?thesis by (cases a) simp_all
    qed (use k in \<open>simp add: unended_def\<close>)
  qed
qed

lemma shut_updates: "stays_shutting (j_stopRequested h)" "stays_shutting (j_phase h PhaseShutdown m)" "stays_shutting (j_phase h PhaseAwaitingShutdown m)"
    "stays_shutting (j_update h source_off)" "(\<And>t st. js_Phase (v t st) = js_Phase st) \<Longrightarrow> stays_shutting (j_update_at h v)"
  unfolding j_phase_def j_update_def j_stopRequested_def j_update_at_def
  by (intro shut_bind shut_seq shut_simple shut_job; simp add: update_job_def set_phase_def source_off_def)+

lemma shut_shutdown_loop:
  assumes "quiet is_read revalidate"
  shows "stays_shutting (shutdown_loop n e vm revalidate deadline)"
proof (induction n arbitrary: deadline)
  case 0
  then show ?case by (simp add: stays_shutting_def hoare_def throw_def unended_def)
next
  case (Suc n)
  show ?case
    unfolding shutdown_loop.simps Let_def x_defs
    by (intro shut_bind shut_seq shut_cases shut_simple shut_updates shut_await Suc.IH shut_quiet [OF assms])
qed

lemma bounded_shutdown [bounded_intros]:
  fixes e :: "'w engine"
  assumes "quiet is_read revalidate"
  shows "bounded (shutdown e r revalidate)"
proof -
  have phase: "hoare (\<lambda>_. True) (j_phase h PhaseShutdown m) (\<lambda>_. shutting) unended" for h :: "'w host" and m
    by (simp add: j_phase_def j_update_def hoare_def seq_def bind_def operator_turn_def now_def on_job_def shutting_def update_job_def set_phase_def split: prod.split)
  have down: "stays_shutting (j_update_at h (\<lambda>t s. case js_DownSince s of None \<Rightarrow> s\<lparr>js_DownSince := Some t\<rparr> | Some _ \<Rightarrow> s))" for h :: "'w host"
    by (rule shut_updates(5)) (simp split: option.split)
  have rest: "bounded (seq (j_phase h PhaseShutdown m) k)" if "stays_shutting k" for h :: "'w host" and m and k :: "('w, unit) M"
    unfolding bounded_def
    by (rule hoare_seq [OF phase], rule hoare_conseq [OF that [unfolded stays_shutting_def]]) simp_all
  show ?thesis
    unfolding shutdown_def Let_def x_Shutdown_def
    by (intro bounded_cases bounded_job bounded_seq bounded_small rest shut_seq down shut_bind shut_cases shut_simple shut_shutdown_loop assms)
qed

section \<open>The engine\<close>

text \<open>A host whose clock runs, and fuel for every deadline.\<close>

definition timely :: "('w \<Rightarrow> int) \<Rightarrow> 'w engine \<Rightarrow> bool" where
  "timely tm e = (clocked tm (eg_Host e) \<and> 0 \<le> op_PollInterval (eg_Options e) \<and> 0 < eg_fuel e \<and>
     op_CloneTimeout (eg_Options e) \<le> int (eg_fuel e - 1) * op_PollInterval (eg_Options e) \<and>
     op_PowerOnTimeout (eg_Options e) \<le> int (eg_fuel e - 1) * op_PollInterval (eg_Options e))"

lemma bounded_ends: "hoare (\<lambda>_. True) m (\<lambda>_ _. True) ends \<Longrightarrow> bounded m"
  unfolding bounded_def by (erule hoare_conseq) (simp_all add: ends_def unended_def)

lemma bounded_waits:
  assumes "timely tm e"
  shows "bounded (waitClone e k startErr)" "bounded (powerOn e)"
proof -
  from assms have "eg_fuel e = Suc (eg_fuel e - 1)" by (simp add: timely_def)
  then show "bounded (waitClone e k startErr)" "bounded (powerOn e)"
    using assms unfolding timely_def by (intro bounded_ends waitClone_ends powerOn_ends; blast)+
qed

lemma bounded_copyConfig [bounded_intros]: "bounded (copyConfig h r cfg names)"
  unfolding copyConfig_def copy_file_def Let_def by (intro bounded_intros bounded_reads)

lemma bounded_publish [bounded_intros]: "bounded (publishRegistrations e a b)"
  unfolding publishRegistrations_def by (intro bounded_intros)

lemma bounded_commit [bounded_intros]: "bounded (commit e r)"
  unfolding commit_def commit_register_def Let_def by (intro bounded_intros bounded_reads)

lemma bounded_archive [bounded_intros]: "bounded (archive_lock e r)"
  unfolding archive_lock_def by (intro bounded_intros)

lemma bounded_switch:
  assumes "timely tm e"
  shows "bounded (switch_registration e r)"
  unfolding switch_registration_def by (intro bounded_intros bounded_waits [OF assms])

lemma bounded_clone_disk:
  assumes "timely tm e"
  shows "bounded (clone_disk e r x used)"
  unfolding clone_disk_def Let_def by (intro bounded_intros bounded_reads bounded_waits [OF assms])

section \<open>Code that completes the job\<close>

definition finished_state :: "State \<Rightarrow> bool" where
  "finished_state st = (js_Complete st \<and> js_Phase st \<in> {PhaseCompleted, PhaseFailed, PhaseUnknown, PhaseStopped, PhaseRolledBack})"

definition closes :: "('w, 'a) M \<Rightarrow> bool" where
  "closes m = hoare (\<lambda>_. True) m (\<lambda>_ s. finished_state (jb_state (s_job s))) unended"

lemma closes_bind: "bounded m \<Longrightarrow> (\<And>x. closes (f x)) \<Longrightarrow> closes (bind m f)"
  unfolding bounded_def closes_def by (rule hoare_bind)

lemma closes_seq: "bounded m \<Longrightarrow> closes k \<Longrightarrow> closes (seq m k)"
  by (simp add: seq_def closes_bind)

text \<open>An update that completes the job cannot fail.\<close>

lemma update_completes:
  assumes "\<And>st. finished_state (f st)"
  shows "hoare P (j_update h f) (\<lambda>_ s. finished_state (jb_state (s_job s))) (\<lambda>_ _. False)"
proof -
  have "finished_state (f st\<lparr>js_Updated := t\<rparr>)" for st t
    using assms [of st] by (simp add: finished_state_def)
  then show ?thesis
    by (simp add: hoare_def j_update_def seq_def bind_def operator_turn_def now_def on_job_def update_job_def split: prod.split)
qed

lemma closes_update: "(\<And>st. finished_state (f st)) \<Longrightarrow> closes (j_update h f)"
  unfolding closes_def by (rule hoare_conseq [OF update_completes [where P = "\<lambda>_. True"]]) auto

lemma finished_states [simp]:
  "finished_state (completed m st)" "finished_state (failed_state c st)" "finished_state (stopped_state x st)" "finished_state (restored_state c st)"
  "finished_state (live_warning r n w (completed m st))"
  by (auto simp: finished_state_def completed_def failed_state_def stopped_state_def restored_state_def live_warning_def Let_def split: option.split)

text \<open>A cold migration without an error has completed the job.\<close>

lemma closes_cold:
  assumes "timely tm e"
  shows "closes (run_cold e)"
proof -
  have "closes (finish_cold e r used)" for r used
    unfolding finish_cold_def Let_def
    by (intro closes_bind closes_seq bounded_intros bounded_reads bounded_switch [OF assms] closes_update) simp_all
  then have clone: "closes (clone_cold e r)" for r
    unfolding clone_cold_def Let_def
    by (intro closes_bind closes_seq bounded_intros bounded_reads bounded_clone_disk [OF assms])
  show ?thesis
    unfolding run_cold_def Let_def
    by (intro closes_bind closes_seq bounded_intros bounded_reads clone quiet_intros)
qed

text \<open>A live migration, without an error in its end.\<close>

definition closes_live :: "('w, live_end) M \<Rightarrow> bool" where
  "closes_live m = hoare (\<lambda>_. True) m (\<lambda>x s. fst x = None \<longrightarrow> finished_state (jb_state (s_job s))) unended"

lemma closes_live_error: "closes_live (ret (Some c, x))"
  by (simp add: closes_live_def hoare_ret)

lemma closes_live_done: "(\<And>st. finished_state (f st)) \<Longrightarrow> closes_live (seq (j_update h f) (ret x))"
  unfolding closes_live_def
  by (rule hoare_seq [where R = "\<lambda>s. finished_state (jb_state (s_job s))"], rule hoare_conseq [OF update_completes [where P = "\<lambda>_. True"]])
    (auto intro: hoare_ret)

lemma closes_live_bind: "bounded m \<Longrightarrow> (\<And>x. closes_live (f x)) \<Longrightarrow> closes_live (bind m f)"
  unfolding bounded_def closes_live_def by (rule hoare_bind)

lemma closes_live_cases:
  "(c \<Longrightarrow> closes_live m) \<Longrightarrow> (\<not> c \<Longrightarrow> closes_live k) \<Longrightarrow> closes_live (if c then m else k)"
  "(o1 = None \<Longrightarrow> closes_live n) \<Longrightarrow> (\<And>y. closes_live (g y)) \<Longrightarrow> closes_live (case o1 of None \<Rightarrow> n | Some y \<Rightarrow> g y)"
  "(\<And>er. closes_live (g1 er)) \<Longrightarrow> (\<And>y. closes_live (f1 y)) \<Longrightarrow> closes_live (case r of Inl er \<Rightarrow> g1 er | Inr y \<Rightarrow> f1 y)"
  "(\<And>x y. closes_live (f2 x y)) \<Longrightarrow> closes_live (case p of (x, y) \<Rightarrow> f2 x y)"
  by (simp_all split: option.split sum.split prod.split)

lemma bounded_live_parts:
  assumes "timely tm e"
  shows "bounded (clone_live e r name deltas pending xs)" "bounded (cutover e r fresh name deltas)" "bounded (mergeCopy e r name)"
    "bounded (live_after e r name)" "bounded (restoreSource e r name)"
proof -
  have disk: "bounded (clone_live_disk e r name deltas p x)" for p x
    unfolding clone_live_disk_def Let_def by (intro bounded_intros bounded_reads bounded_waits [OF assms])
  show "bounded (clone_live e r name deltas pending xs)"
    by (induction xs arbitrary: pending) (auto intro!: bounded_intros disk)
  show "bounded (cutover e r fresh name deltas)"
    unfolding cutover_def copy_delta_def Let_def by (intro bounded_intros bounded_reads quiet_intros)
  show "bounded (mergeCopy e r name)"
    unfolding mergeCopy_def Let_def by (intro bounded_intros bounded_reads)
  show "bounded (live_after e r name)"
    unfolding live_after_def Let_def by (intro bounded_intros bounded_reads bounded_waits [OF assms])
  show "bounded (restoreSource e r name)"
    unfolding restoreSource_def restore_target_def restore_registration_def Let_def by (intro bounded_intros bounded_reads)
qed

lemma closes_runs:
  assumes "timely tm e"
  shows "closes (live e)"
proof -
  note parts = bounded_live_parts [OF assms]
  have close: "closes_live (live_close e r fresh name deltas pending)" for r fresh name deltas pending
    unfolding live_close_def Let_def
    by (intro closes_live_bind closes_live_cases closes_live_error closes_live_done bounded_intros parts) simp_all
  have body: "closes_live (live_body e r fresh name snap)" for r fresh name snap
    unfolding live_body_def
    by (intro closes_live_bind closes_live_cases closes_live_error close bounded_intros bounded_reads parts)
  have deferred: "bounded (live_deferred e r name x)" for r name x
    unfolding live_deferred_def by (intro bounded_intros parts)
  have "hoare (\<lambda>s. fst x = None \<longrightarrow> finished_state (jb_state (s_job s))) (live_deferred e r name x) (\<lambda>_ s. finished_state (jb_state (s_job s))) unended" for r name x
  proof (cases "fst x")
    case None
    then show ?thesis unfolding live_deferred_def by (cases x) (simp add: hoare_ret)
  next
    case (Some c)
    obtain p cm where x: "x = (Some c, p, cm)" using Some by (cases x) auto
    have never: "hoare (\<lambda>_. True) (live_deferred e r name x) (\<lambda>_ _. False) unended"
      unfolding x live_deferred_def by simp (auto intro!: hoare_if hoare_fail hoare_seq hoare_bind hoare_sum
        bounded_job(4) [unfolded bounded_def] bounded_attempt [OF parts(5), unfolded bounded_def] simp: unended_def)
    show ?thesis by (rule hoare_conseq [OF never]) auto
  qed
  with body have whole: "closes (bind (live_body e r fresh name snap) (live_deferred e r name))" for r fresh name snap
    unfolding closes_live_def closes_def by (rule hoare_bind)
  show ?thesis
    unfolding live_def live_check_def Let_def
    by (intro whole closes_bind closes_seq bounded_intros bounded_reads)
qed

section \<open>A whole run\<close>

definition ended :: "('w, 'a) M \<Rightarrow> bool" where
  "ended m = hoare (\<lambda>_. True) m (\<lambda>_ s. finished_state (jb_state (s_job s))) (\<lambda>er s. er = OutOfFuel \<and> shutting s)"

lemma ended_attempt:
  assumes "closes m" and "\<And>c. ended (g c)"
  shows "ended (bind (attempt m) (\<lambda>r. case r of Inr _ \<Rightarrow> ret () | Inl c \<Rightarrow> g c))"
  unfolding ended_def
proof (rule hoare_bind)
  show "hoare (\<lambda>_. True) (attempt m) (\<lambda>r s. is_ok r \<longrightarrow> finished_state (jb_state (s_job s))) (\<lambda>er s. er = OutOfFuel \<and> shutting s)"
    by (rule hoare_attempt, rule hoare_conseq [OF assms(1) [unfolded closes_def]]) (auto simp: unended_def split: exn.split)
  fix r :: "'b result"
  show "hoare (\<lambda>s. is_ok r \<longrightarrow> finished_state (jb_state (s_job s))) (case r of Inr _ \<Rightarrow> ret () | Inl c \<Rightarrow> g c)
      (\<lambda>_ s. finished_state (jb_state (s_job s))) (\<lambda>er s. er = OutOfFuel \<and> shutting s)"
    using assms(2) unfolding ended_def by (cases r) (auto intro: hoare_ret hoare_pre)
qed

lemma ended_update: "(\<And>st. finished_state (f st)) \<Longrightarrow> ended (j_update h f)"
  unfolding ended_def by (rule hoare_conseq [OF update_completes [where P = "\<lambda>_. True"]]) auto

lemma ended_stopped: "ended (stopped e)"
proof -
  have "hoare (\<lambda>_. True) (attempt (x_Finish h k)) (\<lambda>_ _. True) (\<lambda>_ _. False)" for h :: "'a host" and k
    unfolding x_Finish_def by (auto simp: hoare_def attempt_def call_host_def split: prod.split sum.split sum.splits exn.split)
  then have "hoare (\<lambda>_. True) (stopped e) (\<lambda>_ s. finished_state (jb_state (s_job s))) (\<lambda>_ _. False)"
    unfolding stopped_def Let_def by (intro hoare_bind hoare_plan update_completes) simp_all
  then show ?thesis unfolding ended_def by (rule hoare_conseq) auto
qed

lemma ended_run:
  assumes "timely tm e"
  shows "ended (Run e)"
proof -
  have cold: "ended (Run_cold e)"
    unfolding Run_cold_def markFailed_def
    by (rule ended_attempt [OF closes_cold [OF assms]]) (simp add: ended_stopped ended_update)
  have "ended (runLive e)"
    unfolding runLive_def markFailed_def
    by (rule ended_attempt [OF closes_runs [OF assms]]) (simp add: ended_update split: option.split)
  with cold have "hoare (\<lambda>_. True) (if b then runLive e else Run_cold e) (\<lambda>_ s. finished_state (jb_state (s_job s))) (\<lambda>er s. er = OutOfFuel \<and> shutting s)" for b
    by (simp add: ended_def)
  then show ?thesis
    unfolding ended_def Run_def by (intro hoare_bind hoare_plan)
qed

text \<open>
  C14: a migration ends, and then its job is complete. On a host whose clock does not go back and whose pauses are not cut short, a run, cold
  or live, whatever ESXi answers and the operator does, either returns with a job that is complete, in one of the final phases, or is still
  waiting for the source's shutdown, the one wait without a deadline. It never ends with an error that it has not put in the job.
\<close>

theorem run_ends:
  assumes "timely tm e"
  shows "case Run e s of
      (Inr _, s') \<Rightarrow> js_Complete (jb_state (s_job s')) \<and>
        js_Phase (jb_state (s_job s')) \<in> {PhaseCompleted, PhaseFailed, PhaseUnknown, PhaseStopped, PhaseRolledBack}
    | (Inl OutOfFuel, s') \<Rightarrow> js_Phase (jb_state (s_job s')) \<in> {PhaseShutdown, PhaseAwaitingShutdown}
    | (Inl (Err _), _) \<Rightarrow> False"
  using ended_run [OF assms] unfolding ended_def hoare_def finished_state_def shutting_def
  by (auto dest!: spec [of _ s] split: sum.splits prod.splits exn.splits)

lemma run_ends_witness:
  "case Run sim_engine (\<lparr>s_world = sim_start, s_job = NewJob (zero_Report [] (sim_request ''MOVE'')) 0 0, s_granted = [], s_trace = []\<rparr>) of
      (Inr _, s') \<Rightarrow> js_Complete (jb_state (s_job s')) \<and>
        js_Phase (jb_state (s_job s')) \<in> {PhaseCompleted, PhaseFailed, PhaseUnknown, PhaseStopped, PhaseRolledBack}
    | (Inl OutOfFuel, s') \<Rightarrow> js_Phase (jb_state (s_job s')) \<in> {PhaseShutdown, PhaseAwaitingShutdown}
    | (Inl (Err _), _) \<Rightarrow> False"
proof -
  have "timely sm_clock sim_engine"
    using sim_clocked by (simp add: timely_def sim_engine_def DefaultOptions_def hour_def minute_def second_def)
  then show ?thesis by (rule run_ends)
qed

end
