(* ===== verification/Outcomes.thy ===== *)
theory Outcomes
  imports Cold_Safety
begin

text \<open>
  What is true when a migration says that it is done: a cold migration that shows \<open>Completed\<close> has
  verified all it copied, for the plan it shows.
\<close>

section \<open>Facts that were learned\<close>

text \<open>Each fact rests on calls that are in the trace. The plan of the job stays \<open>p\<close>.\<close>

definition held :: "Report \<Rightarrow> (call set \<Rightarrow> bool) set \<Rightarrow> 'w st \<Rightarrow> bool" where
  "held p Vs s = ((\<forall>V \<in> Vs. \<exists>K \<subseteq> calls s. V K) \<and> jb_plan (s_job s) = p)"

lemma calls_noted: "calls s \<subseteq> calls (noted c s)"
  by (auto simp: calls_def noted_def)

lemma held_more: "held p Vs s \<Longrightarrow> calls s \<subseteq> calls t \<Longrightarrow> jb_plan (s_job t) = jb_plan (s_job s) \<Longrightarrow> held p Vs t"
  unfolding held_def by (metis subset_trans)

lemma calls_serve: "calls s \<subseteq> calls (serve x s)"
  using serve_trace [of x s] by (auto simp: calls_def)

lemma calls_taken: "calls s \<subseteq> calls (snd (take_action s))" "jb_plan (s_job (snd (take_action s))) = jb_plan (s_job s)"
  by (auto simp: take_action_def calls_def noted_def split: option.split)

lemma same_calls [simp]: "calls (s\<lparr>s_world := w\<rparr>) = calls s" "calls (with_job j s) = calls s"
  by (simp_all add: calls_def with_job_def)

interpretation learned: run_law "held p Vs" "\<lambda>_. True" "plan_key p" for p Vs
proof
  fix s :: "'w st" and c
  assume h: "held p Vs s"
  show "held p Vs (noted c s)" by (rule held_more [OF h calls_noted]) (simp add: noted_def)
next
  fix s :: "'w st" and x
  assume h: "held p Vs s"
  show "held p Vs (serve x s)" by (rule held_more [OF h calls_serve]) simp
next
  fix s :: "'w st"
  assume h: "held p Vs s"
  show "held p Vs (snd (take_action s))" by (rule held_more [OF h calls_taken])
next
  fix s :: "'w st" and w
  show "held p Vs s \<Longrightarrow> held p Vs (s\<lparr>s_world := w\<rparr>)" by (simp add: held_def)
next
  fix s :: "'w st" and j
  show "held p Vs s \<Longrightarrow> same_control (s_job s) j \<Longrightarrow> held p Vs (with_job j s)" by (simp add: held_def same_control_def) (simp add: with_job_def)
next
  fix s :: "'w st" and ph m t
  show "held p Vs s \<Longrightarrow> held p Vs (with_job (snd (proceed ph m t (s_job s))) s)" by (simp add: held_def) (simp add: with_job_def proceed_def)
qed (simp_all add: held_def)

lemma all_kinds: "starts (\<lambda>_. True)" "stops_source (\<lambda>_. True)" "forces (\<lambda>_. True)" "unregisters (\<lambda>_. True)" "registers (\<lambda>_. True)"
  "powers (\<lambda>_. True)" "answers (\<lambda>_. True)" "writes (\<lambda>_. True)" "creates (\<lambda>_. True)" "locks (\<lambda>_. True)" "snapshots (\<lambda>_. True)" "ends_clones (\<lambda>_. True)"
  by (simp_all add: kinds)

lemma learn:
  assumes "keeps (held p Vs) m" and "hoare (told_all {}) m (\<lambda>_ s. V (calls s)) anyway"
  shows "hoare (held p Vs) m (\<lambda>_. held p (insert V Vs)) anyway"
  unfolding hoare_alt
proof (intro allI impI conjI)
  fix s x s'
  assume h: "held p Vs s" and m: "m s = (Inr x, s')"
  have "V (calls s')" using hoareD [OF assms(2) _ m] by (simp add: told_all_def)
  moreover have "held p Vs s'" using keepsD [OF assms(1) h] m by simp
  ultimately show "held p (insert V Vs) s'" by (auto simp: held_def)
qed (simp add: anyway_def)

lemma learn_then: "hoare P m (\<lambda>_. held p Vs) anyway \<Longrightarrow> hoare (held p Vs) k Q anyway \<Longrightarrow> hoare P (seq m k) Q anyway"
  by (rule hoare_seq)

lemma still_held: "keeps (held p Vs) m \<Longrightarrow> hoare (held p Vs) m (\<lambda>_. held p Vs) anyway"
  by (erule hoare_conseq [OF keeps_hoare]) (simp_all add: anyway_def)

lemma learn_each:
  assumes "\<And>Vs x. x \<in> set xs \<Longrightarrow> hoare (held p Vs) (f x) (\<lambda>_. held p (insert (V x) Vs)) anyway"
  shows "hoare (held p Vs) (each f xs) (\<lambda>_. held p (V ` set xs \<union> Vs)) anyway"
  using assms
proof (induction xs arbitrary: Vs)
  case Nil
  show ?case by (simp add: hoare_ret)
next
  case (Cons x xs)
  have "hoare (held p Vs) (f x) (\<lambda>_. held p (insert (V x) Vs)) anyway" by (rule Cons.prems) simp
  moreover have "hoare (held p (insert (V x) Vs)) (each f xs) (\<lambda>_. held p (V ` set xs \<union> insert (V x) Vs)) anyway"
    by (rule Cons.IH) (rule Cons.prems, simp)
  ultimately show ?case by (auto intro: hoare_seq)
qed

section \<open>A completed cold migration\<close>

text \<open>What is known of the copy of a plan.\<close>

definition copied :: "Report \<Rightarrow> (call set \<Rightarrow> bool) set" where
  "copied p = disk_verified ` set (rp_Disks p) \<union> file_copied p ` set (rp_ConfigFiles p) \<union>
     {vmx_written p (rp_TargetConfig p) (diskNames (rp_Disks p) [])}"

definition archived :: "Report \<Rightarrow> call set \<Rightarrow> bool" where
  "archived p K = (DidFinish (rp_ID p) (Inr ()) \<in> K)"

lemma held_subset: "held p Vs s \<Longrightarrow> Ws \<subseteq> Vs \<Longrightarrow> held p Ws s"
  by (auto simp: held_def)

lemma learn_disks: "hoare (held p Vs) (each (verifyDisk h) ds) (\<lambda>_. held p (disk_verified ` set ds \<union> Vs)) anyway"
  by (rule learn_each, rule learn [OF learned.keeps_quiet [OF quiet_verifyDisk] verifyDisk_verified])

lemma learn_files: "hoare (held p Vs) (each (copy_file h r) fs) (\<lambda>_. held p (file_copied r ` set fs \<union> Vs)) anyway"
proof (rule learn_each, rule learn)
  show "keeps (held p Vs) (copy_file h r f)" for Vs f
    unfolding copy_file_def by (intro keeps_intros all_kinds)
  show "hoare (told_all {}) (copy_file h r f) (\<lambda>_ s. file_copied r f (calls s)) anyway" for f
    by (rule hoare_conseq [OF copy_file_copied]) auto
qed

lemma learn_vmx: "hoare (held p Vs) (write_vmx h r cfg names) (\<lambda>_. held p (insert (vmx_written r cfg names) Vs)) anyway"
  by (rule learn [OF _ write_vmx_written], unfold write_vmx_def Let_def, intro keeps_intros all_kinds)

lemma learn_archived: "hoare (held p Vs) (archive_lock e r) (\<lambda>_. held p (insert (archived r) Vs)) anyway"
proof (rule learn)
  show "keeps (held p Vs) (archive_lock e r)" by (intro keeps_intros all_kinds)
  have "hoare (told_all {}) (attempt (x_Finish (eg_Host e) (rp_ID r))) (\<lambda>x. told_all (insert (DidFinish (rp_ID r) x) {})) anyway"
    unfolding x_Finish_def by (rule told_attempt)
  then show "hoare (told_all {}) (archive_lock e r) (\<lambda>_ s. archived r (calls s)) anyway"
    unfolding archive_lock_def wrap_error_def
    by (rule hoare_bind) (auto simp: archived_def told_all_def anyway_def split: sum.split intro!: hoare_ret hoare_fail)
qed

lemma learn_finish: "hoare (held p {}) (finish_rest e p used) (\<lambda>_. held p (copied p \<union> {archived p})) anyway"
proof -
  let ?h = "eg_Host e"
  have switch: "keeps (held p Vs) (switch_registration e p)" for Vs
    by (intro learned.keeps_switch_registration learned.keeps_commit all_kinds)
  have copy: "hoare (held p {}) (copyConfig ?h p (rp_TargetConfig p) names)
      (\<lambda>_. held p (insert (vmx_written p (rp_TargetConfig p) names) (file_copied p ` set (rp_ConfigFiles p) \<union> {}))) anyway" for names
    unfolding copyConfig_split by (rule learn_then [OF learn_files learn_vmx])
  show ?thesis
    unfolding finish_rest_def Let_def
    apply (rule learn_then [OF copy], rule learn_then [OF learn_disks])
    apply (rule hoare_bind [OF still_held], intro keeps_intros)
    apply (rule learn_then [OF still_held], intro keeps_intros)
    apply (rule learn_then [OF still_held], rule switch)
    apply (rule learn_then [OF learn_archived])
    apply (rule hoare_conseq [OF still_held], intro keeps_intros, assumption)
     apply (erule held_subset, auto simp: copied_def)
    done
qed

lemma learn_clone_cold:
  "hoare (\<lambda>_. True) (clone_cold e r) (\<lambda>_ s. \<exists>p. guarded (plan_key r) p \<and> held p (copied p \<union> {archived p}) s) anyway"
proof -
  let ?Q = "\<lambda>_ s. \<exists>p. guarded (plan_key r) p \<and> held p (copied p \<union> {archived p}) s"
  have finish: "hoare (held p {}) (finish_cold e p used) ?Q anyway" if p: "guarded (plan_key r) p" for p used
    unfolding finish_cold_split
    apply (rule hoare_bind [OF still_held], intro keeps_intros)
    apply (rule learn_then [OF still_held], intro keeps_intros)
    apply (rule hoare_conseq [OF learn_finish], assumption, use p in blast, assumption)
    done
  have clones: "hoare (held p {}) (seq (x_CreateTarget (eg_Host e) (rp_TargetDir p))
      (bind (foldM (clone_disk e p) (enumerate 0 (rp_Disks p)) 0) (finish_cold e p))) ?Q anyway" if p: "guarded (plan_key r) p" for p
    apply (rule learn_then [OF still_held], intro keeps_intros all_kinds)
    apply (rule hoare_bind [OF still_held finish [OF p]], intro keeps_intros learned.keeps_clone_disk all_kinds)
    done
  have "hoare (\<lambda>_. True) (guard_cold e r False 0) (\<lambda>p s. guarded (plan_key r) p \<and> True) anyway"
    using guard_cold_guarded [of r e False 0] by (auto simp: hoare_alt gives_def anyway_def)
  then show ?thesis
    unfolding clone_cold_def Let_def
    by (rule hoare_bind [OF _ hoare_pure]) (rule hoare_seq [OF hoare_set_plan clones], simp_all add: held_def)
qed

lemma hoare_any: "hoare P m (\<lambda>_ _. True) anyway"
  by (simp add: hoare_def anyway_def split_beta split: sum.split)

definition done_well :: "plan_id \<Rightarrow> 'w st \<Rightarrow> bool" where
  "done_well q s = (\<exists>p. guarded q p \<and> held p (copied p \<union> {archived p}) s)"

lemma learn_run_cold:
  "hoare (\<lambda>s. plan_key (jb_plan (s_job s)) = q) (run_cold e) (\<lambda>_. done_well q) anyway"
proof -
  have plan: "hoare (\<lambda>s. plan_key (jb_plan (s_job s)) = q) j_plan (\<lambda>r s. plan_key r = q \<and> True) anyway"
    by (rule hoare_plan) simp
  have "hoare (\<lambda>_. True) (clone_cold e r) (\<lambda>_. done_well q) anyway" if "plan_key r = q" for r
    using learn_clone_cold [of e r] that by (simp add: done_well_def [abs_def])
  note steps = hoare_bind [OF hoare_any] hoare_seq [OF hoare_any] this
  show ?thesis
    unfolding run_cold_def Let_def
    by (rule hoare_bind [OF plan hoare_pure]) (rule steps | assumption)+
qed

text \<open>The same facts, of the plan the job shows and all calls of the run.\<close>

definition fully_copied :: "Report \<Rightarrow> call set \<Rightarrow> bool" where
  "fully_copied p K = ((\<forall>d \<in> set (rp_Disks p). disk_verified d K) \<and> (\<forall>f \<in> set (rp_ConfigFiles p). file_copied p f K) \<and>
     vmx_written p (rp_TargetConfig p) (diskNames (rp_Disks p) []) K \<and> DidFinish (rp_ID p) (Inr ()) \<in> K)"

lemma fact_mono: "K \<subseteq> L \<Longrightarrow> disk_verified d K \<Longrightarrow> disk_verified d L" "K \<subseteq> L \<Longrightarrow> file_copied p f K \<Longrightarrow> file_copied p f L"
  "K \<subseteq> L \<Longrightarrow> vmx_written p cfg names K \<Longrightarrow> vmx_written p cfg names L" "K \<subseteq> L \<Longrightarrow> archived p K \<Longrightarrow> archived p L"
  unfolding disk_verified_def file_copied_def vmx_written_def archived_def Let_def by (blast | meson subsetD)+

lemma held_copied: "held p (copied p \<union> {archived p}) s \<Longrightarrow> fully_copied p (calls s) \<and> jb_plan (s_job s) = p"
proof -
  assume h: "held p (copied p \<union> {archived p}) s"
  have known: "\<exists>K \<subseteq> calls s. V K" if "V \<in> copied p \<union> {archived p}" for V
    using h that unfolding held_def by blast
  have "disk_verified d (calls s)" if "d \<in> set (rp_Disks p)" for d
    using known [of "disk_verified d"] that fact_mono(1) by (auto simp: copied_def)
  moreover have "file_copied p f (calls s)" if "f \<in> set (rp_ConfigFiles p)" for f
    using known [of "file_copied p f"] that fact_mono(2) by (auto simp: copied_def)
  moreover have "vmx_written p (rp_TargetConfig p) (diskNames (rp_Disks p) []) (calls s)"
    using known [of "vmx_written p (rp_TargetConfig p) (diskNames (rp_Disks p) [])"] fact_mono(3) by (auto simp: copied_def)
  moreover have "archived p (calls s)"
    using known [of "archived p"] fact_mono(4) by auto
  ultimately show ?thesis using h by (simp add: fully_copied_def archived_def held_def)
qed

text \<open>A run of a cold migration ends completed only through the end of \<open>run_cold\<close>.\<close>

definition honest :: "plan_id \<Rightarrow> 'w st \<Rightarrow> bool" where
  "honest q s = (js_Phase (jb_state (s_job s)) = PhaseCompleted \<longrightarrow>
     guarded q (jb_plan (s_job s)) \<and> fully_copied (jb_plan (s_job s)) (calls s))"

lemma done_honest: "done_well q s \<Longrightarrow> honest q s"
  unfolding done_well_def honest_def using held_copied by metis

lemma honest_update:
  assumes "\<And>st. js_Phase (f st) \<noteq> PhaseCompleted"
  shows "hoare P (j_update h f) (\<lambda>_. honest q) anyway"
proof (rule hoare_pre)
  show "hoare (\<lambda>_. True) (j_update h f) (\<lambda>_. honest q) anyway"
    by (rule hoare_update) (simp_all add: honest_def with_job_def assms)
qed simp

lemma honest_Run_cold: "hoare (\<lambda>s. plan_key (jb_plan (s_job s)) = q) (Run_cold e) (\<lambda>_. honest q) anyway"
  unfolding Run_cold_def
proof (rule hoare_bind)
  show "hoare (\<lambda>s. plan_key (jb_plan (s_job s)) = q) (attempt (run_cold e)) (\<lambda>r s. case r of Inr _ \<Rightarrow> done_well q s | Inl _ \<Rightarrow> True) anyway"
    by (rule hoare_attempt, rule hoare_conseq [OF learn_run_cold]) (simp_all add: anyway_def split: exn.split)
  show "hoare (\<lambda>s. case r of Inr _ \<Rightarrow> done_well q s | Inl _ \<Rightarrow> True)
      (case r of Inr _ \<Rightarrow> ret () | Inl c \<Rightarrow> if is_stopped c then stopped e else markFailed e c) (\<lambda>_. honest q) anyway" for r
  proof (cases r)
    case (Inl c)
    have "hoare (\<lambda>_. True) (stopped e) (\<lambda>_. honest q) anyway"
      unfolding stopped_def Let_def
      by (rule hoare_bind [OF hoare_any], rule hoare_bind [OF hoare_any], rule honest_update) (simp add: stopped_state_def Let_def split: option.split)
    moreover have "hoare (\<lambda>_. True) (markFailed e c) (\<lambda>_. honest q) anyway"
      unfolding markFailed_def by (rule honest_update) (simp add: failed_state_def)
    ultimately show ?thesis using Inl by simp
  next
    case (Inr x)
    then show ?thesis by (auto intro: hoare_ret done_honest)
  qed
qed

text \<open>
  C3: a cold migration that says \<open>Completed\<close> has copied everything it showed. The plan of the job is then a
  ready report on the reviewed plan, with the same request, paths and fingerprint, of a VM that was off; every disk of it was verified at the target (chain,
  descriptor, thin format, capacity, extent), every configuration file reads as its source, the target's VMX parses to
  the planned configuration with the new disk names, and the operation lock was archived.
\<close>

theorem completed_cold_verified:
  "case Run_cold e (begun w r t t') of (Inl _, s) \<Rightarrow> True | (Inr _, s) \<Rightarrow> honest (plan_key r) s"
proof -
  have "plan_key (jb_plan (s_job (begun w r t t'))) = plan_key r" by (simp add: begun_def NewJob_def)
  with honest_Run_cold [of "plan_key r" e] show ?thesis
    unfolding hoare_def by (auto simp: anyway_def split: prod.split sum.split)
qed

section \<open>Snapshots that are gone\<close>

text \<open>What an error-free \<open>merged\<close> was told: no snapshot is left, and the VMX names the base disks.\<close>

definition merge_seen :: "int \<Rightarrow> string \<Rightarrow> (string, string) gomap \<Rightarrow> call set \<Rightarrow> bool" where
  "merge_seen i p names K = (\<exists>tree raw cfg. GotSnapshot i (Inr tree) \<in> K \<and> SnapshotNames tree = Inr [] \<and>
     GotReadFile p (Inr raw) \<in> K \<and> vmx_Parse raw = Inr cfg \<and> (\<forall>(k, want) \<in> set names. lookup0 cfg k = want))"

lemma wrong_name_None: "wrong_name cfg names = None \<longleftrightarrow> (\<forall>(k, want) \<in> set names. lookup0 cfg k = want)"
  by (induction names) (auto split: if_splits)

lemma merged_seen: "hoare (told_all {}) (merged e i p names) (\<lambda>_ s. merge_seen i p names (calls s)) anyway"
  unfolding merged_def x_defs
  apply (rule hoare_bind, rule told_call, rule told_require)
  apply (rule hoare_bind, rule told_call, rule told_lift, rule hoare_option)
   apply (rule hoare_ret, fastforce simp: merge_seen_def told_all_def wrong_name_None)
  apply (rule hoare_fail, simp add: anyway_def)
  done

lemma learn_merged: "hoare (held p Vs) (merged e i f names) (\<lambda>_. held p (insert (merge_seen i f names) Vs)) anyway"
  by (rule learn [OF _ merged_seen]) (intro keeps_intros)

lemma from_held: "(\<And>p. hoare (held p {}) m Q anyway) \<Longrightarrow> hoare (\<lambda>_. True) m Q anyway"
  by (auto simp: hoare_alt held_def)

lemma merge_seen_mono: "merge_seen i f names K \<Longrightarrow> K \<subseteq> L \<Longrightarrow> merge_seen i f names L"
  unfolding merge_seen_def by blast

lemma held_fact: "held p Vs s \<Longrightarrow> V \<in> Vs \<Longrightarrow> (\<And>K L. V K \<Longrightarrow> K \<subseteq> L \<Longrightarrow> V L) \<Longrightarrow> V (calls s)"
  unfolding held_def by blast

definition restored :: "Report \<Rightarrow> call set \<Rightarrow> bool" where
  "restored r K = (\<exists>src. src \<noteq> 0 \<and> merge_seen src (rp_SourceVMX r) (sourceNames r) K \<and> DidFinish (rp_ID r) (Inr ()) \<in> K)"

lemma restore_registration_found: "gives (\<lambda>src. src \<noteq> 0) (restore_registration e r src)"
  unfolding restore_registration_def Let_def by (intro gives_intros) simp_all

lemma finish_learned: "hoare (held p Vs) (x_Finish h i) (\<lambda>_. held p (insert (\<lambda>K. DidFinish i (Inr ()) \<in> K) Vs)) anyway"
proof (rule learn)
  show "keeps (held p Vs) (x_Finish h i)" by (intro keeps_intros all_kinds)
  have "hoare (told_all {}) (x_Finish h i) (\<lambda>x. told_all (insert (DidFinish i (Inr x)) {})) anyway"
    unfolding x_Finish_def by (rule told_call)
  then show "hoare (told_all {}) (x_Finish h i) (\<lambda>_ s. DidFinish i (Inr ()) \<in> calls s) anyway"
    by (rule hoare_conseq) (simp_all add: told_all_def)
qed

lemma given_then: "gives R m \<Longrightarrow> (\<And>x. R x \<Longrightarrow> hoare (\<lambda>_. True) (f x) Q anyway) \<Longrightarrow> hoare (\<lambda>_. True) (bind m f) Q anyway"
  by (rule hoare_bind [where R = "\<lambda>x s. R x \<and> True"]) (auto simp: hoare_alt gives_def anyway_def)

lemma restore_learned: "hoare (\<lambda>_. True) (restoreSource e r name) (\<lambda>_ s. restored r (calls s)) anyway"
proof -
  let ?h = "eg_Host e"
  have tail: "hoare (held p {}) (seq (merged e src (rp_SourceVMX r) (sourceNames r)) (bind (attempt (x_Power ?h src)) (\<lambda>p.
      seq (case p of Inr pw \<Rightarrow> j_update ?h (u pw) | Inl _ \<Rightarrow> ret ()) (x_Finish ?h (rp_ID r))))) (\<lambda>_ s. restored r (calls s)) anyway"
    if "src \<noteq> 0" for src p u
    apply (rule learn_then [OF learn_merged])
    apply (rule hoare_bind [OF still_held], intro keeps_intros)
    apply (rule learn_then [OF still_held], intro keeps_intros)
    apply (rule hoare_conseq [OF finish_learned], assumption)
    subgoal for _ _ s
      using held_fact [of p _ s "merge_seen src (rp_SourceVMX r) (sourceNames r)"] held_fact [of p _ s "\<lambda>K. DidFinish (rp_ID r) (Inr ()) \<in> K"] that
      by (auto simp: restored_def intro: merge_seen_mono)
    apply assumption
    done
  note prefix = hoare_bind [OF hoare_any] hoare_seq [OF hoare_any]
  show ?thesis
    unfolding restoreSource_def Let_def
    apply (rule prefix, rule prefix, rule prefix)
    apply (rule given_then [OF restore_registration_found])
    apply (rule prefix, rule prefix, rule prefix)
    apply (rule from_held, rule tail, assumption)
    done
qed

lemma mergeCopy_learned:
  "hoare (\<lambda>_. True) (mergeCopy e r name) (\<lambda>_ s. (\<exists>dst. dst \<noteq> 0 \<and> merge_seen dst (rp_TargetVMX r) (diskNames (rp_Disks r) []) (calls s)) \<and>
     merge_seen (vm_ID (rp_VM r)) (rp_SourceVMX r) (sourceNames r) (calls s)) anyway"
proof -
  let ?h = "eg_Host e"
  let ?V = "\<lambda>dst. merge_seen dst (rp_TargetVMX r) (diskNames (rp_Disks r) [])" and ?W = "merge_seen (vm_ID (rp_VM r)) (rp_SourceVMX r) (sourceNames r)"
  let ?Q = "\<lambda>_ s. (\<exists>dst. dst \<noteq> 0 \<and> ?V dst (calls s)) \<and> ?W (calls s)"
  have tail: "hoare (held p {}) (seq (merged e dst (rp_TargetVMX r) (diskNames (rp_Disks r) []))
      (bind (attempt (x_Unregister ?h dst)) (\<lambda>unregister. bind (attempt (registrations e a b)) (\<lambda>found. seq (require (c found) (e1 unregister))
       (seq (j_phase ?h ph m) (seq (x_ConsolidateOwnSnapshot ?h vm name) (merged e (vm_ID (rp_VM r)) (rp_SourceVMX r) (sourceNames r)))))))) ?Q anyway"
    if "dst \<noteq> 0" for dst p a b c e1 ph m vm
    apply (rule learn_then [OF learn_merged])
    apply (rule hoare_bind [OF still_held], intro keeps_intros all_kinds)
    apply (rule hoare_bind [OF still_held], intro keeps_intros)
    apply (rule learn_then [OF still_held], intro keeps_intros)
    apply (rule learn_then [OF still_held], intro keeps_intros)
    apply (rule learn_then [OF still_held], intro keeps_intros all_kinds)
    apply (rule hoare_conseq [OF learn_merged], assumption)
    subgoal for _ _ _ s
      using held_fact [of p _ s "?V dst"] held_fact [of p _ s ?W] that by (auto intro: merge_seen_mono)
    apply assumption
    done
  note prefix = hoare_bind [OF hoare_any] hoare_seq [OF hoare_any]
  show ?thesis
    unfolding mergeCopy_def Let_def
    apply (rule prefix, rule prefix, rule prefix, rule hoare_prod)
    apply (unfold seq_def [of "require _ _"], rule given_then [OF gives_require])
    apply (rule prefix, rule prefix, rule from_held)
    apply (unfold seq_def [of "require _ _", symmetric], rule tail, simp)
    done
qed

text \<open>
  C8: a live migration that reports the source as restored has restored it. Without an error, \<open>restoreSource\<close> found or made
  a registration of the source and read, afterwards, that it has no snapshot and that its VMX names the base disks, before it
  archived the lock; and \<open>mergeCopy\<close>, the end of a live COPY, read the same of the copy and of the source.
\<close>

theorem snapshots_gone:
  "hoare (\<lambda>_. True) (restoreSource e r name) (\<lambda>_ s. restored r (calls s)) anyway \<and>
   hoare (\<lambda>_. True) (mergeCopy e r name) (\<lambda>_ s. (\<exists>dst. dst \<noteq> 0 \<and> merge_seen dst (rp_TargetVMX r) (diskNames (rp_Disks r) []) (calls s)) \<and>
     merge_seen (vm_ID (rp_VM r)) (rp_SourceVMX r) (sourceNames r) (calls s)) anyway"
  by (rule conjI [OF restore_learned mergeCopy_learned])

section \<open>A live copy whose lock cannot be archived\<close>

text \<open>
  A live COPY that is done, cut over, merged and verified, up to the archiving of its lock: when that fails for a moment, the deferred end takes the
  error for one of the migration. It "restores" a source that has nothing to restore, and when that works, the error becomes \<open>Restored\<close>, which
  \<open>runLive\<close> shows as rolled back, with nothing switched.
\<close>

lemma copy_shown_as_restored:
  fixes e :: "'w engine"
  assumes "rq_Mode (rp_Request r) = modeCopy"
    and "seq (cutover e r fresh name deltas) (mergeCopy e r name) s = (Inr (), s1)" and "archive_lock e r s1 = (Inl (Err c), s2)"
    and "j_phase (eg_Host e) PhaseRestoring ''Restoring the source: registering it as before and merging the temporary snapshot'' s2 = (Inr (), s3)"
    and "restoreSource e r name s3 = (Inr (), s4)"
  shows "bind (live_close e r fresh name deltas False) (live_deferred e r name) s = (Inl (Err (Restored c)), s4)"
proof -
  have assoc: "seq a (seq b k) = seq (seq a b) k" for a b and k :: "('w, unit) M"
    by (auto simp: seq_def bind_def fun_eq_iff split: prod.split sum.split)
  have then1: "m u = (Inr (), v) \<Longrightarrow> seq m k u = k v" for m u v and k :: "('w, 'b) M"
    by (simp add: seq_def bind_def)
  have end1: "attempt (seq (cutover e r fresh name deltas) (seq (mergeCopy e r name) (archive_lock e r))) s = (Inr (Inl c), s2)"
    unfolding attempt_def assoc by (subst then1, rule assms(2)) (simp add: assms(3))
  have close: "live_close e r fresh name deltas False s = (Inr (Some c, False, False), s2)"
    unfolding live_close_def Let_def by (simp add: assms(1) bind_def [of "attempt _"] end1 ret_def)
  have "attempt (restoreSource e r name) s3 = (Inr (Inr ()), s4)" by (simp add: attempt_def assms(5))
  then have rest: "bind (attempt (restoreSource e r name)) k s3 = k (Inr ()) s4" for k :: "unit result \<Rightarrow> ('w, unit) M"
    by (simp add: bind_def)
  have "live_deferred e r name (Some c, False, False) s2 = (Inl (Err (Restored c)), s4)"
    unfolding live_deferred_def by simp (subst then1, rule assms(4), simp add: rest fail_def throw_def)
  with close show ?thesis by (simp add: bind_def)
qed

end
