(* ===== verification/Registration_Switch.thy ===== *)
theory Registration_Switch
  imports Commit_Safety
begin

text \<open>
  What the switch of a registration and its rollback do, call by call: an error-free \<open>commit\<close>, or \<open>Rollback\<close>,
  made exactly the calls that are listed here, in this order, and each reading of the inventory had the answer that is written beside it.
\<close>

section \<open>The calls of a run\<close>

text \<open>The calls of the host in a trace, newest first: what the operator asked for meanwhile is left out.\<close>

definition host_calls :: "'w st \<Rightarrow> call list" where
  "host_calls s = filter (\<lambda>c. \<not> is_operator c) (map snd (s_trace s))"

text \<open>The calls made so far, the plan of the job, and a fact of the job's state.\<close>

definition so_far :: "call list \<Rightarrow> Report \<Rightarrow> (State \<Rightarrow> bool) \<Rightarrow> 'w st \<Rightarrow> bool" where
  "so_far L p F s = (host_calls s = L \<and> jb_plan (s_job s) = p \<and> F (jb_state (s_job s)))"

lemma host_calls_served [simp]: "host_calls (serve x s) = host_calls s"
  using serve_trace [of x s] by (auto simp: host_calls_def)

lemma so_far_serve: "steady F \<Longrightarrow> so_far L p F s \<Longrightarrow> so_far L p F (serve x s)"
proof -
  assume F: "steady F" and s: "so_far L p F s"
  have "F (jb_state (s_job (serve x s))) = F (jb_state (s_job s))"
    using F by (cases x) (auto simp: steady_def noted_def Let_def requestStop_def split_beta)
  with s show ?thesis by (simp add: so_far_def)
qed

lemma so_far_world: "so_far L p F s \<Longrightarrow> so_far L p F (s\<lparr>s_world := w\<rparr>)"
  by (simp add: so_far_def host_calls_def)

lemma so_far_call: "(\<And>r. \<not> is_operator (c r)) \<Longrightarrow> hoare (so_far L p F) (call_host f c) (\<lambda>x. so_far (c (Inr x) # L) p F) anyway"
  by (rule hoare_call) (auto simp: so_far_def host_calls_def anyway_def comp_def split: sum.split)

lemma so_far_attempt: "(\<And>r. \<not> is_operator (c r)) \<Longrightarrow> hoare (so_far L p F) (attempt (call_host f c)) (\<lambda>r. so_far (c r # L) p F) anyway"
  by (rule hoare_attempt, rule hoare_call) (auto simp: so_far_def host_calls_def anyway_def comp_def split: sum.split)

lemma so_far_update:
  assumes "steady F" and "\<And>st t. F st \<Longrightarrow> G ((f st)\<lparr>js_Updated := t\<rparr>)"
  shows "hoare (so_far L p F) (j_update h f) (\<lambda>_. so_far L p G) anyway"
proof (rule hoare_update)
  show "so_far L p F s \<Longrightarrow> so_far L p G (with_job (update_job f t (s_job s)) s)" for s :: "'a st" and t
    using assms(2) by (simp add: so_far_def with_job_def host_calls_def)
qed (simp_all add: so_far_world so_far_serve assms(1))

lemma so_far_Snapshot:
  assumes "steady F" and "\<And>st b. F (st\<lparr>js_CanStop := b\<rparr>) = F st"
  shows "hoare (so_far L p F) (j_Snapshot h) (\<lambda>st s. F st \<and> so_far L p F s) anyway"
proof (rule hoare_Snapshot)
  show "so_far L p F s \<Longrightarrow> F (Snapshot (s_job s)) \<and> so_far L p F s" for s :: "'a st"
    using assms(2) by (simp add: so_far_def Snapshot_def)
qed (simp_all add: so_far_world so_far_serve assms(1))

lemma so_far_plan: "hoare (so_far L p F) j_plan (\<lambda>r s. r = p \<and> so_far L p F s) anyway"
  by (rule hoare_plan) (simp add: so_far_def)

lemma hoare_exists: "(\<And>y. hoare (P y) m Q E) \<Longrightarrow> hoare (\<lambda>s. \<exists>y. P y s) m Q E"
  by (auto simp: hoare_alt)

lemma hoare_checked: "(b \<Longrightarrow> hoare P k Q anyway) \<Longrightarrow> hoare P (seq (require b e) k) Q anyway"
  by (cases b) (simp_all add: require_def seq_def hoare_def bind_def ret_def fail_def throw_def anyway_def)

lemma hoare_refused: "gives (\<lambda>_. False) m \<Longrightarrow> hoare P m Q anyway"
  by (auto simp: hoare_alt gives_def anyway_def)

section \<open>Reading the inventory\<close>

text \<open>The ID of the VM that is registered with a file, zero when there is none: the resolved path of each VM is compared.\<close>

definition registered_at :: "string \<Rightarrow> int \<Rightarrow> VM list \<Rightarrow> (string \<times> string) list \<Rightarrow> bool" where
  "registered_at file i vms paths =
     (filter (\<lambda>j. j \<noteq> 0) (map (vm_ID \<circ> fst) (filter (\<lambda>(v, p, c). c = file) (zip vms paths))) = (if i = 0 then [] else [i]))"

text \<open>
  The calls of one reading, newest first: the list of VMs, the datastores, and for each VM its configuration file as the host
  resolves it; they say that the source is registered under the first ID and the target under the second.
\<close>

definition listing :: "string \<Rightarrow> string \<Rightarrow> int \<times> int \<Rightarrow> call list \<Rightarrow> bool" where
  "listing source target found new = (\<exists>vms ds paths.
     new = rev (GotVMs (Inr vms) # GotDatastores (Inr ds) # map (\<lambda>(p, c). GotCanonical p (Inr c)) paths) \<and>
     list_all2 (\<lambda>v (p, c). ResolveReference (vm_VMXPath v) [] ds = Inr p) vms paths \<and>
     registered_at source (fst found) vms paths \<and> registered_at target (snd found) vms paths)"

lemma registered_at_snoc:
  assumes "registered_at file i vms paths" and "length vms = length paths" and "c = file \<Longrightarrow> i = 0"
  shows "registered_at file (if c = file then vm_ID v else i) (vms @ [v]) (paths @ [(p, c)])"
  using assms by (auto simp: registered_at_def)

text \<open>What the loop has read after some of the VMs.\<close>

definition reading :: "string \<Rightarrow> string \<Rightarrow> Datastore list \<Rightarrow> VM list \<Rightarrow> int \<times> int \<Rightarrow> (string \<times> string) list \<Rightarrow> bool" where
  "reading source target ds vms found paths = (list_all2 (\<lambda>v (p, c). ResolveReference (vm_VMXPath v) [] ds = Inr p) vms paths \<and>
     registered_at source (fst found) vms paths \<and> registered_at target (snd found) vms paths)"

abbreviation canonicals :: "(string \<times> string) list \<Rightarrow> call list" where
  "canonicals paths \<equiv> rev (map (\<lambda>(p, c). GotCanonical p (Inr c)) paths)"

lemma match_reads:
  "hoare (\<lambda>s. \<exists>paths. reading source target ds vms found paths \<and> so_far (canonicals paths @ L) p F s) (match_registration e source target ds v found)
     (\<lambda>found' s. \<exists>paths. reading source target ds (vms @ [v]) found' paths \<and> so_far (canonicals paths @ L) p F s) anyway"
proof (rule hoare_exists, rule hoare_pure, cases found)
  fix paths src dst
  assume r: "reading source target ds vms found paths" and f: "found = (src, dst)"
  have len: "length vms = length paths" using r by (auto simp: reading_def dest: list_all2_lengthD)
  have step: "reading source target ds (vms @ [v]) (if c = source then vm_ID v else src, if c = target then vm_ID v else dst) (paths @ [(q, c)])"
    if "ResolveReference (vm_VMXPath v) [] ds = Inr q" "c = source \<longrightarrow> src = 0" "c = target \<longrightarrow> dst = 0" for q c
    using r that registered_at_snoc [OF _ len] by (auto simp: reading_def f list_all2_appendI)
  show "hoare (so_far (canonicals paths @ L) p F) (match_registration e source target ds v found)
     (\<lambda>found' s. \<exists>paths. reading source target ds (vms @ [v]) found' paths \<and> so_far (canonicals paths @ L) p F s) anyway"
  proof (cases "ResolveReference (vm_VMXPath v) [] ds")
    case (Inl e)
    then show ?thesis by (simp add: match_registration_def f lift_def bind_def fail_def throw_def hoare_def anyway_def)
  next
    case (Inr q)
    have ret: "bind (lift (Inr q)) k = k q" for k :: "string \<Rightarrow> ('a, int \<times> int) M"
      by (simp add: lift_def bind_def ret_def fun_eq_iff)
    show ?thesis
      unfolding match_registration_def f prod.case x_Canonical_def Let_def Inr ret
    proof (rule hoare_bind [OF so_far_call], simp, rule hoare_checked, rule hoare_checked, rule hoare_ret)
      fix c s
      assume c: "c = source \<longrightarrow> src = 0" "c = target \<longrightarrow> dst = 0" and s: "so_far (GotCanonical q (Inr c) # canonicals paths @ L) p F s"
      then have "so_far (canonicals (paths @ [(q, c)]) @ L) p F s" by simp
      with step [OF Inr c] show "\<exists>paths. reading source target ds (vms @ [v]) (if c = source then vm_ID v else src, if c = target then vm_ID v else dst) paths \<and>
          so_far (canonicals paths @ L) p F s" by blast
    qed
  qed
qed

lemma loop_reads:
  "hoare (\<lambda>s. \<exists>paths. reading source target ds vms found paths \<and> so_far (canonicals paths @ L) p F s) (foldM (match_registration e source target ds) later found)
     (\<lambda>found' s. \<exists>paths. reading source target ds (vms @ later) found' paths \<and> so_far (canonicals paths @ L) p F s) anyway"
proof (induction later arbitrary: vms found)
  case Nil
  show ?case by (simp add: hoare_ret)
next
  case (Cons v later)
  show ?case
    unfolding foldM.simps by (rule hoare_bind [OF match_reads]) (use Cons.IH [of "vms @ [v]"] in simp)
qed

lemma registrations_reads:
  "hoare (so_far L p F) (registrations e a b) (\<lambda>found s. \<exists>new. listing a b found new \<and> so_far (new @ L) p F s) anyway"
  unfolding registrations_def x_VMs_def x_Datastores_def
proof (rule hoare_bind [OF so_far_call], simp, rule hoare_bind [OF so_far_call], simp)
  fix vms ds
  let ?L = "GotDatastores (Inr ds) # GotVMs (Inr vms) # L"
  have "reading a b ds [] (0, 0) []" by (simp add: reading_def registered_at_def)
  then have start: "so_far ?L p F s \<Longrightarrow> \<exists>paths. reading a b ds [] (0, 0) paths \<and> so_far (canonicals paths @ ?L) p F s" for s :: "'a st"
    by (intro exI [of _ "[]"]) simp
  have "listing a b found (canonicals paths @ [GotDatastores (Inr ds), GotVMs (Inr vms)])" if "reading a b ds vms found paths" for found paths
    using that by (auto simp: listing_def reading_def)
  moreover have "canonicals paths @ ?L = (canonicals paths @ [GotDatastores (Inr ds), GotVMs (Inr vms)]) @ L" for paths by simp
  ultimately show "hoare (so_far ?L p F) (foldM (match_registration e a b ds) vms (0, 0)) (\<lambda>found s. \<exists>new. listing a b found new \<and> so_far (new @ L) p F s) anyway"
    by (intro hoare_conseq [OF loop_reads [of a b ds "[]" "(0, 0)" ?L p F e vms] start]) (metis append_Nil)+
qed

section \<open>Steps of a commit and of a rollback\<close>

lemma then_call:
  assumes "\<And>r. \<not> is_operator (c r)" and "\<And>x. hoare (so_far (c (Inr x) # L) p F) (k x) Q anyway"
  shows "hoare (so_far L p F) (bind (call_host f c) k) Q anyway"
  by (rule hoare_bind, rule so_far_call, rule assms(1), rule assms(2))

lemma then_attempt:
  assumes "\<And>r. \<not> is_operator (c r)" and "\<And>r. hoare (so_far (c r # L) p F) (k r) Q anyway"
  shows "hoare (so_far L p F) (bind (attempt (call_host f c)) k) Q anyway"
  by (rule hoare_bind, rule so_far_attempt, rule assms(1), rule assms(2))

lemma then_update:
  assumes "hoare (so_far L p G) k Q anyway" and "steady F" and "\<And>st t. F st \<Longrightarrow> G ((f st)\<lparr>js_Updated := t\<rparr>)"
  shows "hoare (so_far L p F) (seq (j_update h f) k) Q anyway"
  by (rule hoare_seq [OF _ assms(1)], rule so_far_update [where F = F], rule assms(2), erule assms(3))

lemma then_phase: "hoare (so_far L p F) k Q anyway \<Longrightarrow> steady F \<Longrightarrow> (\<And>st t. F st \<Longrightarrow> F ((set_phase ph m st)\<lparr>js_Updated := t\<rparr>)) \<Longrightarrow>
    hoare (so_far L p F) (seq (j_phase h ph m) k) Q anyway"
  unfolding j_phase_def by (rule then_update)

lemma then_publish:
  assumes "hoare (so_far L p (\<lambda>st. F st \<and> js_SourceRegistration st = registered (a > 0) \<and> js_TargetRegistration st = registered (b > 0))) k Q anyway"
    and "steady F" and "\<And>st t. F st \<Longrightarrow> F ((show_registrations a b st)\<lparr>js_Updated := t\<rparr>)"
  shows "hoare (so_far L p F) (seq (publishRegistrations e a b) k) Q anyway"
  unfolding publishRegistrations_def
  by (rule then_update [OF assms(1,2)]) (use assms(3) in \<open>auto simp: show_registrations_def Let_def\<close>)

lemma then_reading:
  assumes "\<And>found new. listing a b found new \<Longrightarrow> hoare (so_far (new @ L) p F) (k found) Q anyway"
  shows "hoare (so_far L p F) (bind (registrations e a b) k) Q anyway"
  by (rule hoare_bind [OF registrations_reads]) (rule hoare_exists, rule hoare_pure, erule assms)

lemma then_attempt_reading:
  assumes "\<And>found new. listing a b found new \<Longrightarrow> hoare (so_far (new @ L) p F) (k (Inr found)) Q anyway"
    and "\<And>er. gives (\<lambda>_. False) (k (Inl er))"
  shows "hoare (so_far L p F) (bind (attempt (registrations e a b)) k) Q anyway"
proof (rule hoare_bind)
  show "hoare (so_far L p F) (attempt (registrations e a b))
      (\<lambda>r s. \<forall>found. r = Inr found \<longrightarrow> (\<exists>new. listing a b found new \<and> so_far (new @ L) p F s)) anyway"
    by (rule hoare_attempt, rule hoare_conseq [OF registrations_reads]) (auto simp: anyway_def split: exn.split)
  show "hoare (\<lambda>s. \<forall>found. r = Inr found \<longrightarrow> (\<exists>new. listing a b found new \<and> so_far (new @ L) p F s)) (k r) Q anyway" for r
  proof (cases r)
    case (Inr found)
    have "hoare (\<lambda>s. \<exists>new. listing a b found new \<and> so_far (new @ L) p F s) (k (Inr found)) Q anyway"
      by (rule hoare_exists, rule hoare_pure, erule assms(1))
    with Inr show ?thesis by simp
  qed (simp add: hoare_refused assms(2))
qed

lemma so_far_requireOff: "hoare (so_far L p F) (requireOff e i) (\<lambda>_. so_far (GotPower i (Inr Off) # L) p F) anyway"
  unfolding requireOff_def x_Power_def
  by (rule then_call, simp, rule hoare_require) (auto simp: anyway_def)

section \<open>The switch\<close>

lemma register_calls:
  assumes "\<And>target re there s'. target \<noteq> 0 \<Longrightarrow> listing (rp_SourceVMX r) (rp_TargetVMX r) (0, target) there \<Longrightarrow>
      so_far (GotPower target (Inr Off) # there @ DidRegister (rp_TargetVMX r) re # L) p
        (\<lambda>st. js_SourceRegistration st = ''not registered'' \<and> js_TargetRegistration st = ''registered'' \<and> js_TargetVMID st = target \<and>
          js_CanRollback st \<and> js_TargetPower st = Off) s' \<Longrightarrow> Q () s'"
  shows "hoare (so_far L p (\<lambda>_. True)) (commit_register e r) Q anyway"
proof -
  let ?gone = "\<lambda>st. js_SourceRegistration st = ''not registered''"
  let ?there = "\<lambda>target st. ?gone st \<and> js_TargetRegistration st = ''registered'' \<and> js_TargetVMID st = target \<and> js_CanRollback st"
  have last: "hoare (so_far (there @ DidRegister (rp_TargetVMX r) re # L) p (?there target)) (bind (x_Power h target) (\<lambda>pw.
      seq (j_update h (\<lambda>s. s\<lparr>js_TargetPower := pw\<rparr>)) (require (pw = Off) er))) Q anyway"
    if "target \<noteq> 0" "listing (rp_SourceVMX r) (rp_TargetVMX r) (0, target) there" for target there re h er
    unfolding x_Power_def
    apply (rule then_call, simp)
    apply (rule then_update [where G = "\<lambda>st. ?there target st \<and> js_TargetPower st = x" for x])
      apply (rule hoare_require, simp add: anyway_def)
      apply (rule assms [OF that], simp, simp add: steady_def, simp)
    done
  show ?thesis
    unfolding commit_register_def Let_def x_Register_def [of _ "rp_TargetVMX r"]
    apply (rule then_attempt, simp)
    apply (rule then_update [where G = "\<lambda>_. True"])
      apply (rule then_attempt_reading)
       apply (simp only: sum.case, rule hoare_prod)
       apply (rule then_publish)
         apply (rule hoare_checked, rule hoare_if)
          apply (rule hoare_refused, intro gives_intros)
         apply (rule then_update [where G = "?there b" for b])
           apply (rule last, assumption, simp)
          apply (simp_all add: steady_def registered_def)
    apply (rule gives_fail)
    done
qed

lemma commit_calls:
  assumes "\<And>before gone un s'. v \<Longrightarrow> listing (rp_SourceVMX r) (rp_TargetVMX r) (vm_ID (rp_VM r), 0) before \<Longrightarrow> listing (rp_SourceVMX r) (rp_TargetVMX r) (0, 0) gone \<Longrightarrow>
      hoare (so_far (gone @ DidUnregister (vm_ID (rp_VM r)) un # GotPower (vm_ID (rp_VM r)) (Inr Off) # before @ L) p (\<lambda>_. True)) (commit_register e r) Q anyway"
  shows "hoare (so_far L p (\<lambda>st. js_TargetVerified st = v)) (commit e r) Q anyway"
  unfolding commit_def Let_def
  apply (rule hoare_bind, rule so_far_Snapshot, simp add: steady_def, simp, rule hoare_pure)
  apply (rule hoare_checked, rule then_reading, rule hoare_prod, rule hoare_checked)
  apply (rule hoare_seq, rule so_far_requireOff, rule then_phase)
    apply (rule then_update [where G = "\<lambda>_. True"])
      apply (unfold x_Unregister_def, rule then_attempt, simp)
      apply (rule then_attempt_reading)
       apply (simp only: sum.case, rule hoare_prod, rule then_publish)
         apply (rule hoare_if, rule hoare_refused, intro gives_intros)
         apply (rule then_update [where G = "\<lambda>_. True"], rule hoare_checked)
           apply (rule hoare_pre, rule assms)
              apply (simp_all add: steady_def so_far_def set_phase_def)
  apply (rule gives_fail)
  done

text \<open>The calls of a commit that switched the registration, after the calls \<open>earlier\<close>, and what the job then shows.\<close>

definition switched :: "Report \<Rightarrow> call list \<Rightarrow> 'w st \<Rightarrow> bool" where
  "switched r earlier s = (\<exists>before un gone re there target.
     host_calls s = GotPower target (Inr Off) # there @ DidRegister (rp_TargetVMX r) re # gone @ DidUnregister (vm_ID (rp_VM r)) un #
       GotPower (vm_ID (rp_VM r)) (Inr Off) # before @ earlier \<and>
     listing (rp_SourceVMX r) (rp_TargetVMX r) (vm_ID (rp_VM r), 0) before \<and> listing (rp_SourceVMX r) (rp_TargetVMX r) (0, 0) gone \<and>
     listing (rp_SourceVMX r) (rp_TargetVMX r) (0, target) there \<and> target \<noteq> 0 \<and>
     (let st = jb_state (s_job s) in js_SourceRegistration st = ''not registered'' \<and> js_TargetRegistration st = ''registered'' \<and>
        js_TargetVMID st = target \<and> js_TargetPower st = Off \<and> js_CanRollback st))"

text \<open>
  C9: a commit that gives no error has switched the registration, by these calls and no others: it read that the VM of the plan is registered at the
  source path and none at the target's, that this VM is off, unregistered it, read that neither path is registered any more, registered the target's VMX, read
  that the target is registered, under a certain ID, and the source is not, and that the target is off. The target had been verified; the job shows the
  source unregistered, the target registered under that ID and off, and offers the rollback.
\<close>

theorem commit_switches:
  "case commit e r s of (Inl _, s') \<Rightarrow> True | (Inr _, s') \<Rightarrow> js_TargetVerified (jb_state (s_job s)) \<and> switched r (host_calls s) s'"
proof -
  let ?v = "js_TargetVerified (jb_state (s_job s))" and ?p = "jb_plan (s_job s)"
  have "hoare (so_far (host_calls s) ?p (\<lambda>st. js_TargetVerified st = ?v)) (commit e r) (\<lambda>_ s'. ?v \<and> switched r (host_calls s) s') anyway"
    by (rule commit_calls, rule register_calls) (simp add: switched_def so_far_def Let_def, blast)
  moreover have "so_far (host_calls s) ?p (\<lambda>st. js_TargetVerified st = ?v) s" by (simp add: so_far_def)
  ultimately show ?thesis unfolding hoare_def by (auto split: prod.split sum.split)
qed

section \<open>The rollback\<close>

lemma rollback_end:
  assumes "\<And>s'. so_far (DidFinish (rp_ID p) (Inr ()) # L) p (\<lambda>st. js_Phase st = PhaseRolledBack \<and> js_SourceRegistration st = ''registered'' \<and>
      js_TargetRegistration st = ''not registered'' \<and> \<not> js_CanRollback st \<and> js_SourcePower st = Off \<and> js_TargetPower st = Off \<and> js_Error st = []) s' \<Longrightarrow> Q () s'"
  shows "hoare (so_far L p (\<lambda>st. \<not> js_CanRollback st \<and> js_TargetRegistration st = ''not registered''))
    (seq (j_update h (\<lambda>s. s\<lparr>js_SourceRegistration := ''registered'', js_TargetPower := ''Powered off'', js_SourcePower := ''Powered off''\<rparr>))
     (seq (x_Finish h (rp_ID p)) (j_update h (\<lambda>s. s\<lparr>js_Phase := PhaseRolledBack, js_Error := [], js_Message := m\<rparr>)))) Q anyway"
proof -
  let ?on = "\<lambda>st. \<not> js_CanRollback st \<and> js_TargetRegistration st = ''not registered'' \<and> js_SourceRegistration st = ''registered'' \<and> js_SourcePower st = Off \<and> js_TargetPower st = Off"
  let ?closed = "\<lambda>st. js_Phase st = PhaseRolledBack \<and> js_SourceRegistration st = ''registered'' \<and>
      js_TargetRegistration st = ''not registered'' \<and> \<not> js_CanRollback st \<and> js_SourcePower st = Off \<and> js_TargetPower st = Off \<and> js_Error st = []"
  have "hoare (so_far (DidFinish (rp_ID p) (Inr ()) # L) p ?on) (j_update h (\<lambda>s. s\<lparr>js_Phase := PhaseRolledBack, js_Error := [], js_Message := m\<rparr>)) Q anyway"
    by (rule hoare_conseq [OF so_far_update [where F = ?on and G = ?closed]]) (auto simp: steady_def intro: assms)
  then show ?thesis
    unfolding x_Finish_def seq_def [of "call_host _ _"]
    by (intro then_update [where G = ?on] then_call) (simp_all add: steady_def Off_def)
qed

text \<open>The calls of a rollback that put the registration back, after the calls \<open>earlier\<close>, and what the job then shows.\<close>

definition put_back :: "Report \<Rightarrow> int \<Rightarrow> call list \<Rightarrow> 'w st \<Rightarrow> bool" where
  "put_back p target earlier s = (\<exists>before message un gone re there source.
     host_calls s = DidFinish (rp_ID p) (Inr ()) # there @ DidRegister (rp_SourceVMX p) re # gone @ DidUnregister target un #
       GotMessage target (Inr message) # GotPower target (Inr Off) # before @ earlier \<and> no_message message \<and>
     listing (rp_SourceVMX p) (rp_TargetVMX p) (0, target) before \<and> listing (rp_SourceVMX p) (rp_TargetVMX p) (0, 0) gone \<and>
     listing (rp_SourceVMX p) (rp_TargetVMX p) (source, 0) there \<and> source \<noteq> 0 \<and>
     (let st = jb_state (s_job s) in js_Phase st = PhaseRolledBack \<and> js_SourceRegistration st = ''registered'' \<and>
        js_TargetRegistration st = ''not registered'' \<and> \<not> js_CanRollback st \<and> js_SourcePower st = Off \<and> js_TargetPower st = Off \<and> js_Error st = []))"

lemma then_found_off:
  assumes "hoare (so_far (GotPower i (Inr Off) # L) p F) k Q anyway"
  shows "hoare (so_far L p F) (bind (attempt (requireOff e i)) (\<lambda>off. seq (require (is_ok off) er) k)) Q anyway"
proof (rule hoare_bind)
  show "hoare (so_far L p F) (attempt (requireOff e i)) (\<lambda>r s. is_ok r \<longrightarrow> so_far (GotPower i (Inr Off) # L) p F s) anyway"
    by (rule hoare_attempt, rule hoare_conseq [OF so_far_requireOff]) (auto simp: anyway_def split: exn.split)
  show "hoare (\<lambda>s. is_ok r \<longrightarrow> so_far (GotPower i (Inr Off) # L) p F s) (seq (require (is_ok r) er) k) Q anyway" for r :: "unit result"
    by (rule hoare_checked, rule hoare_pre [OF assms]) simp
qed

lemma then_show_found:
  assumes "\<And>a b. found = (a, b) \<Longrightarrow>
      hoare (so_far L p (\<lambda>st. F st \<and> js_SourceRegistration st = registered (a > 0) \<and> js_TargetRegistration st = registered (b > 0))) k Q anyway"
    and "steady F" and "\<And>a b st t. F st \<Longrightarrow> F ((show_registrations a b st)\<lparr>js_Updated := t\<rparr>)"
  shows "hoare (so_far L p F) (seq (case Inr found of Inr (a, b) \<Rightarrow> publishRegistrations e a b | Inl _ \<Rightarrow> ret ()) k) Q anyway"
  by (cases found, simp, rule then_publish [OF assms(1) assms(2)]) (simp_all add: assms(3))

lemma so_far_weaken: "hoare (so_far L p G) m Q E \<Longrightarrow> (\<And>st. F st \<Longrightarrow> G st) \<Longrightarrow> hoare (so_far L p F) m Q E"
  by (erule hoare_pre) (simp add: so_far_def)

lemma show_keeps [simp]: "js_CanRollback (show_registrations a b st) = js_CanRollback st"
  by (simp add: show_registrations_def Let_def)

lemma rollback_calls:
  "hoare (so_far L p (\<lambda>st. js_TargetVMID st = target \<and> js_Phase st = ph \<and> js_CanRollback st = c)) (Rollback e)
    (\<lambda>_ s. ph = PhaseFailed \<and> c \<and> put_back p target L s) anyway"
proof -
  let ?no = "\<lambda>st. \<not> js_CanRollback st"
  show ?thesis
    unfolding Rollback_def Let_def x_Message_def x_Unregister_def x_Register_def
    apply (rule hoare_bind, rule so_far_Snapshot, simp add: steady_def, simp, rule hoare_pure, rule hoare_checked)
    apply (rule hoare_bind, rule so_far_plan, rule hoare_pure, hypsubst)
    apply (rule then_attempt_reading)
     apply (rule hoare_checked, rule then_found_off, rule then_attempt, simp, rule hoare_checked)
     apply (rule then_update [where G = ?no])
       apply (rule then_attempt, simp, rule then_attempt_reading)
        apply (rule then_show_found, rule hoare_checked)
          apply (rule then_update [where G = ?no])
            apply (rule then_attempt, simp, rule then_attempt_reading)
             apply (rule then_show_found, rule hoare_checked)
               apply (rule so_far_weaken, rule rollback_end)
                 apply (simp_all add: steady_def registered_def gives_intros)
    apply (clarsimp simp: put_back_def so_far_def Let_def split: sum.splits, blast)
    done
qed

text \<open>
  C10: a rollback that gives no error has put the registration back, by these calls and no others: it read that the target is registered under the ID the
  job shows and the source is not, that this VM is off and has no question open, unregistered it, read that neither path is registered any more,
  registered the source's VMX, read that the source is registered and the target is not, and archived the lock. It was offered only for a failed job that can
  be rolled back; the job then shows the source registered, the target not, both off, nothing left to roll back and no error.
\<close>

theorem rollback_restores:
  "case Rollback e s of (Inl _, s') \<Rightarrow> True
   | (Inr _, s') \<Rightarrow> (let st = jb_state (s_job s) in js_Phase st = PhaseFailed \<and> js_CanRollback st \<and>
       put_back (jb_plan (s_job s)) (js_TargetVMID st) (host_calls s) s')"
proof -
  let ?st = "jb_state (s_job s)"
  have "so_far (host_calls s) (jb_plan (s_job s))
      (\<lambda>st. js_TargetVMID st = js_TargetVMID ?st \<and> js_Phase st = js_Phase ?st \<and> js_CanRollback st = js_CanRollback ?st) s"
    by (simp add: so_far_def)
  then show ?thesis
    using rollback_calls [of "host_calls s" "jb_plan (s_job s)" "js_TargetVMID ?st" "js_Phase ?st" "js_CanRollback ?st" e]
    unfolding hoare_def Let_def by (fastforce split: prod.split sum.split)
qed

end
