(* ===== verification/Audit_Log.thy ===== *)
theory Audit_Log
  imports Esxi_Output "HOL-Library.Sublist"
begin

text \<open>
  The command log of the ESXi client (\<open>Audit\<close> in \<open>internal/esxi/executor.go\<close>): every command a
  client ran, with equal successful polls folded into one event, and the last 500 events kept. Each
  operation holds the log's mutex, so it is one step here.
\<close>

section \<open>The log\<close>

record Event =
  ev_Time :: int
  ev_Category :: string
  ev_Command :: string
  ev_DurationMS :: int
  ev_ExitCode :: int
  ev_Error :: string
  ev_Runs :: int

definition same_command :: "Event \<Rightarrow> Event \<Rightarrow> bool" where
  "same_command a b = (ev_Category a = ev_Category b \<and> ev_Command a = ev_Command b \<and> ev_ExitCode a = ev_ExitCode b \<and> ev_Error a = ev_Error b)"

definition pollEvent :: "Event \<Rightarrow> bool" where
  "pollEvent e = (ev_Error e = [] \<and> ev_ExitCode e = 0 \<and> (ev_Category e = ''poll-detached-clone'' \<or> ev_Category e = ''datastores''))"

text \<open>
  The search backwards through the log, which is given newest first: the event to append and the log without
  the one it replaces.
\<close>

fun fold_event :: "Event \<Rightarrow> Event list \<Rightarrow> (Event \<times> Event list) option" where
  "fold_event e [] = None"
| "fold_event e (prior # before) =
     (if same_command prior e then Some (e\<lparr>ev_Runs := ev_Runs prior + 1\<rparr>, before)
      else if \<not> pollEvent e \<or> \<not> pollEvent prior then None
      else map_option (\<lambda>(x, rest). (x, prior # rest)) (fold_event e before))"

definition Audit_Add :: "Event \<Rightarrow> Event list \<Rightarrow> Event list" where
  "Audit_Add e events =
     (case fold_event e (rev events) of
        Some (x, rest) \<Rightarrow> rev rest @ [x]
      | None \<Rightarrow> (let all = events @ [e\<lparr>ev_Runs := 1\<rparr>] in if length all > 500 then drop (length all - 500) all else all))"

text \<open>\<open>Events\<close>: a copy, so that the reader does not see later changes.\<close>

definition Audit_Events :: "Event list \<Rightarrow> Event list" where
  "Audit_Events events = [] @ events"

text \<open>A log is what its events leave of the empty one.\<close>

definition audit_of :: "Event list \<Rightarrow> Event list" where
  "audit_of added = fold Audit_Add added []"

section \<open>What the log keeps\<close>

type_synonym ev_key = "string \<times> string \<times> int \<times> string"

definition key_of :: "Event \<Rightarrow> ev_key" where
  "key_of e = (ev_Category e, ev_Command e, ev_ExitCode e, ev_Error e)"

text \<open>The management commands of a log, each as often as it ran; and how many commands there were.\<close>

definition managed :: "Event list \<Rightarrow> ev_key list" where
  "managed events = concat (map (\<lambda>e. replicate (nat (ev_Runs e)) (key_of e)) (filter (\<lambda>e. \<not> pollEvent e) events))"

definition total :: "Event list \<Rightarrow> int" where
  "total events = sum_list (map ev_Runs events)"

definition newest :: "Event list \<Rightarrow> ev_key list" where
  "newest events = map key_of (take 1 (rev events))"

definition counted :: "Event list \<Rightarrow> bool" where
  "counted events = (length events \<le> 500 \<and> list_all (\<lambda>e. 1 \<le> ev_Runs e) events)"

lemma same_command_key: "same_command a b \<longleftrightarrow> key_of a = key_of b"
  by (auto simp: same_command_def key_of_def)

lemma poll_key: "key_of a = key_of b \<Longrightarrow> pollEvent a = pollEvent b"
  by (simp add: key_of_def pollEvent_def)

lemma key_of_update [simp]: "key_of (e\<lparr>ev_Runs := n\<rparr>) = key_of e"
  by (simp add: key_of_def)

lemma poll_update [simp]: "pollEvent (e\<lparr>ev_Runs := n\<rparr>) = pollEvent e"
  by (simp add: pollEvent_def)

lemma managed_append [simp]: "managed (a @ b) = managed a @ managed b"
  by (simp add: managed_def)

lemma managed_one: "managed [e] = (if pollEvent e then [] else replicate (nat (ev_Runs e)) (key_of e))"
  by (simp add: managed_def)

lemma total_append [simp]: "total (a @ b) = total a + total b"
  by (simp add: total_def)

lemma total_one [simp]: "total [] = 0" "total [e] = ev_Runs e"
  by (simp_all add: total_def)

lemma counted_append [simp]: "counted (a @ b) \<longleftrightarrow> length a + length b \<le> 500 \<and> list_all (\<lambda>e. 1 \<le> ev_Runs e) a \<and> list_all (\<lambda>e. 1 \<le> ev_Runs e) b"
  by (auto simp: counted_def)

text \<open>A folded event replaces one of its own kind, over which only polls were run.\<close>

lemma fold_event_parts:
  "fold_event e log = Some (x, rest) \<Longrightarrow>
     \<exists>a prior b. log = a @ prior # b \<and> rest = a @ b \<and> key_of prior = key_of e \<and> x = e\<lparr>ev_Runs := ev_Runs prior + 1\<rparr> \<and>
       (a = [] \<or> pollEvent e)"
proof (induction log arbitrary: x rest)
  case (Cons l log)
  show ?case
  proof (cases "same_command l e")
    case True
    with Cons.prems show ?thesis by (fastforce simp: same_command_key)
  next
    case False
    with Cons.prems obtain rest' where r: "pollEvent e" "fold_event e log = Some (x, rest')" "rest = l # rest'"
      by (auto split: if_splits)
    from Cons.IH [OF r(2)] obtain a prior b where "log = a @ prior # b" "rest' = a @ b" "key_of prior = key_of e"
      "x = e\<lparr>ev_Runs := ev_Runs prior + 1\<rparr>" by blast
    with r have "l # log = (l # a) @ prior # b \<and> rest = (l # a) @ b" by simp
    with r(1) \<open>key_of prior = key_of e\<close> \<open>x = e\<lparr>ev_Runs := ev_Runs prior + 1\<rparr>\<close> show ?thesis by blast
  qed
qed simp

lemma managed_nil [simp]: "managed [] = []"
  by (simp add: managed_def)

lemma managed_Cons: "managed (e # log) = (if pollEvent e then [] else replicate (nat (ev_Runs e)) (key_of e)) @ managed log"
  by (simp add: managed_def)

lemma total_Cons: "total (e # log) = ev_Runs e + total log"
  by (simp add: total_def)

text \<open>One command more: the log grows by it, unless it overflows and loses its oldest events.\<close>

definition managed_key :: "Event \<Rightarrow> ev_key list" where
  "managed_key e = (if pollEvent e then [] else [key_of e])"

lemma more_runs: "1 \<le> n \<Longrightarrow> replicate (nat (n + 1)) k = replicate (nat n) k @ [k]"
  by (simp add: nat_add_distrib replicate_append_same)

lemma add_folded:
  assumes "counted log" and "fold_event e (rev log) = Some (x, rest)"
  shows "managed (rev rest @ [x]) = managed log @ managed_key e \<and> total (rev rest @ [x]) = total log + 1 \<and> counted (rev rest @ [x])"
proof -
  from fold_event_parts [OF assms(2)] obtain a prior b where p: "rev log = a @ prior # b" "rest = a @ b" "key_of prior = key_of e"
    "x = e\<lparr>ev_Runs := ev_Runs prior + 1\<rparr>" "a = [] \<or> pollEvent e" by blast
  from p(1) have log: "log = rev b @ prior # rev a" by (metis rev_append rev_rev_ident rev.simps(2) append.assoc append_Cons append_Nil)
  with assms(1) have r: "1 \<le> ev_Runs prior" and len: "length a + length b + 1 \<le> 500"
    and all: "list_all (\<lambda>e. 1 \<le> ev_Runs e) a" "list_all (\<lambda>e. 1 \<le> ev_Runs e) b"
    by (auto simp: counted_def)
  have "managed (rev rest @ [x]) = managed log @ managed_key e"
  proof (cases "pollEvent e")
    case True
    with p(3) have "pollEvent prior" using poll_key by blast
    with True p(4) show ?thesis by (simp add: log p(2) managed_Cons managed_one managed_key_def)
  next
    case False
    with p(3,5) have "a = []" and "\<not> pollEvent prior" using poll_key by blast+
    with False p(2,4) r show ?thesis
      by (simp add: log managed_one managed_key_def p(3) more_runs)
  qed
  moreover have "total (rev rest @ [x]) = total log + 1"
    by (simp add: log p(2,4) total_Cons)
  moreover have "counted (rev rest @ [x])"
    using r len all by (simp add: p(2,4))
  ultimately show ?thesis by blast
qed

lemma add_appended:
  assumes "counted log" and "fold_event e (rev log) = None"
  shows "counted (Audit_Add e log) \<and> suffix (managed (Audit_Add e log)) (managed log @ managed_key e) \<and>
    total (Audit_Add e log) \<le> total log + 1 \<and>
    (length log < 500 \<longrightarrow> managed (Audit_Add e log) = managed log @ managed_key e \<and> total (Audit_Add e log) = total log + 1)"
proof (cases "length log < 500")
  case True
  with assms show ?thesis by (simp add: Audit_Add_def managed_one managed_key_def counted_def)
next
  case False
  with assms(1) have n: "length log = 500" by (simp add: counted_def)
  then obtain old kept where log: "log = old # kept" by (cases log) auto
  with n assms(2) have "Audit_Add e log = kept @ [e\<lparr>ev_Runs := 1\<rparr>]" by (simp add: Audit_Add_def)
  with assms(1) n log show ?thesis
    by (auto simp: counted_def managed_one managed_key_def managed_Cons total_Cons suffix_def)
qed

lemma add_event:
  assumes "counted log"
  shows "counted (Audit_Add e log)" "suffix (managed (Audit_Add e log)) (managed log @ managed_key e)"
    "total (Audit_Add e log) \<le> total log + 1" "newest (Audit_Add e log) = [key_of e]"
    "length log < 500 \<Longrightarrow> managed (Audit_Add e log) = managed log @ managed_key e"
    "length log < 500 \<Longrightarrow> total (Audit_Add e log) = total log + 1"
proof -
  have "counted (Audit_Add e log) \<and> suffix (managed (Audit_Add e log)) (managed log @ managed_key e) \<and>
    total (Audit_Add e log) \<le> total log + 1 \<and>
    (length log < 500 \<longrightarrow> managed (Audit_Add e log) = managed log @ managed_key e \<and> total (Audit_Add e log) = total log + 1)"
  proof (cases "fold_event e (rev log)")
    case None
    with assms show ?thesis by (rule add_appended)
  next
    case (Some a)
    then obtain x rest where s: "fold_event e (rev log) = Some (x, rest)" by (cases a) auto
    then have "Audit_Add e log = rev rest @ [x]" by (simp add: Audit_Add_def)
    with add_folded [OF assms s] show ?thesis by simp
  qed
  then show "counted (Audit_Add e log)" "suffix (managed (Audit_Add e log)) (managed log @ managed_key e)"
    "total (Audit_Add e log) \<le> total log + 1" 
    "length log < 500 \<Longrightarrow> managed (Audit_Add e log) = managed log @ managed_key e"
    "length log < 500 \<Longrightarrow> total (Audit_Add e log) = total log + 1"
    by blast+
  show "newest (Audit_Add e log) = [key_of e]"
    by (auto simp: Audit_Add_def newest_def Let_def split: option.split dest: fold_event_parts)
qed

lemma total_bounds: "counted log \<Longrightarrow> int (length log) \<le> total log"
  by (induction log) (auto simp: counted_def total_def)

lemma suffix_managed: "suffix a b \<Longrightarrow> suffix c (a @ k) \<Longrightarrow> suffix c (b @ k)"
  by (auto simp: suffix_def)

lemma audit_of_snoc: "audit_of (hs @ [e]) = Audit_Add e (audit_of hs)"
  by (simp add: audit_of_def)

text \<open>
  C24: the log is a true account. It has at most 500 events; every command is counted in one of them, as long as
  no more than 500 were run; the management commands of it, each as often as its event says, are those that ran, in
  their order and without a gap, up to the oldest ones that were dropped; and the newest event is the newest command.
  So the folding of polls loses, adds and moves no management command.
\<close>

theorem audit_faithful:
  "counted (audit_of hs) \<and> suffix (managed (audit_of hs)) (concat (map managed_key hs)) \<and> newest (audit_of hs) = newest hs \<and>
   (length hs \<le> 500 \<longrightarrow> managed (audit_of hs) = concat (map managed_key hs) \<and> total (audit_of hs) = int (length hs))"
proof (induction hs rule: rev_induct)
  case Nil
  show ?case by (simp add: audit_of_def counted_def managed_def newest_def total_def)
next
  case (snoc e hs)
  let ?log = "audit_of hs"
  from snoc have c: "counted ?log" and s: "suffix (managed ?log) (concat (map managed_key hs))" by blast+
  have short: "length ?log < 500" if "length hs < 500"
    using snoc total_bounds [OF c] that by simp
  show ?case
    unfolding audit_of_snoc
    using add_event [OF c, of e] suffix_managed [OF s] short snoc by (simp add: newest_def)
qed

lemma audit_faithful_witness:
  "let e = \<lparr>ev_Time = 0, ev_Category = ''power-on'', ev_Command = ''x'', ev_DurationMS = 1, ev_ExitCode = 0, ev_Error = [], ev_Runs = 0\<rparr> in
   total (audit_of [e, e\<lparr>ev_Category := ''datastores''\<rparr>, e]) = 3"
  using audit_faithful [of "let e = \<lparr>ev_Time = 0, ev_Category = ''power-on'', ev_Command = ''x'', ev_DurationMS = 1, ev_ExitCode = 0, ev_Error = [], ev_Runs = 0\<rparr> in
   [e, e\<lparr>ev_Category := ''datastores''\<rparr>, e]"] by (simp add: Let_def)

end
