(* ===== verification/Esxi_Client.thy ===== *)
theory Esxi_Client
  imports Host Shell Audit_Log
begin

text \<open>
  The ESXi client (\<open>Client\<close> in \<open>internal/esxi/executor.go\<close>, with its operations in
  \<open>inventory.go\<close>, \<open>vm.go\<close>, \<open>snapshot.go\<close>, \<open>autostart.go\<close>, \<open>running.go\<close> and
  \<open>detached.go\<close>): every operation builds one or more shell commands, runs them over the \<open>Executor\<close>, which is the
  parameter of the model, and reads the answers with the parsers of \<open>Esxi_Inventory\<close> and \<open>Esxi_Output\<close>. The client keeps the
  audit log; what it sent and was answered is kept, newest first, for the theorems. At the end, \<open>client_host\<close> makes the
  client the host that the migration's engine runs against.
\<close>

section \<open>Commands and their answers\<close>

record Command =
  cm_Category :: string
  cm_Script :: string
  cm_Input :: string

record Result =
  rs_Stdout :: string
  rs_Stderr :: string
  rs_ExitCode :: int

text \<open>
  The executor, on a world of any type: it runs a command within a time limit, and hides secrets of a text. The clock stands beside it.
\<close>

record 'x executor =
  ex_Run :: "int \<Rightarrow> Command \<Rightarrow> 'x \<Rightarrow> (Result \<times> err option) \<times> 'x"
  ex_Redact :: "string \<Rightarrow> string"
  ex_now :: "'x \<Rightarrow> int \<times> 'x"

record 'x client =
  cn_world :: 'x
  cn_Events :: "Event list"
  cn_sent :: "(Command \<times> Result result) list"

type_synonym ('x, 'a) op = "('x client, 'a) act"

definition NewClient :: "'x \<Rightarrow> 'x client" where
  "NewClient x = \<lparr>cn_world = x, cn_Events = [], cn_sent = []\<rparr>"

text \<open>An executor may lack a \<open>Redact\<close> or a \<open>Close\<close>: then the client shows a text as it is, and closes nothing.\<close>

definition client_Redact :: "(string \<Rightarrow> string) option \<Rightarrow> string \<Rightarrow> string" where
  "client_Redact redactor = (case redactor of Some f \<Rightarrow> f | None \<Rightarrow> (\<lambda>s. s))"

definition client_Close :: "('x \<Rightarrow> err option \<times> 'x) option \<Rightarrow> 'x client \<Rightarrow> err option \<times> 'x client" where
  "client_Close closer s = (case closer of
      Some close \<Rightarrow> (case close (cn_world s) of (e, x) \<Rightarrow> (e, s\<lparr>cn_world := x\<rparr>))
    | None \<Rightarrow> (None, s))"

lemma client_Redact_simps [simp]: "client_Redact (Some f) = f" "client_Redact None s = s"
  by (simp_all add: client_Redact_def)

section \<open>Sequences of operations\<close>

definition c_ret :: "'a \<Rightarrow> ('x, 'a) op" where
  "c_ret x s = (Inr x, s)"

definition c_lift :: "'a result \<Rightarrow> ('x, 'a) op" where
  "c_lift r s = (r, s)"

definition c_bind :: "('x, 'a) op \<Rightarrow> ('a \<Rightarrow> ('x, 'b) op) \<Rightarrow> ('x, 'b) op" where
  "c_bind m k s = (case m s of (Inl e, s') \<Rightarrow> (Inl e, s') | (Inr x, s') \<Rightarrow> k x s')"

definition c_attempt :: "('x, 'a) op \<Rightarrow> ('x, 'a result) op" where
  "c_attempt m s = (case m s of (r, s') \<Rightarrow> (Inr r, s'))"

definition c_fail :: "string \<Rightarrow> ('x, 'a) op" where
  "c_fail e = c_lift (Inl (Errorf e))"

definition c_require :: "bool \<Rightarrow> string \<Rightarrow> ('x, 'a) op \<Rightarrow> ('x, 'a) op" where
  "c_require ok e k = (if ok then k else c_fail e)"

fun c_each :: "('a \<Rightarrow> ('x, unit) op) \<Rightarrow> 'a list \<Rightarrow> ('x, unit) op" where
  "c_each f [] = c_ret ()"
| "c_each f (x # xs) = c_bind (f x) (\<lambda>_. c_each f xs)"

section \<open>Running a command\<close>

text \<open>Go's integer division truncates.\<close>

definition go_quot :: "int \<Rightarrow> int \<Rightarrow> int" where
  "go_quot a b = sgn a * sgn b * (abs a div abs b)"

definition failure :: "string \<Rightarrow> Result \<Rightarrow> err option \<Rightarrow> err option" where
  "failure category r e =
     (if e = None \<and> rs_ExitCode r \<noteq> 0 then
        (if category = ''read-file'' \<or> category = ''vm-identity'' then Some (Errorf (''configuration read exited with status '' @ itoa (rs_ExitCode r)))
         else Some (Errorf (category @ '' exited with status '' @ itoa (rs_ExitCode r) @ '': '' @ trim_space (rs_Stderr r @ '' '' @ rs_Stdout r))))
      else e)"

definition shortened :: "string \<Rightarrow> err option \<Rightarrow> err option" where
  "shortened category e = (case e of Some x \<Rightarrow> (if length (err_text x) > 1500 then Some (Errorf (category @ '': remote command failed (output too long)'')) else e) | None \<Rightarrow> None)"

definition shown_script :: "string \<Rightarrow> string" where
  "shown_script s = (if length s > 400 then to_valid_utf8 (take 400 s) @ '' ...'' else s)"

definition runFor :: "'x executor \<Rightarrow> int \<Rightarrow> string \<Rightarrow> string \<Rightarrow> string \<Rightarrow> ('x, Result) op" where
  "runFor ex limit category script input s =
     (let (start, x1) = ex_now ex (cn_world s);
          cmd = \<lparr>cm_Category = category, cm_Script = script, cm_Input = input\<rparr>;
          ((r, e), x2) = ex_Run ex limit cmd x1;
          e = map_option (\<lambda>x. Errorf (ex_Redact ex (err_text x))) (shortened category (failure category r e));
          (end, x3) = ex_now ex x2;
          event = \<lparr>ev_Time = start, ev_Category = category, ev_Command = shown_script (ex_Redact ex script),
            ev_DurationMS = go_quot (end - start) 1000000, ev_ExitCode = rs_ExitCode r,
            ev_Error = (case e of Some x \<Rightarrow> err_text x | None \<Rightarrow> []), ev_Runs = 0\<rparr>;
          answer = (case e of Some x \<Rightarrow> Inl x | None \<Rightarrow> Inr r)
      in (answer, \<lparr>cn_world = x3, cn_Events = Audit_Add event (cn_Events s), cn_sent = (cmd, answer) # cn_sent s\<rparr>))"

definition run :: "'x executor \<Rightarrow> string \<Rightarrow> string \<Rightarrow> string \<Rightarrow> ('x, Result) op" where
  "run ex = runFor ex (45 * second)"

text \<open>Of a failed command the callers use only the error.\<close>

definition command :: "'x executor \<Rightarrow> string \<Rightarrow> string list \<Rightarrow> ('x, string) op" where
  "command ex cat args = c_bind (run ex cat (Argv args) []) (\<lambda>r. c_ret (rs_Stdout r))"

section \<open>Files and paths\<close>

definition ReadFile :: "'x executor \<Rightarrow> string \<Rightarrow> ('x, string) op" where
  "ReadFile ex p = c_bind (c_attempt (run ex ''read-file'' (Argv [''head'', ''-c'', ''1048577'', p]) [])) (\<lambda>r. case r of
     Inl _ \<Rightarrow> c_fail ''cannot read configuration file''
   | Inr r \<Rightarrow> c_require (length (rs_Stdout r) \<le> 1048576) ''configuration file exceeds 1 MiB'' (c_ret (rs_Stdout r)))"

definition Exists :: "'x executor \<Rightarrow> string \<Rightarrow> ('x, bool) op" where
  "Exists ex p = c_bind (run ex ''file-exists'' (''if '' @ Argv [''test'', ''-e'', p] @ ''; then printf yes; else printf no; fi'') []) (\<lambda>r.
     if rs_Stdout r = ''yes'' then c_ret True
     else if rs_Stdout r = ''no'' then c_ret False
     else c_fail ''unknown file existence response'')"

definition canonical_answer :: "string \<Rightarrow> string result" where
  "canonical_answer out = (let s = trim_suffix out [nl] in
     if \<not> has_prefix s ''/vmfs/volumes/'' \<or> contains_any s [cr, nl, nul] \<or> trim_space s = []
     then Inl (Errorf ''path is not a canonical datastore path'') else Inr s)"

definition Canonical :: "'x executor \<Rightarrow> string \<Rightarrow> ('x, string) op" where
  "Canonical ex p = c_bind (command ex ''canonical-path'' [''readlink'', ''-f'', p]) (\<lambda>s. c_lift (canonical_answer s))"

definition list_answer :: "string \<Rightarrow> string list result" where
  "list_answer s =
     (if s = [] then Inr []
      else if \<not> has_suffix s [nul] then Inl (Errorf ''unknown directory listing format'')
      else Inr (split_on nul (trim_suffix s [nul])))"

definition List_dir :: "'x executor \<Rightarrow> string \<Rightarrow> ('x, string list) op" where
  "List_dir ex dir = c_bind (command ex ''list-directory'' [''find'', dir, ''-mindepth'', ''1'', ''-maxdepth'', ''1'', ''-print0'']) (\<lambda>s. c_lift (list_answer s))"

definition Size :: "'x executor \<Rightarrow> string \<Rightarrow> ('x, int) op" where
  "Size ex p = c_bind (command ex ''file-size'' [''stat'', ''-c'', ''%s'', p]) (\<lambda>s. c_lift (positiveNumber s))"

definition allocated_answer :: "string \<Rightarrow> int result" where
  "allocated_answer s = (case Go_Strings.fields s of
     f # _ # _ \<Rightarrow> (case positiveNumber f of
         Inl e \<Rightarrow> Inl e
       | Inr n \<Rightarrow> if n > 2 ^ 52 then Inl (Errorf ''allocated size overflow'') else Inr (n * 1024))
   | _ \<Rightarrow> Inl (Errorf ''unknown allocated size''))"

definition Allocated :: "'x executor \<Rightarrow> string \<Rightarrow> ('x, int) op" where
  "Allocated ex p = c_bind (command ex ''allocated-size'' [''du'', ''-k'', p]) (\<lambda>s. c_lift (allocated_answer s))"

definition VerifyChain :: "'x executor \<Rightarrow> string \<Rightarrow> ('x, unit) op" where
  "VerifyChain ex p = c_bind (command ex ''verify-chain'' [''vmkfstools'', ''-e'', p]) (\<lambda>s.
     c_require (trim_space s = ''Disk chain is consistent.'' \<or> trim_space s = ''Disk chain is consistent'') ''unrecognized disk-chain verification response'' (c_ret ()))"

section \<open>Virtual machines\<close>

text \<open>\<open>vim-cmd vmsvc/<verb> <id> <args>\<close>\<close>

definition vmsvc :: "'x executor \<Rightarrow> string \<Rightarrow> string \<Rightarrow> int \<Rightarrow> string list \<Rightarrow> ('x, string) op" where
  "vmsvc ex cat verb i args = command ex cat ([''vim-cmd'', verb, itoa i] @ args)"

definition done_with :: "('x, string) op \<Rightarrow> ('x, unit) op" where
  "done_with m = c_bind m (\<lambda>_. c_ret ())"

definition c_Power :: "'x executor \<Rightarrow> int \<Rightarrow> ('x, Power) op" where
  "c_Power ex i = c_bind (vmsvc ex ''power-state'' ''vmsvc/power.getstate'' i []) (\<lambda>s. c_lift (ParsePower s))"

definition c_Snapshot :: "'x executor \<Rightarrow> int \<Rightarrow> ('x, string) op" where
  "c_Snapshot ex i = vmsvc ex ''snapshot-state'' ''vmsvc/snapshot.get'' i []"

definition c_ToolsRunning :: "'x executor \<Rightarrow> int \<Rightarrow> ('x, bool) op" where
  "c_ToolsRunning ex i = c_bind (vmsvc ex ''tools-status'' ''vmsvc/get.guest'' i []) (\<lambda>s. c_lift (ParseToolsRunning s))"

definition c_Shutdown :: "'x executor \<Rightarrow> int \<Rightarrow> ('x, unit) op" where
  "c_Shutdown ex i = done_with (vmsvc ex ''graceful-shutdown'' ''vmsvc/power.shutdown'' i [])"

definition c_ForceOff :: "'x executor \<Rightarrow> int \<Rightarrow> ('x, unit) op" where
  "c_ForceOff ex i = done_with (vmsvc ex ''explicit-force-off'' ''vmsvc/power.off'' i [])"

definition c_Unregister :: "'x executor \<Rightarrow> int \<Rightarrow> ('x, unit) op" where
  "c_Unregister ex i = done_with (vmsvc ex ''unregister'' ''vmsvc/unregister'' i [])"

definition c_Register :: "'x executor \<Rightarrow> string \<Rightarrow> ('x, int) op" where
  "c_Register ex p = c_bind (command ex ''register'' [''vim-cmd'', ''solo/registervm'', p]) (\<lambda>s. c_lift (parse_registration s))"

definition c_PowerOn :: "'x executor \<Rightarrow> int \<Rightarrow> ('x, unit) op" where
  "c_PowerOn ex i = done_with (vmsvc ex ''power-on'' ''vmsvc/power.on'' i [])"

definition c_Message :: "'x executor \<Rightarrow> int \<Rightarrow> ('x, string) op" where
  "c_Message ex i = vmsvc ex ''vm-question'' ''vmsvc/message'' i []"

definition c_Answer :: "'x executor \<Rightarrow> int \<Rightarrow> string \<Rightarrow> string \<Rightarrow> ('x, unit) op" where
  "c_Answer ex i m choice = done_with (vmsvc ex ''answer-moved'' ''vmsvc/message'' i [m, choice])"

definition VMPath :: "'x executor \<Rightarrow> int \<Rightarrow> ('x, string) op" where
  "VMPath ex i = c_bind (vmsvc ex ''vm-identity'' ''vmsvc/get.config'' i []) (\<lambda>s. c_lift (ParseVMPath s))"

section \<open>Snapshots\<close>

definition lower_hex :: "char \<Rightarrow> bool" where
  "lower_hex c = (is_digit c \<or> between 97 102 c)"

text \<open>\<open>^esxi-mover-[a-f0-9]{8}$\<close>\<close>

definition ownSnapshot :: "string \<Rightarrow> bool" where
  "ownSnapshot s = (has_prefix s ''esxi-mover-'' \<and> length s = 19 \<and> list_all lower_hex (drop 11 s))"

definition c_CreateSnapshot :: "'x executor \<Rightarrow> int \<Rightarrow> string \<Rightarrow> ('x, unit) op" where
  "c_CreateSnapshot ex i name = c_require (ownSnapshot name) ''invalid snapshot name''
     (c_bind (runFor ex (10 * minute) ''create-snapshot'' (Argv [''vim-cmd'', ''vmsvc/snapshot.create'', itoa i, name, ''ESXi Mover live migration'', ''0'', ''0'']) []) (\<lambda>_. c_ret ()))"

definition c_ConsolidateOwnSnapshot :: "'x executor \<Rightarrow> int \<Rightarrow> string \<Rightarrow> ('x, unit) op" where
  "c_ConsolidateOwnSnapshot ex i name = c_require (ownSnapshot name) ''invalid snapshot name''
     (c_bind (c_Snapshot ex i) (\<lambda>tree. c_bind (c_lift (SnapshotNames tree)) (\<lambda>names.
      c_require (names = [name]) (''the snapshot tree is not exactly this job'' @ [sq] @ ''s snapshot; nothing was merged'')
        (c_bind (runFor ex (4 * hour) ''consolidate-own-snapshot'' (Argv [''vim-cmd'', ''vmsvc/snapshot.removeall'', itoa i]) []) (\<lambda>_. c_ret ())))))"

section \<open>Inventory\<close>

fun check_paths :: "'x executor \<Rightarrow> VM list \<Rightarrow> ('x, unit) op" where
  "check_paths ex [] = c_ret ()"
| "check_paths ex (vm # vms) = c_bind (VMPath ex (vm_ID vm)) (\<lambda>actual.
     c_require (actual = vm_VMXPath vm) ''VM inventory and authoritative configuration path disagree'' (check_paths ex vms))"

definition c_VMs :: "'x executor \<Rightarrow> ('x, VM list) op" where
  "c_VMs ex = c_bind (command ex ''inventory'' [''vim-cmd'', ''vmsvc/getallvms'']) (\<lambda>s.
     c_bind (c_lift (ParseVMs s)) (\<lambda>vms. c_bind (check_paths ex vms) (\<lambda>_. c_ret vms)))"

definition c_Datastores :: "'x executor \<Rightarrow> ('x, Datastore list) op" where
  "c_Datastores ex = c_bind (command ex ''datastores'' [''esxcli'', ''storage'', ''filesystem'', ''list'']) (\<lambda>s. c_lift (ParseDatastores s))"

definition c_Autostart :: "'x executor \<Rightarrow> ('x, (int, AutoStart) gomap) op" where
  "c_Autostart ex = c_bind (command ex ''autostart-sequence'' [''vim-cmd'', ''hostsvc/autostartmanager/get_autostartseq'']) (\<lambda>s. c_lift (ParseAutostart s))"

definition c_MarkRunning :: "'x executor \<Rightarrow> VM list \<Rightarrow> Datastore list \<Rightarrow> ('x, VM list) op" where
  "c_MarkRunning ex vms ds = c_bind (c_attempt (command ex ''running-vms'' [''esxcli'', ''vm'', ''process'', ''list''])) (\<lambda>r. c_ret (mark_running r ds vms))"

definition required_commands :: "string list" where
  "required_commands = [''vim-cmd'', ''vmkfstools'', ''esxcli'', ''readlink'', ''find'', ''stat'', ''du'', ''nohup'', ''sh'', ''head'', ''tail'', ''mkdir'', ''mv'', ''cat'', ''test'', ''kill'']"

definition capability :: "'x executor \<Rightarrow> string \<Rightarrow> ('x, unit) op" where
  "capability ex name = c_bind (c_attempt (run ex ''capability'' (''which '' @ Quote name) [])) (\<lambda>r. case r of
     Inl e \<Rightarrow> c_fail (''required ESXi command unavailable: '' @ name @ '' ('' @ err_text e @ '')'')
   | Inr _ \<Rightarrow> c_ret ())"

section \<open>The operation lock\<close>

definition RuntimeDir :: string where "RuntimeDir = ''/tmp/esxi-mover''"
definition activeDir :: string where "activeDir = RuntimeDir @ ''/active''"

text \<open>\<open>^[a-f0-9]{32}$\<close>\<close>

definition jobIDPattern :: "string \<Rightarrow> bool" where
  "jobIDPattern s = (length s = 32 \<and> list_all lower_hex s)"

definition existing_script :: string where
  "existing_script = ''if '' @ Argv [''test'', ''-e'', activeDir] @ (''; then printf '' @ [sq] @ ''Existing ESXi Mover operation detected.'' @ [nl, sq] @ ''; '') @
     Argv [''find'', activeDir, ''-maxdepth'', ''1'', ''-type'', ''f'', ''-print''] @ ''; for f in '' @ Quote activeDir @ ''/*.meta '' @ Quote activeDir @
     (''/*.exit; do if [ -f '' @ [dq] @ ''$f'' @ [dq] @ '' ]; then head -c 4096 '' @ [dq] @ ''$f'' @ [dq] @ ''; printf '' @ [sq, nl, sq] @ ''; fi; done; fi'')"

definition Existing :: "'x executor \<Rightarrow> ('x, string) op" where
  "Existing ex = c_bind (run ex ''existing-operation'' existing_script []) (\<lambda>r. c_ret (ex_Redact ex (rs_Stdout r)))"

definition c_Inventory :: "'x executor \<Rightarrow> ('x, Inventory) op" where
  "c_Inventory ex = c_bind (command ex ''version'' [''vmware'', ''-vl'']) (\<lambda>v.
     c_bind (c_each (capability ex) required_commands) (\<lambda>_.
     c_bind (c_VMs ex) (\<lambda>vms. c_bind (c_Datastores ex) (\<lambda>ds. c_bind (Existing ex) (\<lambda>existing.
       c_ret \<lparr>inv_Capabilities = \<lparr>cap_Version = trim_space v, cap_Supported = match_string versionPattern v, cap_Commands = required_commands\<rparr>,
         inv_VMs = vms, inv_Datastores = ds, inv_ExistingOperation = existing\<rparr>)))))"

definition acquire_script :: string where
  "acquire_script = ''umask 077; '' @ Argv [''mkdir'', ''-p'', RuntimeDir] @ '' && '' @ Argv [''test'', ''!'', ''-L'', RuntimeDir] @ '' && '' @
     Argv [''mkdir'', activeDir] @ '' && '' @ Argv [''sh'', ''-c'', ''cat > '' @ Quote (activeDir @ ''/job.meta'')]"

definition c_Acquire :: "'x executor \<Rightarrow> string \<Rightarrow> string \<Rightarrow> ('x, unit) op" where
  "c_Acquire ex i m = c_require (jobIDPattern i) ''invalid operation ID''
     (c_bind (run ex ''acquire-operation-lock'' acquire_script (''job='' @ i @ [nl] @ m)) (\<lambda>_. c_ret ()))"

text \<open>The lock's metadata says who owns it.\<close>

definition owns_lock :: "string result \<Rightarrow> string \<Rightarrow> bool" where
  "owns_lock m i = (case m of Inl _ \<Rightarrow> False | Inr t \<Rightarrow> has_prefix t (''job='' @ i @ [nl]))"

definition require_lock :: "'x executor \<Rightarrow> string \<Rightarrow> ('x, 'a) op \<Rightarrow> ('x, 'a) op" where
  "require_lock ex i k = c_bind (c_attempt (ReadFile ex (activeDir @ ''/job.meta''))) (\<lambda>m.
     c_require (owns_lock m i) ''operation lock ownership changed'' k)"

definition c_Finish :: "'x executor \<Rightarrow> string \<Rightarrow> ('x, unit) op" where
  "c_Finish ex i = c_require (jobIDPattern i) ''invalid operation ID'' (require_lock ex i
     (c_bind (run ex ''archive-completed-operation'' (Argv [''mv'', activeDir, RuntimeDir @ ''/completed-'' @ i]) []) (\<lambda>_. c_ret ())))"

section \<open>The target folder\<close>

definition c_CreateTarget :: "'x executor \<Rightarrow> string \<Rightarrow> ('x, unit) op" where
  "c_CreateTarget ex dir = c_require (TargetPath dir) ''invalid target directory''
     (c_bind (c_attempt (Canonical ex (path_dir dir))) (\<lambda>canonical.
      c_require (canonical = Inr (path_dir dir)) ''target parent changed or is not canonical''
        (done_with (command ex ''create-target'' [''mkdir'', dir]))))"

definition checkTarget :: "'x executor \<Rightarrow> string \<Rightarrow> ('x, unit) op" where
  "checkTarget ex dir = c_require (TargetPath dir) ''invalid target directory''
     (c_bind (c_attempt (Canonical ex dir)) (\<lambda>canonical. c_require (canonical = Inr dir) ''target directory changed'' (c_ret ())))"

definition config_exts :: "string list" where "config_exts = [''.vmx'', ''.nvram'', ''.vmxf'', ''.vmsd'']"
definition snapshot_exts :: "string list" where "snapshot_exts = [''.vmdk'', ''.vmsd'', ''.vmsn'']"

definition c_WriteTarget :: "'x executor \<Rightarrow> string \<Rightarrow> string \<Rightarrow> string \<Rightarrow> ('x, unit) op" where
  "c_WriteTarget ex dir name data = c_bind (checkTarget ex dir) (\<lambda>_.
     c_require (name = path_base name \<and> ValidPath name = None) ''invalid target config name''
     (c_require (to_lower (path_ext name) \<in> set config_exts) ''only configuration files may be written''
       (c_bind (run ex ''write-target-config'' (''umask 077; set -C; cat > '' @ Quote (path_join [dir, name])) data) (\<lambda>_. c_ret ()))))"

definition c_CopyToTarget :: "'x executor \<Rightarrow> string \<Rightarrow> string \<Rightarrow> ('x, unit) op" where
  "c_CopyToTarget ex source dir = c_bind (checkTarget ex dir) (\<lambda>_. let name = path_base source; target = path_join [dir, name] in
     c_require (ValidPath source = None \<and> has_prefix source ''/vmfs/volumes/'' \<and> ValidPath name = None) ''invalid snapshot file''
     (c_require (to_lower (path_ext name) \<in> set snapshot_exts) ''only snapshot files may be copied''
       (c_bind (runFor ex (4 * hour) ''copy-snapshot-file'' (Argv [''test'', ''!'', ''-e'', target] @ '' && '' @ Argv [''cp'', source, target]) []) (\<lambda>_. c_ret ()))))"

section \<open>Clones\<close>

definition clone_prefix :: "int \<Rightarrow> string" where
  "clone_prefix index = activeDir @ ''/disk-'' @ itoa index"

text \<open>The detached worker: with \<open>requireOff\<close> it clones only when the VM's power state is read as off at that moment.\<close>

definition clone_part :: "string \<Rightarrow> string \<Rightarrow> string \<Rightarrow> string" where
  "clone_part pre source target = Argv [''vmkfstools'', ''-i'', source, target, ''-d'', ''thin''] @ ('' &'' @ [nl] @ ''printf '' @ [sq] @ ''%s'' @ [backslash] @ ''n'' @ [sq] @ '' '' @ [dq] @ ''$!'' @ [dq] @ '' > '') @ Quote (pre @ ''.clonepid'') @ ([nl] @ ''wait '' @ [dq] @ ''$!'' @ [dq, nl] @ ''rc=$?'' @ [nl])"

definition off_part :: "int \<Rightarrow> string \<Rightarrow> string" where
  "off_part vmID clone = ''state=$('' @ Argv [''vim-cmd'', ''vmsvc/power.getstate'', itoa vmID] @ ('')'' @ [nl] @ ''rc=$?'' @ [nl]) @
     (''if [ '' @ [dq] @ ''$rc'' @ [dq] @ '' -eq 0 ]; then'' @ [nl] @ ''case '' @ [dq] @ ''$state'' @ [dq] @ '' in'' @ [nl, sq] @ ''Powered off'' @ [sq] @ ''|'' @ [sq] @ ''Retrieved runtime info'' @ [nl] @ ''Powered off'' @ [sq] @ '')'' @ [nl]) @
     clone @ ('';;'' @ [nl] @ ''*) rc=92 ;;'' @ [nl] @ ''esac'' @ [nl] @ ''fi'' @ [nl])"

definition worker_body :: "string \<Rightarrow> string \<Rightarrow> string" where
  "worker_body pre clone = (''umask 077'' @ [nl] @ ''printf '' @ [sq] @ ''%s'' @ [backslash] @ ''n'' @ [sq] @ '' '' @ [dq] @ ''$$'' @ [dq] @ '' > '') @ Quote (pre @ ''.pid'') @ [nl] @ clone @
     (''printf '' @ [sq] @ ''%s'' @ [backslash] @ ''n'' @ [sq] @ '' '' @ [dq] @ ''$rc'' @ [dq] @ '' > '') @ Quote (pre @ ''.exit.tmp'') @ '' && '' @ Argv [''mv'', pre @ ''.exit.tmp'', pre @ ''.exit''] @ [nl]"

definition start_script :: "int \<Rightarrow> int \<Rightarrow> string \<Rightarrow> string \<Rightarrow> bool \<Rightarrow> string" where
  "start_script index vmID source target requireOff =
     (let pre = clone_prefix index; clone = clone_part pre source target;
          body = worker_body pre (if requireOff then off_part vmID clone else clone)
      in ''umask 077; '' @ Argv [''mkdir'', pre @ ''.started''] @ ('' || exit 90'' @ [nl]) @
         Argv [''nohup'', ''sh'', ''-c'', body] @ '' > '' @ Quote (pre @ ''.log'') @ ('' 2>&1 < /dev/null &'' @ [nl]))"

definition c_StartClone :: "'x executor \<Rightarrow> string \<Rightarrow> int \<Rightarrow> int \<Rightarrow> string \<Rightarrow> string \<Rightarrow> bool \<Rightarrow> ('x, unit) op" where
  "c_StartClone ex i index vmID source target requireOff =
     c_require (jobIDPattern i \<and> 0 \<le> index \<and> 0 < vmID \<and> path_ext source = ''.vmdk'' \<and> path_ext target = ''.vmdk'') ''invalid clone request''
     (c_bind (checkTarget ex (path_dir target)) (\<lambda>_. require_lock ex i
       (c_bind (run ex ''start-detached-clone'' (start_script index vmID source target requireOff) []) (\<lambda>_. c_ret ()))))"

definition stop_script :: "int \<Rightarrow> string" where
  "stop_script index = (let pre = clone_prefix index in
     ''if [ -f '' @ Quote (pre @ ''.exit'') @ ('' ]; then exit 0; fi'' @ [nl]) @
     ''p=$(cat '' @ Quote (pre @ ''.clonepid'') @ ('')'' @ [nl]) @
     (''case '' @ [dq] @ ''$p'' @ [dq] @ '' in '' @ [sq, sq] @ ''|*[!0-9]*) exit 1;; esac'' @ [nl] @ ''kill '' @ [dq] @ ''$p'' @ [dq, nl]))"

definition c_StopClone :: "'x executor \<Rightarrow> int \<Rightarrow> ('x, unit) op" where
  "c_StopClone ex index = c_require (0 \<le> index) ''invalid clone index'' (c_bind (run ex ''stop-clone'' (stop_script index) []) (\<lambda>_. c_ret ()))"

definition status_script :: "int \<Rightarrow> string" where
  "status_script index = (let pre = clone_prefix index in
     ''if [ -f '' @ Quote (pre @ ''.exit'') @ ('' ]; then printf '' @ [sq] @ ''DONE '' @ [sq] @ ''; cat '') @ Quote (pre @ ''.exit'') @
     ''; elif [ -f '' @ Quote (pre @ ''.pid'') @ '' ]; then p=$(cat '' @ Quote (pre @ ''.pid'') @
     (''); case '' @ [dq] @ ''$p'' @ [dq] @ '' in '' @ [sq, sq] @ ''|*[!0-9]*) printf '' @ [sq] @ ''UNKNOWN'' @ [backslash] @ ''n'' @ [sq] @ '';; *) if kill -0 '' @ [dq] @ ''$p'' @ [dq] @ '' 2>/dev/null; then printf '' @ [sq] @ ''RUNNING'' @ [backslash] @ ''n'' @ [sq] @ ''; else printf '' @ [sq] @ ''LOST'' @ [backslash] @ ''n'' @ [sq] @ ''; fi;; esac; else printf '' @ [sq] @ ''STARTING'' @ [backslash] @ ''n'' @ [sq] @ ''; fi'' @ [nl] @ ''if [ -f '') @
     Quote (pre @ ''.log'') @ '' ]; then tail -c 8192 '' @ Quote (pre @ ''.log'') @ ''; fi'')"

text \<open>What the status command printed: one line on the worker, then the end of its log.\<close>

definition clone_answer :: "(string \<Rightarrow> string) \<Rightarrow> string \<Rightarrow> CloneStatus result" where
  "clone_answer redact out =
     (let (line, log, _) = cut out [nl];
          status = \<lparr>cl_Done = False, cl_Alive = False, cl_ExitCode = 0, cl_Progress = Progress log, cl_Log = redact log\<rparr>
      in if has_prefix line ''DONE '' then
           (case parse_int64 (trim_space (trim_prefix line ''DONE '')) of
              None \<Rightarrow> Inl (Errorf ''invalid detached exit code'')
            | Some n \<Rightarrow> if n < 0 \<or> n > 255 then Inl (Errorf ''invalid detached exit code'')
                else Inr (status\<lparr>cl_Done := True, cl_ExitCode := n\<rparr>))
         else if line = ''RUNNING'' \<or> line = ''STARTING'' then Inr (status\<lparr>cl_Alive := True\<rparr>)
         else Inl (Errorf ''detached process status is unknown; manual inspection required''))"

definition c_CloneStatus :: "'x executor \<Rightarrow> int \<Rightarrow> ('x, CloneStatus) op" where
  "c_CloneStatus ex index = c_bind (run ex ''poll-detached-clone'' (status_script index) []) (\<lambda>r. c_lift (clone_answer (ex_Redact ex) (rs_Stdout r)))"

section \<open>The client as the engine's host\<close>

text \<open>What the engine has beside its host: the end of a pause, and the operator.\<close>

record 'x surroundings =
  su_pause :: "int \<Rightarrow> ('x, unit) act"
  su_operator :: "'x \<Rightarrow> request list \<times> 'x"
  su_wake :: "'x \<Rightarrow> wake \<times> 'x"

definition outside :: "('x \<Rightarrow> 'a \<times> 'x) \<Rightarrow> 'x client \<Rightarrow> 'a \<times> 'x client" where
  "outside f s = (case f (cn_world s) of (a, x) \<Rightarrow> (a, s\<lparr>cn_world := x\<rparr>))"

definition client_host :: "'x executor \<Rightarrow> 'x surroundings \<Rightarrow> 'x client host" where
  "client_host ex su = \<lparr>h_Inventory = c_Inventory ex, h_VMs = c_VMs ex, h_Datastores = c_Datastores ex, h_ReadFile = ReadFile ex,
     h_Exists = Exists ex, h_Canonical = Canonical ex, h_List = List_dir ex, h_Size = Size ex, h_Allocated = Allocated ex,
     h_Power = c_Power ex, h_Snapshot = c_Snapshot ex, h_ToolsRunning = c_ToolsRunning ex, h_Autostart = c_Autostart ex,
     h_Shutdown = c_Shutdown ex, h_ForceOff = c_ForceOff ex, h_VerifyChain = VerifyChain ex, h_Acquire = c_Acquire ex,
     h_Finish = c_Finish ex, h_CreateTarget = c_CreateTarget ex, h_WriteTarget = c_WriteTarget ex, h_StartClone = c_StartClone ex,
     h_CloneStatus = c_CloneStatus ex, h_StopClone = c_StopClone ex, h_Unregister = c_Unregister ex, h_Register = c_Register ex,
     h_PowerOn = c_PowerOn ex, h_Message = c_Message ex, h_Answer = c_Answer ex, h_CreateSnapshot = c_CreateSnapshot ex,
     h_ConsolidateOwnSnapshot = c_ConsolidateOwnSnapshot ex, h_CopyToTarget = c_CopyToTarget ex,
     h_now = outside (ex_now ex), h_pause = (\<lambda>d. outside (su_pause su d)), h_operator = outside (su_operator su), h_wake = outside (su_wake su)\<rparr>"

end
