(* ===== verification/Shell_Reader.thy ===== *)
theory Shell_Reader
  imports Esxi_Client
begin

text \<open>
  What a shell makes of the scripts of \<open>Esxi_Client\<close>: a reader of the shell command language that is not the code's, which
  splits a script into the programs it runs with their arguments and the files it writes, and the judgement
  \<open>deletes_nothing\<close> on what it finds. Everything that the reader does not know is refused, so such a script runs the
  listed programs only, and with the listed arguments. The theorems on the client's commands use it.
\<close>

section \<open>Reading a script\<close>

text \<open>
  \<open>Into\<close> and \<open>From\<close> are the redirections, \<open>Copy\<close> is the one of a descriptor, \<open>Break\<close> ends a command, and
  \<open>Unread\<close> is what the reader does not know.
\<close>

datatype token = Word string | Into | From | Copy | Break | Unread

definition flush :: "bool \<Rightarrow> string \<Rightarrow> token list" where
  "flush inword acc = (if inword then [Word (rev acc)] else [])"

text \<open>Operators end a command, the parentheses of a command substitution among them: what is inside is read like the rest.\<close>

definition sh_break :: "char \<Rightarrow> bool" where
  "sh_break c = (c \<in> set '';&|()'' \<or> c = nl)"

text \<open>A number just before a redirection is a descriptor, not an argument.\<close>

definition before_redirection :: "bool \<Rightarrow> string \<Rightarrow> token list" where
  "before_redirection inword acc = (if list_all is_digit acc then [] else flush inword acc)"

text \<open>An assignment to a variable with a name in lower case.\<close>

definition assigns :: "string \<Rightarrow> bool" where
  "assigns w = (takeWhile is_lower w \<noteq> [] \<and> has_prefix (dropWhile is_lower w) ''='')"

text \<open>
  Outside double quotes, where its value would be split into words, nothing is expanded but the status of the last command; a
  command is substituted only into an assignment.
\<close>

definition expands :: "string \<Rightarrow> string \<Rightarrow> bool" where
  "expands acc cs = (case cs of [] \<Rightarrow> False | d # ds \<Rightarrow> d = CHR ''?'' \<or> d = CHR ''('' \<and> assigns (rev acc))"

fun tokens :: "quoting \<Rightarrow> bool \<Rightarrow> string \<Rightarrow> string \<Rightarrow> token list" where
  "tokens Bare inword acc [] = flush inword acc"
| "tokens Single inword acc [] = [Unread]"
| "tokens Double inword acc [] = [Unread]"
| "tokens Bare inword acc (c # cs) =
     (if c = sq then tokens Single True acc cs
      else if c = dq then tokens Double True acc cs
      else if c = CHR '' '' then flush inword acc @ tokens Bare False [] cs
      else if sh_break c then flush inword acc @ Break # tokens Bare False [] cs
      else if c = CHR ''>'' then before_redirection inword acc @
        (case cs of [] \<Rightarrow> [Unread] | d # ds \<Rightarrow> if d = CHR ''&'' then Copy # tokens Bare False [] ds else Into # tokens Bare False [] cs)
      else if c = CHR ''<'' then before_redirection inword acc @ From # tokens Bare False [] cs
      else if c = CHR ''$'' then (if expands acc cs then tokens Bare True (c # acc) cs else [Unread])
      else if c = backslash \<or> c = CHR 0x60 \<or> c = CHR ''#'' \<or> c = CHR ''{'' \<or> c = CHR ''}'' \<or> c = CHR ''~'' then [Unread]
      else tokens Bare True (c # acc) cs)"
| "tokens Single inword acc (c # cs) =
     (if c = sq then tokens Bare True acc cs else tokens Single True (c # acc) cs)"
| "tokens Double inword acc (c # cs) =
     (if c = dq then tokens Bare True acc cs
      else if c = backslash \<or> c = CHR 0x60 \<or> c = CHR ''('' \<or> c = CHR ''{'' then [Unread]
      else tokens Double True (c # acc) cs)"

text \<open>The commands of a script.\<close>

fun split_breaks :: "token list \<Rightarrow> token list list" where
  "split_breaks [] = [[]]"
| "split_breaks (t # ts) = (if t = Break then [] # split_breaks ts else (case split_breaks ts of c # cs \<Rightarrow> (t # c) # cs | [] \<Rightarrow> [[t]]))"

text \<open>The words of a command, and the files it writes to.\<close>

fun parts :: "token list \<Rightarrow> string list \<times> string list" where
  "parts [] = ([], [])"
| "parts (Word w # ts) = (case parts ts of (ws, outs) \<Rightarrow> (w # ws, outs))"
| "parts (Into # Word f # ts) = (case parts ts of (ws, outs) \<Rightarrow> (ws, f # outs))"
| "parts (From # Word f # ts) = parts ts"
| "parts (Copy # Word n # ts) = (case parts ts of (ws, outs) \<Rightarrow> (ws, if list_all is_digit n then outs else n # outs))"
| "parts (t # ts) = (case parts ts of (ws, outs) \<Rightarrow> (ws, [] # outs))"

section \<open>What does no harm\<close>

text \<open>Words of the language itself that stand before a program.\<close>

definition reserved_words :: "string list" where
  "reserved_words = [''if'', ''then'', ''elif'', ''else'', ''fi'', ''do'', ''done'', ''esac'']"

fun reserved :: "token \<Rightarrow> bool" where
  "reserved (Word w) = (w \<in> set reserved_words)"
| "reserved _ = False"

text \<open>Commands of one word that run no program: the patterns of the branches of a \<open>case\<close>, and assignments.\<close>

definition case_patterns :: "string list" where
  "case_patterns = [[], ''*'', ''*[!0-9]*'', ''Powered off'', ''Retrieved runtime info'' @ [nl] @ ''Powered off'']"

text \<open>Programs, and words of the shell, that delete nothing with any arguments.\<close>

definition onlookers :: "string list" where
  "onlookers = [''head'', ''tail'', ''cat'', ''readlink'', ''stat'', ''du'', ''test'', ''['', ''which'', ''vmware'', ''printf'', ''kill'', ''mkdir'',
     ''umask'', ''set'', ''wait'', ''exit'', ''for'', ''case'']"

definition absolute :: "string \<Rightarrow> bool" where
  "absolute p = has_prefix p ''/''"

text \<open>A file of the tool's own runtime folder.\<close>

fun no_dot_names :: "string \<Rightarrow> bool" where
  "no_dot_names (c # d # cs) = (\<not> (c = slash \<and> d = CHR ''.'') \<and> no_dot_names (d # cs))"
| "no_dot_names cs = True"

definition own_file :: "string \<Rightarrow> bool" where
  "own_file f = (has_prefix f ''/tmp/esxi-mover/'' \<and> no_dot_names f)"

text \<open>\<open>find\<close> with these expressions prints, and does nothing else; what begins with a slash is no expression.\<close>

definition find_prints :: "string list \<Rightarrow> bool" where
  "find_prints args = (case args of d # es \<Rightarrow> absolute d \<and> list_all (\<lambda>e. e \<in> set [''-mindepth'', ''-maxdepth'', ''1'', ''-type'', ''f'', ''-print'', ''-print0'']) es | [] \<Rightarrow> False)"

text \<open>\<open>vmkfstools\<close> checks a disk or clones one to a new file.\<close>

definition vmkfstools_keeps :: "string list \<Rightarrow> bool" where
  "vmkfstools_keeps args = (case args of
      [e, p] \<Rightarrow> e = ''-e'' \<and> absolute p
    | [i, _, target, d, thin] \<Rightarrow> i = ''-i'' \<and> absolute target \<and> d = ''-d'' \<and> thin = ''thin''
    | _ \<Rightarrow> False)"

definition vim_verbs :: "string list" where
  "vim_verbs = [''vmsvc/getallvms'', ''vmsvc/get.config'', ''vmsvc/get.guest'', ''vmsvc/message'', ''vmsvc/power.getstate'', ''vmsvc/power.shutdown'',
     ''vmsvc/power.off'', ''vmsvc/power.on'', ''vmsvc/unregister'', ''vmsvc/snapshot.get'', ''vmsvc/snapshot.create'', ''vmsvc/snapshot.removeall'',
     ''solo/registervm'', ''hostsvc/autostartmanager/get_autostartseq'']"

text \<open>One command; \<open>sub\<close> judges a script that it hands to another shell, and \<open>prior\<close> is the command before it.\<close>

definition keeps_files :: "(string \<Rightarrow> bool) \<Rightarrow> string list \<Rightarrow> string list \<Rightarrow> bool" where
  "keeps_files sub prior ws = (case ws of
      [] \<Rightarrow> True
    | p # args \<Rightarrow>
        if p \<in> set onlookers then True
        else if p = ''find'' then find_prints args
        else if p = ''vmkfstools'' then vmkfstools_keeps args
        else if p = ''vim-cmd'' then (case args of verb # _ \<Rightarrow> verb \<in> set vim_verbs | [] \<Rightarrow> False)
        else if p = ''esxcli'' then args = [''storage'', ''filesystem'', ''list''] \<or> args = [''vm'', ''process'', ''list'']
        else if p = ''mv'' then (case args of [a, b] \<Rightarrow> own_file a \<and> own_file b | _ \<Rightarrow> False)
        else if p = ''cp'' then (case args of [a, b] \<Rightarrow> absolute a \<and> absolute b \<and> prior = [''test'', ''!'', ''-e'', b] | _ \<Rightarrow> False)
        else if p = ''sh'' then (case args of [c, body] \<Rightarrow> c = ''-c'' \<and> sub body | _ \<Rightarrow> False)
        else if p = ''nohup'' then (case args of [s, c, body] \<Rightarrow> s = ''sh'' \<and> c = ''-c'' \<and> sub body | _ \<Rightarrow> False)
        else args = [] \<and> (p \<in> set case_patterns \<or> assigns p))"

text \<open>
  The commands of a script in their order. It writes to files of the runtime folder, and after \<open>set -C\<close>, which keeps a
  file that exists, to any.
\<close>

fun keep_files :: "(string \<Rightarrow> bool) \<Rightarrow> bool \<Rightarrow> string list \<Rightarrow> token list list \<Rightarrow> bool" where
  "keep_files sub noclobber prior [] = True"
| "keep_files sub noclobber prior (c # cs) =
     (case parts (dropWhile reserved c) of (ws, outs) \<Rightarrow>
        list_all (\<lambda>f. noclobber \<or> own_file f \<or> f = ''/dev/null'') outs \<and> keeps_files sub prior ws \<and>
        keep_files sub (noclobber \<or> ws = [''set'', ''-C'']) (if ws = [] then prior else ws) cs)"

definition runs_gently :: "(string \<Rightarrow> bool) \<Rightarrow> string \<Rightarrow> bool" where
  "runs_gently sub script = (let ts = tokens Bare False [] script in Unread \<notin> set ts \<and> keep_files sub False [] (split_breaks ts))"

text \<open>A script may hand one to another shell, which runs no third one.\<close>

definition deletes_nothing :: "string \<Rightarrow> bool" where
  "deletes_nothing = runs_gently (runs_gently (\<lambda>_. False))"

section \<open>The scripts of the client\<close>

text \<open>A quoted part is one word, or part of one, whatever it holds.\<close>

lemma tokens_quoted:
  "tokens Single w acc (concat (map (\<lambda>x. if x = sq then quote_gap else [x]) s) @ sq # rest) = tokens Bare True (rev s @ acc) rest"
  by (induction s arbitrary: acc w) (auto simp: quote_gap_def)

lemma tokens_Quote: "tokens Bare w acc (Quote s @ rest) = tokens Bare True (rev s @ acc) rest"
  by (simp add: Quote_def replace_all_single tokens_quoted)

lemma tokens_Quote_end: "tokens Bare w acc (Quote s) = [Word (rev acc @ s)]"
  using tokens_Quote [of w acc s "[]"] by (simp add: flush_def)

text \<open>Names of files of the runtime folder.\<close>

lemma no_dot_skip: "c \<noteq> slash \<Longrightarrow> no_dot_names (c # cs) = no_dot_names cs"
  by (cases cs) auto

lemma no_dot_plain: "slash \<notin> set xs \<Longrightarrow> no_dot_names (xs @ ys) = no_dot_names ys"
  by (induction xs) (auto simp: no_dot_skip)

lemma no_slash_itoa: "slash \<notin> set (itoa i)"
  using nat_digits_digits [of "nat i"] nat_digits_digits [of "nat (- i)"] by (auto simp: itoa_def is_digit_def between_def byte_def)

lemma own_clone_file: "slash \<notin> set ext \<Longrightarrow> own_file (clone_prefix index @ ext)"
  by (simp add: own_file_def clone_prefix_def activeDir_def RuntimeDir_def no_dot_skip no_dot_plain [OF no_slash_itoa] no_dot_plain [where ys = "[]", simplified])

lemmas read_simps = tokens_Quote tokens_Quote_end flush_def before_redirection_def sh_break_def expands_def assigns_def
  is_lower_def is_digit_def between_def byte_def
lemmas judge_simps = keeps_files_def onlookers_def find_prints_def vmkfstools_keeps_def vim_verbs_def reserved_words_def case_patterns_def
  own_clone_file

text \<open>A command line without operators is one command.\<close>

lemma tokens_Argv: "tokens Bare False [] (Argv args) = map Word args"
proof (induction args rule: induct_list012)
  case (3 x y zs)
  have "Argv (x # y # zs) = Quote x @ CHR '' '' # Argv (y # zs)" by (simp add: Argv_def)
  with 3 show ?case by (simp add: tokens_Quote flush_def)
qed (simp_all add: Argv_def flush_def tokens_Quote_end)

lemma split_words: "split_breaks (map Word ws) = [map Word ws]"
  by (induction ws) auto

lemma parts_words: "parts (map Word ws) = (ws, [])"
  by (induction ws) auto

lemma gently_Argv: "p \<notin> set reserved_words \<Longrightarrow> runs_gently sub (Argv (p # args)) = keeps_files sub [] (p # args)"
proof -
  assume "p \<notin> set reserved_words"
  then have "dropWhile reserved (map Word (p # args)) = map Word (p # args)" by simp
  moreover have "Unread \<notin> set (map Word (p # args))" by auto
  ultimately show ?thesis
    by (simp only: runs_gently_def tokens_Argv Let_def split_words keep_files.simps parts_words list.pred_inject prod.case simp_thms)
qed

lemma harmless_Argv: "p \<notin> set reserved_words \<Longrightarrow> keeps_files (runs_gently (\<lambda>_. False)) [] (p # args) \<Longrightarrow> deletes_nothing (Argv (p # args))"
  by (simp add: deletes_nothing_def gently_Argv)

text \<open>The scripts with operators.\<close>

lemma harmless_status: "deletes_nothing (status_script index)"
  unfolding deletes_nothing_def runs_gently_def status_script_def Let_def
  by (simp add: read_simps judge_simps)

lemma harmless_stop: "deletes_nothing (stop_script index)"
  unfolding deletes_nothing_def runs_gently_def stop_script_def Let_def
  by (simp add: read_simps judge_simps)

lemma harmless_existing: "deletes_nothing existing_script"
  by code_simp

lemma harmless_acquire: "deletes_nothing acquire_script"
  by code_simp

lemma harmless_exists: "deletes_nothing (''if '' @ Argv [''test'', ''-e'', p] @ ''; then printf yes; else printf no; fi'')"
  unfolding deletes_nothing_def runs_gently_def Argv_def Let_def
  by (simp add: read_simps judge_simps)

lemma harmless_capability: "deletes_nothing (''which '' @ Quote name)"
  unfolding deletes_nothing_def runs_gently_def Let_def
  by (simp add: read_simps judge_simps)

lemma harmless_write: "deletes_nothing (''umask 077; set -C; cat > '' @ Quote p)"
  unfolding deletes_nothing_def runs_gently_def Let_def
  by (simp add: read_simps judge_simps)

lemma harmless_copy: "absolute source \<Longrightarrow> absolute target \<Longrightarrow> deletes_nothing (Argv [''test'', ''!'', ''-e'', target] @ '' && '' @ Argv [''cp'', source, target])"
  unfolding deletes_nothing_def runs_gently_def Argv_def Let_def
  by (simp add: read_simps judge_simps)

lemma gently_worker:
  assumes "absolute target"
  shows "runs_gently sub (worker_body (clone_prefix index) (clone_part (clone_prefix index) source target))"
    "runs_gently sub (worker_body (clone_prefix index) (off_part vmID (clone_part (clone_prefix index) source target)))"
  using assms unfolding runs_gently_def worker_body_def off_part_def clone_part_def Argv_def Let_def
  by (simp_all add: read_simps judge_simps)

lemma harmless_start: "absolute target \<Longrightarrow> deletes_nothing (start_script index vmID source target requireOff)"
  unfolding deletes_nothing_def runs_gently_def [of "runs_gently _"] start_script_def Argv_def Let_def
  by (simp add: read_simps judge_simps gently_worker)

end
