(* ===== verification/Client_Safety.thy ===== *)
theory Client_Safety
  imports Shell_Reader
begin

text \<open>
  What the ESXi client sends. \<open>sent_ok\<close> lists the exact commands, word by word, each with what must have
  been read just before it; whatever operations are called, in any order and with any arguments, and whatever the
  executor answers, every command is one of these. And for absolute paths each script \<open>deletes_nothing\<close>, in the sense of
  \<open>Shell_Reader\<close>: what a shell reads in it deletes no file and no VM. Beside it, what the answers of the client promise.
\<close>

section \<open>The commands\<close>

type_synonym sent_log = "(Command \<times> Result result) list"

abbreviation cmd :: "string \<Rightarrow> string \<Rightarrow> string \<Rightarrow> Command" where
  "cmd c s i \<equiv> \<lparr>cm_Category = c, cm_Script = s, cm_Input = i\<rparr>"

text \<open>The newest command of a log was this one, and it was answered so.\<close>

fun answered :: "Command \<Rightarrow> (string \<Rightarrow> bool) \<Rightarrow> sent_log \<Rightarrow> bool" where
  "answered c P ((c', Inr r) # log) = (c' = c \<and> P (rs_Stdout r))"
| "answered c P log = False"

definition canonical_seen :: "string \<Rightarrow> sent_log \<Rightarrow> bool" where
  "canonical_seen d = answered (cmd ''canonical-path'' (Argv [''readlink'', ''-f'', d]) []) (\<lambda>s. canonical_answer s = Inr d)"

definition lock_seen :: "string \<Rightarrow> sent_log \<Rightarrow> bool" where
  "lock_seen i = answered (cmd ''read-file'' (Argv [''head'', ''-c'', ''1048577'', activeDir @ ''/job.meta'']) []) (\<lambda>s. has_prefix s (''job='' @ i @ [nl]))"

definition own_tree_seen :: "int \<Rightarrow> string \<Rightarrow> sent_log \<Rightarrow> bool" where
  "own_tree_seen i name = answered (cmd ''snapshot-state'' (Argv [''vim-cmd'', ''vmsvc/snapshot.get'', itoa i]) []) (\<lambda>s. SnapshotNames s = Inr [name])"

text \<open>Commands that only look: those without arguments, those on a file, and those on a VM.\<close>

definition general_looks :: "(string \<times> string list) set" where
  "general_looks = {(''inventory'', [''vim-cmd'', ''vmsvc/getallvms'']), (''datastores'', [''esxcli'', ''storage'', ''filesystem'', ''list'']),
     (''running-vms'', [''esxcli'', ''vm'', ''process'', ''list'']), (''version'', [''vmware'', ''-vl'']),
     (''autostart-sequence'', [''vim-cmd'', ''hostsvc/autostartmanager/get_autostartseq''])}"

definition file_looks :: "(string \<times> string list) set" where
  "file_looks = {(''read-file'', [''head'', ''-c'', ''1048577'']), (''canonical-path'', [''readlink'', ''-f'']),
     (''file-size'', [''stat'', ''-c'', ''%s'']), (''allocated-size'', [''du'', ''-k''])}"

definition vm_looks :: "(string \<times> string) set" where
  "vm_looks = {(''power-state'', ''vmsvc/power.getstate''), (''snapshot-state'', ''vmsvc/snapshot.get''), (''tools-status'', ''vmsvc/get.guest''),
     (''vm-question'', ''vmsvc/message''), (''vm-identity'', ''vmsvc/get.config'')}"

text \<open>Commands that change the state of one VM.\<close>

definition vm_changes :: "(string \<times> string) set" where
  "vm_changes = {(''graceful-shutdown'', ''vmsvc/power.shutdown''), (''explicit-force-off'', ''vmsvc/power.off''), (''unregister'', ''vmsvc/unregister''),
     (''power-on'', ''vmsvc/power.on'')}"

text \<open>\<open>Q\<close> is true of the folders that may be listed and the disks that may be checked.\<close>

inductive sent_ok :: "(string \<Rightarrow> bool) \<Rightarrow> sent_log \<Rightarrow> Command \<Rightarrow> bool" for Q where
  sent_general: "(c, ws) \<in> general_looks \<Longrightarrow> sent_ok Q log (cmd c (Argv ws) [])"
| sent_file: "(c, ws) \<in> file_looks \<Longrightarrow> sent_ok Q log (cmd c (Argv (ws @ [p])) [])"
| sent_vm: "(c, verb) \<in> vm_looks \<Longrightarrow> sent_ok Q log (cmd c (Argv [''vim-cmd'', verb, itoa i]) [])"
| sent_list: "Q dir \<Longrightarrow> sent_ok Q log (cmd ''list-directory'' (Argv [''find'', dir, ''-mindepth'', ''1'', ''-maxdepth'', ''1'', ''-print0'']) [])"
| sent_verify: "Q p \<Longrightarrow> sent_ok Q log (cmd ''verify-chain'' (Argv [''vmkfstools'', ''-e'', p]) [])"
| sent_exists: "sent_ok Q log (cmd ''file-exists'' (''if '' @ Argv [''test'', ''-e'', p] @ ''; then printf yes; else printf no; fi'') [])"
| sent_capability: "name \<in> set required_commands \<Longrightarrow> sent_ok Q log (cmd ''capability'' (''which '' @ Quote name) [])"
| sent_existing: "sent_ok Q log (cmd ''existing-operation'' existing_script [])"
| sent_status: "sent_ok Q log (cmd ''poll-detached-clone'' (status_script index) [])"
| sent_change: "(c, verb) \<in> vm_changes \<Longrightarrow> sent_ok Q log (cmd c (Argv [''vim-cmd'', verb, itoa i]) [])"
| sent_answer: "sent_ok Q log (cmd ''answer-moved'' (Argv [''vim-cmd'', ''vmsvc/message'', itoa i, m, choice]) [])"
| sent_register: "sent_ok Q log (cmd ''register'' (Argv [''vim-cmd'', ''solo/registervm'', p]) [])"
| sent_acquire: "jobIDPattern i \<Longrightarrow> sent_ok Q log (cmd ''acquire-operation-lock'' acquire_script (''job='' @ i @ [nl] @ m))"
| sent_archive: "jobIDPattern i \<Longrightarrow> lock_seen i log \<Longrightarrow>
    sent_ok Q log (cmd ''archive-completed-operation'' (Argv [''mv'', activeDir, RuntimeDir @ ''/completed-'' @ i]) [])"
| sent_create: "TargetPath dir \<Longrightarrow> canonical_seen (path_dir dir) log \<Longrightarrow> sent_ok Q log (cmd ''create-target'' (Argv [''mkdir'', dir]) [])"
| sent_write: "TargetPath dir \<Longrightarrow> canonical_seen dir log \<Longrightarrow> name = path_base name \<Longrightarrow> ValidPath name = None \<Longrightarrow> to_lower (path_ext name) \<in> set config_exts \<Longrightarrow>
    sent_ok Q log (cmd ''write-target-config'' (''umask 077; set -C; cat > '' @ Quote (path_join [dir, name])) data)"
| sent_copy: "TargetPath dir \<Longrightarrow> canonical_seen dir log \<Longrightarrow> ValidPath source = None \<Longrightarrow> has_prefix source ''/vmfs/volumes/'' \<Longrightarrow>
    to_lower (path_ext (path_base source)) \<in> set snapshot_exts \<Longrightarrow> target = path_join [dir, path_base source] \<Longrightarrow>
    sent_ok Q log (cmd ''copy-snapshot-file'' (Argv [''test'', ''!'', ''-e'', target] @ '' && '' @ Argv [''cp'', source, target]) [])"
| sent_clone: "jobIDPattern i \<Longrightarrow> 0 \<le> index \<Longrightarrow> 0 < vmID \<Longrightarrow> path_ext source = ''.vmdk'' \<Longrightarrow> path_ext target = ''.vmdk'' \<Longrightarrow>
    TargetPath (path_dir target) \<Longrightarrow> canonical_seen (path_dir target) (tl log) \<Longrightarrow> lock_seen i log \<Longrightarrow>
    sent_ok Q log (cmd ''start-detached-clone'' (start_script index vmID source target requireOff) [])"
| sent_stop: "0 \<le> index \<Longrightarrow> sent_ok Q log (cmd ''stop-clone'' (stop_script index) [])"
| sent_snapshot: "ownSnapshot name \<Longrightarrow>
    sent_ok Q log (cmd ''create-snapshot'' (Argv [''vim-cmd'', ''vmsvc/snapshot.create'', itoa i, name, ''ESXi Mover live migration'', ''0'', ''0'']) [])"
| sent_merge: "ownSnapshot name \<Longrightarrow> own_tree_seen i name log \<Longrightarrow>
    sent_ok Q log (cmd ''consolidate-own-snapshot'' (Argv [''vim-cmd'', ''vmsvc/snapshot.removeall'', itoa i]) [])"

fun lawful_for :: "(string \<Rightarrow> bool) \<Rightarrow> sent_log \<Rightarrow> bool" where
  "lawful_for Q [] = True"
| "lawful_for Q ((c, a) # log) = (sent_ok Q log c \<and> lawful_for Q log)"

abbreviation lawful :: "sent_log \<Rightarrow> bool" where
  "lawful \<equiv> lawful_for (\<lambda>_. True)"

section \<open>Operations that keep the law\<close>

text \<open>An operation that starts with \<open>P\<close> of the log sends lawful commands only, and a result has \<open>R\<close>.\<close>

definition sends :: "(string \<Rightarrow> bool) \<Rightarrow> (sent_log \<Rightarrow> bool) \<Rightarrow> ('x, 'a) op \<Rightarrow> ('a \<Rightarrow> sent_log \<Rightarrow> bool) \<Rightarrow> bool" where
  "sends Q P m R = (\<forall>s. lawful_for Q (cn_sent s) \<longrightarrow> P (cn_sent s) \<longrightarrow>
     lawful_for Q (cn_sent (snd (m s))) \<and> (\<forall>x. fst (m s) = Inr x \<longrightarrow> R x (cn_sent (snd (m s)))))"

abbreviation tame :: "(string \<Rightarrow> bool) \<Rightarrow> ('x, 'a) op \<Rightarrow> bool" where
  "tame Q m \<equiv> sends Q (\<lambda>_. True) m (\<lambda>_ _. True)"

named_theorems sends_intros \<open>operations that keep the law of the log\<close>

lemma sends_ret [sends_intros]: "sends Q P (c_ret x) (\<lambda>_ _. True)"
  by (simp add: sends_def c_ret_def)

lemma sends_lift [sends_intros]: "sends Q P (c_lift r) (\<lambda>_ _. True)"
  by (simp add: sends_def c_lift_def)

lemma sends_fail [sends_intros]: "sends Q P (c_fail e) R"
  by (simp add: sends_def c_fail_def c_lift_def)

lemma sends_bind: "sends Q P m R \<Longrightarrow> (\<And>x. sends Q (R x) (k x) S) \<Longrightarrow> sends Q P (c_bind m k) S"
  unfolding sends_def c_bind_def by (fastforce split: prod.splits sum.splits)

lemma sends_weaken: "sends Q P m R \<Longrightarrow> (\<And>log. P' log \<Longrightarrow> P log) \<Longrightarrow> sends Q P' m (\<lambda>_ _. True)"
  by (simp add: sends_def)

lemma sends_post: "sends Q P m R \<Longrightarrow> (\<And>x log. R x log \<Longrightarrow> R' x log) \<Longrightarrow> sends Q P m R'"
  by (simp add: sends_def)

lemma sends_attempt: "sends Q P m R \<Longrightarrow> sends Q P (c_attempt m) (\<lambda>r log. \<forall>x. r = Inr x \<longrightarrow> R x log)"
  unfolding sends_def c_attempt_def by (fastforce split: prod.splits)

lemma sends_require: "(ok \<Longrightarrow> sends Q P k R) \<Longrightarrow> sends Q P (c_require ok e k) R"
  by (simp add: c_require_def sends_fail)

lemma sends_command:
  assumes "\<And>log. P log \<Longrightarrow> sent_ok Q log (cmd cat script input)"
  shows "sends Q P (runFor ex limit cat script input) (\<lambda>r log. \<exists>prior. log = (cmd cat script input, Inr r) # prior \<and> P prior)"
  using assms unfolding sends_def runFor_def by (auto simp: Let_def split: prod.splits option.splits)

lemma sends_run:
  "(\<And>log. P log \<Longrightarrow> sent_ok Q log (cmd cat script input)) \<Longrightarrow>
     sends Q P (run ex cat script input) (\<lambda>r log. \<exists>prior. log = (cmd cat script input, Inr r) # prior \<and> P prior)"
  unfolding run_def by (rule sends_command)

lemma sends_then: "sends Q P m R \<Longrightarrow> (\<And>x. tame Q (k x)) \<Longrightarrow> sends Q P (c_bind m k) (\<lambda>_ _. True)"
  by (rule sends_bind) (auto intro: sends_weaken)

lemma tame_command: "(\<And>log. sent_ok Q log (cmd c (Argv ws) [])) \<Longrightarrow> tame Q (command ex c ws)"
  unfolding command_def by (rule sends_then, rule sends_run, assumption, rule sends_ret)

text \<open>The commands that only look, by their categories.\<close>

lemma sent_look:
  "sent_ok Q log (cmd ''read-file'' (Argv [''head'', ''-c'', ''1048577'', p]) [])"
  "sent_ok Q log (cmd ''canonical-path'' (Argv [''readlink'', ''-f'', p]) [])"
  "sent_ok Q log (cmd ''file-size'' (Argv [''stat'', ''-c'', ''%s'', p]) [])"
  "sent_ok Q log (cmd ''allocated-size'' (Argv [''du'', ''-k'', p]) [])"
  by (rule sent_file [of _ "[_, _, _]", simplified append_Cons append_Nil] sent_file [of _ "[_, _]", simplified append_Cons append_Nil], simp add: file_looks_def)+

lemma tame_look:
  "(c, ws) \<in> general_looks \<Longrightarrow> tame Q (command ex c ws)"
  "(c, verb) \<in> vm_looks \<Longrightarrow> tame Q (vmsvc ex c verb i [])"
  unfolding vmsvc_def append_Nil2 by (rule tame_command, erule sent_general sent_vm)+

lemma tame_change: "(c, verb) \<in> vm_changes \<Longrightarrow> tame Q (vmsvc ex c verb i [])"
  unfolding vmsvc_def append_Nil2 by (rule tame_command, erule sent_change)

section \<open>What was read just before\<close>

lemma answered_mono: "answered c P log \<Longrightarrow> (\<And>x. P x \<Longrightarrow> Q x) \<Longrightarrow> answered c Q log"
  by (induction c P log rule: answered.induct) auto

text \<open>A command's answer is the newest of the log.\<close>

lemma sees_command:
  assumes "\<And>log. sent_ok Q log (cmd c (Argv ws) [])"
  shows "sends Q P (command ex c ws) (\<lambda>s log. answered (cmd c (Argv ws) []) (\<lambda>x. x = s) log \<and> P (tl log))"
  unfolding command_def
  by (rule sends_bind, rule sends_run, rule assms) (auto simp: sends_def c_ret_def)

lemma sees_canonical:
  "sends Q P (c_attempt (Canonical ex dir)) (\<lambda>r log. \<forall>d. r = Inr d \<longrightarrow> answered (cmd ''canonical-path'' (Argv [''readlink'', ''-f'', dir]) []) (\<lambda>s. canonical_answer s = Inr d) log \<and> P (tl log))"
  unfolding Canonical_def
  by (rule sends_attempt, rule sends_bind, rule sees_command, rule sent_look)
    (auto simp: sends_def c_lift_def elim: answered_mono)

lemma sees_snapshot:
  "sends Q P (c_Snapshot ex i) (\<lambda>s log. answered (cmd ''snapshot-state'' (Argv [''vim-cmd'', ''vmsvc/snapshot.get'', itoa i]) []) (\<lambda>x. x = s) log)"
  unfolding c_Snapshot_def vmsvc_def append_Nil2
  by (rule sends_post, rule sees_command, rule sent_vm) (simp add: vm_looks_def, erule conjunct1)

lemma sees_file:
  "sends Q P (c_attempt (ReadFile ex p)) (\<lambda>r log. \<forall>t. r = Inr t \<longrightarrow> answered (cmd ''read-file'' (Argv [''head'', ''-c'', ''1048577'', p]) []) (\<lambda>s. s = t) log \<and> P (tl log))"
  unfolding ReadFile_def
  by (rule sends_attempt, rule sends_bind, rule sends_attempt, rule sends_run, rule sent_look)
    (auto split: sum.split simp: sends_def c_ret_def c_require_def c_fail_def c_lift_def)

text \<open>The checks before an operation on the target or the lock.\<close>

lemma sends_checkTarget: "sends Q P (checkTarget ex dir) (\<lambda>_ log. TargetPath dir \<and> canonical_seen dir log)"
  unfolding checkTarget_def
  by (rule sends_require, rule sends_bind, rule sees_canonical, rule sends_require)
    (auto simp: sends_def c_ret_def canonical_seen_def)

lemma sends_require_lock:
  assumes "sends Q (\<lambda>log. lock_seen i log \<and> P (tl log)) k R"
  shows "sends Q P (require_lock ex i k) R"
  unfolding require_lock_def
proof (rule sends_bind, rule sees_file, rule sends_require)
  fix m assume "owns_lock m i"
  then show "sends Q (\<lambda>log. \<forall>t. m = Inr t \<longrightarrow> answered (cmd ''read-file'' (Argv [''head'', ''-c'', ''1048577'', activeDir @ ''/job.meta'']) []) (\<lambda>s. s = t) log \<and> P (tl log)) k R"
    using assms by (auto simp: owns_lock_def sends_def lock_seen_def split: sum.splits elim: answered_mono)
qed

section \<open>The operations\<close>

lemma tame_ReadFile: "tame Q (ReadFile ex p)"
  unfolding ReadFile_def
  by (rule sends_then, rule sends_attempt, rule sends_run, rule sent_look) (auto split: sum.split intro!: sends_fail sends_require sends_ret)

lemma tame_reads:
  "tame Q (Canonical ex p)" "tame Q (Size ex p)" "tame Q (Allocated ex p)"
  "tame Q (c_Power ex i)" "tame Q (c_ToolsRunning ex i)" "tame Q (VMPath ex i)" "tame Q (c_Datastores ex)" "tame Q (c_Autostart ex)"
  unfolding Canonical_def Size_def Allocated_def c_Power_def c_ToolsRunning_def VMPath_def c_Datastores_def c_Autostart_def
  by (rule sends_then, ((rule tame_command, rule sent_look) | (rule tame_look, simp add: general_looks_def vm_looks_def)), rule sends_lift)+

text \<open>A folder is listed, and a disk checked, where that was asked.\<close>

lemma tame_asked: "Q p \<Longrightarrow> tame Q (List_dir ex p)" "Q p \<Longrightarrow> tame Q (VerifyChain ex p)"
  unfolding List_dir_def VerifyChain_def
  by (rule sends_then, rule tame_command, erule sent_list sent_verify, (rule sends_lift | rule sends_require, rule sends_ret))+

lemma tame_raw: "tame Q (c_Snapshot ex i)" "tame Q (c_Message ex i)"
  unfolding c_Snapshot_def c_Message_def by (rule tame_look, simp add: vm_looks_def)+

lemma tame_changes:
  "tame Q (c_Shutdown ex i)" "tame Q (c_ForceOff ex i)" "tame Q (c_Unregister ex i)" "tame Q (c_PowerOn ex i)"
  unfolding c_Shutdown_def c_ForceOff_def c_Unregister_def c_PowerOn_def done_with_def
  by (rule sends_then, rule tame_change, simp add: vm_changes_def, rule sends_ret)+

lemma tame_Answer: "tame Q (c_Answer ex i m a)"
  unfolding c_Answer_def done_with_def vmsvc_def append_Cons append_Nil
  by (rule sends_then, rule tame_command, rule sent_answer, rule sends_ret)

text \<open>A command that ends an operation.\<close>

lemma sends_last:
  assumes "\<And>log. P log \<Longrightarrow> sent_ok Q log (cmd cat script input)"
  shows "sends Q P (c_bind (runFor ex limit cat script input) (\<lambda>_. c_ret ())) (\<lambda>_ _. True)" "sends Q P (c_bind (run ex cat script input) (\<lambda>_. c_ret ())) (\<lambda>_ _. True)"
  unfolding run_def by (rule sends_then, rule sends_command, erule assms, rule sends_ret)+

lemma tame_Exists: "tame Q (Exists ex p)"
  unfolding Exists_def by (rule sends_then, rule sends_run, rule sent_exists) (auto intro: sends_intros)

lemma tame_Register: "tame Q (c_Register ex p)"
  unfolding c_Register_def command_def
  by (rule sends_then, rule sends_then, rule sends_run, rule sent_register) (intro sends_intros)+

lemma tame_CloneStatus: "tame Q (c_CloneStatus ex index)"
  unfolding c_CloneStatus_def by (rule sends_then, rule sends_run, rule sent_status, rule sends_lift)

lemma tame_StopClone: "tame Q (c_StopClone ex index)"
  unfolding c_StopClone_def by (intro sends_require sends_last sent_stop)

lemma tame_MarkRunning: "tame Q (c_MarkRunning ex vms ds)"
  unfolding c_MarkRunning_def
  by (rule sends_then, rule sends_attempt, rule tame_look, simp add: general_looks_def, rule sends_ret)

lemma tame_CreateSnapshot: "tame Q (c_CreateSnapshot ex i name)"
  unfolding c_CreateSnapshot_def by (intro sends_require sends_last sent_snapshot)

lemma tame_ConsolidateOwnSnapshot: "tame Q (c_ConsolidateOwnSnapshot ex i name)"
  unfolding c_ConsolidateOwnSnapshot_def
proof (rule sends_require, rule sends_bind, rule sees_snapshot)
  fix tree
  let ?P = "answered (cmd ''snapshot-state'' (Argv [''vim-cmd'', ''vmsvc/snapshot.get'', itoa i]) []) (\<lambda>x. x = tree)"
  assume name: "ownSnapshot name"
  have names: "sends Q ?P (c_lift (SnapshotNames tree)) (\<lambda>names log. SnapshotNames tree = Inr names \<and> ?P log)"
    by (simp add: sends_def c_lift_def)
  show "sends Q ?P (c_bind (c_lift (SnapshotNames tree)) (\<lambda>names. c_require (names = [name]) (''the snapshot tree is not exactly this job'' @ [sq] @ ''s snapshot; nothing was merged'')
      (c_bind (runFor ex (4 * hour) ''consolidate-own-snapshot'' (Argv [''vim-cmd'', ''vmsvc/snapshot.removeall'', itoa i]) []) (\<lambda>_. c_ret ())))) (\<lambda>_ _. True)"
    by (rule sends_bind [OF names], rule sends_require, rule sends_last, rule sent_merge [OF name])
      (auto simp: own_tree_seen_def elim: answered_mono)
qed

lemma tame_paths: "tame Q (check_paths ex vms)"
  by (induction vms) (auto intro!: sends_ret sends_then sends_require tame_reads)

lemma tame_VMs: "tame Q (c_VMs ex)"
  unfolding c_VMs_def
  by (rule sends_then, rule tame_look, simp add: general_looks_def, (rule sends_then sends_lift sends_ret tame_paths)+)

lemma tame_each: "(\<And>x. x \<in> set xs \<Longrightarrow> tame Q (f x)) \<Longrightarrow> tame Q (c_each f xs)"
  by (induction xs) (auto intro: sends_ret sends_then)

lemma tame_capability: "name \<in> set required_commands \<Longrightarrow> tame Q (capability ex name)"
  unfolding capability_def
  by (rule sends_then, rule sends_attempt, rule sends_run, erule sent_capability) (auto split: sum.split intro: sends_intros)

lemma tame_Existing: "tame Q (Existing ex)"
  unfolding Existing_def by (rule sends_then, rule sends_run, rule sent_existing, rule sends_ret)

lemma tame_Inventory: "tame Q (c_Inventory ex)"
  unfolding c_Inventory_def
  by (rule sends_then, rule tame_look, simp add: general_looks_def)
    (rule sends_then tame_each | erule tame_capability | rule tame_VMs tame_reads tame_Existing sends_ret)+

lemma tame_Acquire: "tame Q (c_Acquire ex i m)"
  unfolding c_Acquire_def by (intro sends_require sends_last sent_acquire)

lemma tame_Finish: "tame Q (c_Finish ex i)"
  unfolding c_Finish_def
  by (rule sends_require, rule sends_require_lock [where P = "\<lambda>_. True"], rule sends_last, rule sent_archive) auto

lemma tame_CreateTarget: "tame Q (c_CreateTarget ex dir)"
  unfolding c_CreateTarget_def done_with_def command_def
  by (rule sends_require, rule sends_bind, rule sees_canonical, rule sends_require, rule sends_then, rule sends_then, rule sends_run, rule sent_create)
    (auto simp: canonical_seen_def intro: sends_ret)

lemma tame_WriteTarget: "tame Q (c_WriteTarget ex dir name data)"
  unfolding c_WriteTarget_def
  by (rule sends_bind, rule sends_checkTarget, rule sends_require, rule sends_require, rule sends_last, rule sent_write) auto

lemma tame_CopyToTarget: "tame Q (c_CopyToTarget ex source dir)"
  unfolding c_CopyToTarget_def Let_def
  by (rule sends_bind, rule sends_checkTarget, rule sends_require, rule sends_require, rule sends_last, rule sent_copy) auto

lemma tame_StartClone: "tame Q (c_StartClone ex i index vmID source target requireOff)"
  unfolding c_StartClone_def
  by (rule sends_require, rule sends_bind, rule sends_checkTarget, rule sends_require_lock, rule sends_last, rule sent_clone) auto

lemmas tame_ops = tame_ReadFile tame_reads tame_asked tame_raw tame_changes tame_Answer tame_Exists tame_Register tame_CloneStatus tame_StopClone
  tame_MarkRunning tame_CreateSnapshot tame_ConsolidateOwnSnapshot tame_VMs tame_Inventory tame_Acquire tame_Finish
  tame_CreateTarget tame_WriteTarget tame_CopyToTarget tame_StartClone

section \<open>Any use of a client\<close>

text \<open>The operations of the host interface, and the one of the web server's.\<close>

datatype client_op =
    OpInventory | OpVMs | OpDatastores | OpReadFile string | OpExists string | OpCanonical string | OpList string | OpSize string
  | OpAllocated string | OpPower int | OpSnapshot int | OpToolsRunning int | OpAutostart | OpShutdown int | OpForceOff int
  | OpVerifyChain string | OpAcquire string string | OpFinish string | OpCreateTarget string | OpWriteTarget string string string
  | OpStartClone string int int string string bool | OpCloneStatus int | OpStopClone int | OpUnregister int | OpRegister string
  | OpPowerOn int | OpMessage int | OpAnswer int string string | OpCreateSnapshot int string | OpConsolidate int string
  | OpCopyToTarget string string | OpMarkRunning "VM list" "Datastore list"

fun perform :: "'x executor \<Rightarrow> client_op \<Rightarrow> 'x client \<Rightarrow> 'x client" where
  "perform ex OpInventory s = snd (c_Inventory ex s)"
| "perform ex OpVMs s = snd (c_VMs ex s)"
| "perform ex OpDatastores s = snd (c_Datastores ex s)"
| "perform ex (OpReadFile p) s = snd (ReadFile ex p s)"
| "perform ex (OpExists p) s = snd (Exists ex p s)"
| "perform ex (OpCanonical p) s = snd (Canonical ex p s)"
| "perform ex (OpList p) s = snd (List_dir ex p s)"
| "perform ex (OpSize p) s = snd (Size ex p s)"
| "perform ex (OpAllocated p) s = snd (Allocated ex p s)"
| "perform ex (OpPower i) s = snd (c_Power ex i s)"
| "perform ex (OpSnapshot i) s = snd (c_Snapshot ex i s)"
| "perform ex (OpToolsRunning i) s = snd (c_ToolsRunning ex i s)"
| "perform ex OpAutostart s = snd (c_Autostart ex s)"
| "perform ex (OpShutdown i) s = snd (c_Shutdown ex i s)"
| "perform ex (OpForceOff i) s = snd (c_ForceOff ex i s)"
| "perform ex (OpVerifyChain p) s = snd (VerifyChain ex p s)"
| "perform ex (OpAcquire i m) s = snd (c_Acquire ex i m s)"
| "perform ex (OpFinish i) s = snd (c_Finish ex i s)"
| "perform ex (OpCreateTarget d) s = snd (c_CreateTarget ex d s)"
| "perform ex (OpWriteTarget d n t) s = snd (c_WriteTarget ex d n t s)"
| "perform ex (OpStartClone i k vm a b off) s = snd (c_StartClone ex i k vm a b off s)"
| "perform ex (OpCloneStatus k) s = snd (c_CloneStatus ex k s)"
| "perform ex (OpStopClone k) s = snd (c_StopClone ex k s)"
| "perform ex (OpUnregister i) s = snd (c_Unregister ex i s)"
| "perform ex (OpRegister p) s = snd (c_Register ex p s)"
| "perform ex (OpPowerOn i) s = snd (c_PowerOn ex i s)"
| "perform ex (OpMessage i) s = snd (c_Message ex i s)"
| "perform ex (OpAnswer i m a) s = snd (c_Answer ex i m a s)"
| "perform ex (OpCreateSnapshot i n) s = snd (c_CreateSnapshot ex i n s)"
| "perform ex (OpConsolidate i n) s = snd (c_ConsolidateOwnSnapshot ex i n s)"
| "perform ex (OpCopyToTarget f d) s = snd (c_CopyToTarget ex f d s)"
| "perform ex (OpMarkRunning vms ds) s = snd (c_MarkRunning ex vms ds s)"

lemma tame_lawful: "tame Q m \<Longrightarrow> lawful_for Q (cn_sent s) \<Longrightarrow> lawful_for Q (cn_sent (snd (m s)))"
  by (simp add: sends_def)

text \<open>The paths that a use of the client gives to \<open>find\<close> and \<open>vmkfstools -e\<close>.\<close>

fun asked_path :: "client_op \<Rightarrow> string list" where
  "asked_path (OpList p) = [p]"
| "asked_path (OpVerifyChain p) = [p]"
| "asked_path _ = []"

definition asked_paths :: "client_op list \<Rightarrow> string list" where
  "asked_paths ops = concat (map asked_path ops)"

lemma perform_lawful: "list_all Q (asked_path op) \<Longrightarrow> lawful_for Q (cn_sent s) \<Longrightarrow> lawful_for Q (cn_sent (perform ex op s))"
  by (cases op) (simp_all add: tame_lawful tame_ops)

lemma performed_lawful: "list_all Q (asked_paths ops) \<Longrightarrow> lawful_for Q (cn_sent s) \<Longrightarrow> lawful_for Q (cn_sent (fold (perform ex) ops s))"
  by (induction ops arbitrary: s) (simp_all add: asked_paths_def perform_lawful)

section \<open>What the commands do\<close>

text \<open>Paths that a shell can take for nothing else.\<close>

lemma absolute_join: "absolute d \<Longrightarrow> absolute (path_join [d, name])"
  by (cases d; cases name) (simp_all add: absolute_def path_join_def path_clean_def path_is_abs_def Let_def)

lemma absolute_under: "has_prefix p ''/vmfs/volumes/'' \<Longrightarrow> absolute p" "TargetPath p \<Longrightarrow> absolute p"
  by (cases p; auto simp: absolute_def TargetPath_def split: if_splits)+

lemma clean_parts_names:
  assumes "\<forall>c \<in> set cs \<union> set acc. slash \<notin> set c" "[] \<notin> set acc"
  shows "(\<forall>c \<in> set (clean_parts r cs acc). slash \<notin> set c) \<and> [] \<notin> set (clean_parts r cs acc)"
  using assms by (induction r cs acc rule: clean_parts.induct) (auto split: list.splits)

lemma join_not_absolute: "\<forall>c \<in> set cs. slash \<notin> set c \<Longrightarrow> [] \<notin> set cs \<Longrightarrow> \<not> absolute (join [slash] cs)"
proof (induction cs rule: induct_list012)
  case (2 w)
  then show ?case by (cases w) (auto simp: absolute_def)
next
  case (3 w v ws)
  then show ?case by (cases w) (auto simp: absolute_def)
qed (simp add: absolute_def)

lemma absolute_clean: "absolute (path_clean p) \<Longrightarrow> absolute p"
proof (rule ccontr)
  assume a: "absolute (path_clean p)" "\<not> absolute p"
  have "\<forall>c \<in> set (split_on slash p). slash \<notin> set c" using split_on_no_sep_in by blast
  then have "\<not> absolute (join [slash] (clean_parts False (split_on slash p) []))"
    using clean_parts_names [of "split_on slash p" "[]" False] by (intro join_not_absolute) auto
  moreover from a have "path_clean p = ''.'' \<or> path_clean p = join [slash] (clean_parts False (split_on slash p) [])"
    by (simp add: path_clean_def path_is_abs_def absolute_def Let_def)
  moreover have "\<not> absolute ''.''" by (simp add: absolute_def)
  ultimately show False using a(1) by metis
qed

lemma absolute_dir: "absolute (path_dir p) \<Longrightarrow> absolute p"
proof -
  assume "absolute (path_dir p)"
  then have "absolute (upto_last slash p)" by (simp add: path_dir_def absolute_clean)
  then have "absolute (upto_last slash p @ after_last slash p)" by (cases "upto_last slash p") (auto simp: absolute_def)
  moreover have "upto_last slash p @ after_last slash p = p"
    unfolding upto_last_def after_last_def by (metis rev_append rev_rev_ident takeWhile_dropWhile_id)
  ultimately show "absolute p" by simp
qed

text \<open>The commands that are one command line.\<close>

lemma harmless_looks:
  "(c, ws) \<in> general_looks \<Longrightarrow> deletes_nothing (Argv ws)"
  "(c, ws) \<in> file_looks \<Longrightarrow> deletes_nothing (Argv (ws @ [p]))"
  "(c, verb) \<in> vm_looks \<Longrightarrow> deletes_nothing (Argv [''vim-cmd'', verb, itoa i])"
  "(c, verb) \<in> vm_changes \<Longrightarrow> deletes_nothing (Argv [''vim-cmd'', verb, itoa i])"
  by (auto simp: general_looks_def file_looks_def vm_looks_def vm_changes_def judge_simps intro!: harmless_Argv)

lemma own_archive: "jobIDPattern i \<Longrightarrow> own_file (RuntimeDir @ ''/completed-'' @ i)" "own_file activeDir"
proof -
  assume "jobIDPattern i"
  then have "slash \<notin> set i" by (auto simp: jobIDPattern_def list_all_iff lower_hex_def is_digit_def between_def byte_def)
  then show "own_file (RuntimeDir @ ''/completed-'' @ i)"
    by (simp add: own_file_def RuntimeDir_def no_dot_skip no_dot_plain [where ys = "[]", simplified])
qed (simp add: own_file_def RuntimeDir_def activeDir_def)

lemma sent_harmless: "sent_ok absolute log c \<Longrightarrow> deletes_nothing (cm_Script c)"
proof (induction rule: sent_ok.induct)
  case (sent_archive i log)
  then show ?case using own_archive(1) [of i] own_archive(2) by (auto intro!: harmless_Argv simp: judge_simps)
next
  case (sent_clone i index vmID source target log requireOff)
  then show ?case by (simp add: harmless_start absolute_dir absolute_under)
next
  case (sent_copy dir log source target)
  then show ?case unfolding Command.simps by (intro harmless_copy) (simp_all add: absolute_join absolute_under)
qed (unfold Command.simps, (erule harmless_looks | rule harmless_status harmless_stop harmless_existing harmless_acquire harmless_exists
    harmless_capability harmless_write | (rule harmless_Argv, simp add: judge_simps, simp add: judge_simps))+)

lemma lawful_harmless: "lawful_for absolute log \<Longrightarrow> list_all (\<lambda>(c, _). deletes_nothing (cm_Script c)) log"
  by (induction log) (auto dest: sent_harmless)

text \<open>
  C19: whatever is asked of a client, in any order, with any arguments and any answers, each command it sends is one of those of
  \<open>sent_ok\<close>, word by word; \<open>find\<close> and \<open>vmkfstools -e\<close> get the paths that were asked and no others. The snapshot tree is merged only
  when the command just before it found this tool's own snapshot and no other in that VM; the lock is archived, and a clone
  started, only after its metadata was read and named the job; and a file is written or copied only with a configuration
  or snapshot extension, into a folder directly on a volume, whose path was just found to be canonical. And where the paths asked of
  \<open>find\<close> and \<open>vmkfstools -e\<close> are absolute, no command deletes a file or a VM: what a shell reads in each script,
  in the ones it hands to a detached shell too, are programs that only read, create or rename files of the runtime
  folder, \<open>cp\<close> after a test that its target does not exist, \<open>vmkfstools\<close> that checks or clones, and listed verbs of \<open>vim-cmd\<close>.
\<close>

theorem commands_lawful:
  "lawful_for (\<lambda>p. p \<in> set (asked_paths ops)) (cn_sent (fold (perform ex) ops (NewClient x))) \<and>
   (list_all absolute (asked_paths ops) \<longrightarrow> list_all (\<lambda>(c, _). deletes_nothing (cm_Script c)) (cn_sent (fold (perform ex) ops (NewClient x))))"
proof (intro conjI impI)
  have start: "lawful_for Q (cn_sent (NewClient x))" for Q :: "string \<Rightarrow> bool" by (simp add: NewClient_def)
  show "lawful_for (\<lambda>p. p \<in> set (asked_paths ops)) (cn_sent (fold (perform ex) ops (NewClient x)))"
    by (rule performed_lawful [OF _ start]) (simp add: list_all_iff)
  assume "list_all absolute (asked_paths ops)"
  from performed_lawful [OF this start] show "list_all (\<lambda>(c, _). deletes_nothing (cm_Script c)) (cn_sent (fold (perform ex) ops (NewClient x)))"
    by (rule lawful_harmless)
qed

text \<open>Six operations on a client whose commands all succeed with no output; each sends one.\<close>

definition silent_executor :: "unit executor" where
  "silent_executor = \<lparr>ex_Run = \<lambda>_ _ x. ((\<lparr>rs_Stdout = [], rs_Stderr = [], rs_ExitCode = 0\<rparr>, None), x), ex_Redact = \<lambda>s. s, ex_now = \<lambda>x. (0, x)\<rparr>"

definition sample_ops :: "client_op list" where
  "sample_ops = [OpList ''/vmfs/volumes/u1/web'', OpVerifyChain ''/vmfs/volumes/u1/web/web.vmdk'', OpPower 7, OpStopClone 0, OpRegister ''/vmfs/volumes/u1/web/web.vmx'', OpAcquire (replicate 32 CHR ''a'') []]"

theorem commands_lawful_witness:
  "let log = cn_sent (fold (perform silent_executor) sample_ops (NewClient ()))
   in length log = 6 \<and> list_all (\<lambda>(c, _). deletes_nothing (cm_Script c)) log"
proof -
  have "list_all absolute (asked_paths sample_ops)" by code_simp
  with commands_lawful [of sample_ops silent_executor "()"] have "list_all (\<lambda>(c, _). deletes_nothing (cm_Script c)) (cn_sent (fold (perform silent_executor) sample_ops (NewClient ())))"
    by blast
  moreover have "length (cn_sent (fold (perform silent_executor) sample_ops (NewClient ()))) = 6" by code_simp
  ultimately show ?thesis by (simp add: Let_def)
qed

section \<open>What the answers promise\<close>

lemma c_bind_ok: "c_bind m k s = (Inr y, s') \<longleftrightarrow> (\<exists>x t. m s = (Inr x, t) \<and> k x t = (Inr y, s'))"
  by (auto simp: c_bind_def split: prod.splits sum.splits)

lemma c_simps [simp]:
  "c_ret x s = (Inr y, s') \<longleftrightarrow> y = x \<and> s' = s" "c_lift r s = (Inr y, s') \<longleftrightarrow> r = Inr y \<and> s' = s" "c_fail e s \<noteq> (Inr y, s')"
  "c_require ok e k s = (Inr y, s') \<longleftrightarrow> ok \<and> k s = (Inr y, s')" "c_attempt m s = (Inr r, s') \<longleftrightarrow> m s = (r, s')"
  by (auto simp: c_ret_def c_lift_def c_fail_def c_require_def c_attempt_def split: prod.splits)

lemma run_ok: "run ex cat script input s = (Inr r, s') \<Longrightarrow> cn_sent s' = (cmd cat script input, Inr r) # cn_sent s"
  by (auto simp: run_def runFor_def Let_def split: prod.splits option.splits)

text \<open>An identity command in a log that gave the VM's path.\<close>

definition confirmed :: "sent_log \<Rightarrow> VM \<Rightarrow> bool" where
  "confirmed log vm = list_ex (\<lambda>(c, a). c = cmd ''vm-identity'' (Argv [''vim-cmd'', ''vmsvc/get.config'', itoa (vm_ID vm)]) [] \<and>
     (case a of Inr r \<Rightarrow> ParseVMPath (rs_Stdout r) = Inr (vm_VMXPath vm) | Inl _ \<Rightarrow> False)) log"

text \<open>What an operation added to the log.\<close>

definition added :: "'x client \<Rightarrow> 'x client \<Rightarrow> sent_log" where
  "added s s' = take (length (cn_sent s') - length (cn_sent s)) (cn_sent s')"

lemma added_append: "cn_sent s' = new @ cn_sent s \<Longrightarrow> added s s' = new"
  by (simp add: added_def)

lemma confirmed_more: "confirmed log vm \<Longrightarrow> confirmed (log @ others) vm" "confirmed log vm \<Longrightarrow> confirmed (others @ log) vm"
  by (auto simp: confirmed_def)

lemma VMPath_confirms:
  assumes "VMPath ex (vm_ID vm) s = (Inr (vm_VMXPath vm), s')"
  shows "\<exists>r. cn_sent s' = r # cn_sent s \<and> confirmed [r] vm"
  using assms by (auto simp: VMPath_def vmsvc_def command_def c_bind_ok confirmed_def dest!: run_ok)

lemma check_paths_confirm:
  "check_paths ex vms s = (Inr (), s') \<Longrightarrow> \<exists>new. cn_sent s' = new @ cn_sent s \<and> list_all (confirmed new) vms"
proof (induction vms arbitrary: s)
  case (Cons vm vms)
  from Cons.prems obtain t where t: "VMPath ex (vm_ID vm) s = (Inr (vm_VMXPath vm), t)" "check_paths ex vms t = (Inr (), s')"
    by (auto simp: c_bind_ok)
  from VMPath_confirms [OF t(1)] obtain r where r: "cn_sent t = r # cn_sent s" "confirmed [r] vm" by blast
  from Cons.IH [OF t(2)] obtain new where new: "cn_sent s' = new @ cn_sent t" "list_all (confirmed new) vms" by blast
  have "list_all (confirmed (new @ [r])) (vm # vms)"
    using r(2) new(2) by (auto intro: confirmed_more simp: list_all_iff)
  with new(1) r(1) show ?case by (intro exI [of _ "new @ [r]"]) simp
qed simp

text \<open>
  C27: the VMs that the client reports are well-formed, with distinct positive IDs, and the configuration path of each of
  them was confirmed, during the same call, by that VM's own configuration.
\<close>

theorem inventory_confirmed:
  "case c_VMs ex s of (Inl _, _) \<Rightarrow> True | (Inr vms, s') \<Rightarrow> wf_VMs vms \<and> list_all (confirmed (added s s')) vms"
proof -
  have "wf_VMs vms \<and> list_all (confirmed (added s s')) vms" if vms: "c_VMs ex s = (Inr vms, s')" for vms s'
  proof -
    from vms obtain out t where t: "command ex ''inventory'' [''vim-cmd'', ''vmsvc/getallvms''] s = (Inr out, t)"
      and p: "ParseVMs out = Inr vms" and c: "check_paths ex vms t = (Inr (), s')"
      by (auto simp: c_VMs_def c_bind_ok)
    from t obtain r where "cn_sent t = r # cn_sent s" by (auto simp: command_def c_bind_ok dest!: run_ok)
    with check_paths_confirm [OF c] obtain new where "cn_sent s' = (new @ [r]) @ cn_sent s" "list_all (confirmed new) vms" by auto
    with ParseVMs_wf [OF p] show ?thesis
      by (auto simp: added_append list_all_iff intro: confirmed_more)
  qed
  then show ?thesis by (auto split: prod.split sum.split)
qed

text \<open>The numbers among the answers.\<close>

definition clone_in_range :: "CloneStatus \<Rightarrow> bool" where
  "clone_in_range st = (0 \<le> cl_Progress st \<and> cl_Progress st \<le> 100 \<and> 0 \<le> cl_ExitCode st \<and> cl_ExitCode st \<le> 255 \<and> cl_Done st = (\<not> cl_Alive st))"

lemma clone_answer_range: "clone_answer f out = Inr st \<Longrightarrow> clone_in_range st"
  using Progress_range
  by (auto simp: clone_answer_def clone_in_range_def Let_def split: prod.splits option.splits if_splits)

lemma allocated_range: "allocated_answer s = Inr n \<Longrightarrow> 0 \<le> n \<and> n \<le> 2 ^ 62 \<and> n mod 1024 = 0"
  by (auto simp: allocated_answer_def positiveNumber_def split: list.splits sum.splits option.splits if_splits)

lemma size_range: "positiveNumber s = Inr n \<Longrightarrow> 0 \<le> n \<and> n \<le> max_int64"
  by (rule positiveNumber_range)

text \<open>
  C28: the numbers that the client answers are in range. A clone that is done has an exit code of one byte, one that is alive has
  none, and its progress is a percentage; a file's size is a non-negative number of 64 bits; and an allocated size is a whole number of KiB
  that did not overflow.
\<close>

theorem answers_in_range:
  "(case c_CloneStatus ex k s of (Inl _, _) \<Rightarrow> True | (Inr st, _) \<Rightarrow> clone_in_range st) \<and>
   (case Size ex p s of (Inl _, _) \<Rightarrow> True | (Inr n, _) \<Rightarrow> 0 \<le> n \<and> n \<le> max_int64) \<and>
   (case Allocated ex p s of (Inl _, _) \<Rightarrow> True | (Inr n, _) \<Rightarrow> 0 \<le> n \<and> n \<le> 2 ^ 62 \<and> n mod 1024 = 0)"
proof (intro conjI)
  show "case c_CloneStatus ex k s of (Inl _, _) \<Rightarrow> True | (Inr st, _) \<Rightarrow> clone_in_range st"
    by (auto split: prod.split sum.split simp: c_CloneStatus_def c_bind_ok dest: clone_answer_range)
  show "case Size ex p s of (Inl _, _) \<Rightarrow> True | (Inr n, _) \<Rightarrow> 0 \<le> n \<and> n \<le> max_int64"
    by (auto split: prod.split sum.split simp: Size_def c_bind_ok dest: size_range)
  show "case Allocated ex p s of (Inl _, _) \<Rightarrow> True | (Inr n, _) \<Rightarrow> 0 \<le> n \<and> n \<le> 2 ^ 62 \<and> n mod 1024 = 0"
    by (auto split: prod.split sum.split simp: Allocated_def c_bind_ok dest: allocated_range)
qed

end
