(* ===== verification/World_Law.thy ===== *)
theory World_Law
  imports Run_Rules
begin

text \<open>
  What the engine leaves of the world behind its host. The engine touches that world only through the host's operations, so a fact of the
  world that every operation keeps holds whenever a migration or a rollback ends, and at every point before. The
  locale \<open>host_law\<close> is the contract of the host, \<open>engine_law\<close> that of an engine on such a host.
\<close>

section \<open>The contract\<close>

definition steady_world :: "('w \<Rightarrow> bool) \<Rightarrow> ('w \<Rightarrow> 'a \<times> 'w) \<Rightarrow> bool" where
  "steady_world J f = (\<forall>w. J w \<longrightarrow> J (snd (f w)))"

definition stable_host :: "('w \<Rightarrow> bool) \<Rightarrow> 'w host \<Rightarrow> bool" where
  "stable_host J h = (steady_world J (h_Inventory h) \<and> steady_world J (h_VMs h) \<and> steady_world J (h_Datastores h) \<and>
     (\<forall>p. steady_world J (h_ReadFile h p)) \<and> (\<forall>p. steady_world J (h_Exists h p)) \<and> (\<forall>p. steady_world J (h_Canonical h p)) \<and>
     (\<forall>p. steady_world J (h_List h p)) \<and> (\<forall>p. steady_world J (h_Size h p)) \<and> (\<forall>p. steady_world J (h_Allocated h p)) \<and>
     (\<forall>i. steady_world J (h_Power h i)) \<and> (\<forall>i. steady_world J (h_Snapshot h i)) \<and> (\<forall>i. steady_world J (h_ToolsRunning h i)) \<and>
     steady_world J (h_Autostart h) \<and> (\<forall>i. steady_world J (h_Shutdown h i)) \<and> (\<forall>i. steady_world J (h_ForceOff h i)) \<and>
     (\<forall>p. steady_world J (h_VerifyChain h p)) \<and> (\<forall>i t. steady_world J (h_Acquire h i t)) \<and> (\<forall>i. steady_world J (h_Finish h i)) \<and>
     (\<forall>d. steady_world J (h_CreateTarget h d)) \<and> (\<forall>d n t. steady_world J (h_WriteTarget h d n t)) \<and>
     (\<forall>i k vm a b off. steady_world J (h_StartClone h i k vm a b off)) \<and> (\<forall>k. steady_world J (h_CloneStatus h k)) \<and>
     (\<forall>k. steady_world J (h_StopClone h k)) \<and> (\<forall>i. steady_world J (h_Unregister h i)) \<and> (\<forall>p. steady_world J (h_Register h p)) \<and>
     (\<forall>i. steady_world J (h_PowerOn h i)) \<and> (\<forall>i. steady_world J (h_Message h i)) \<and> (\<forall>i m a. steady_world J (h_Answer h i m a)) \<and>
     (\<forall>i n. steady_world J (h_CreateSnapshot h i n)) \<and> (\<forall>i n. steady_world J (h_ConsolidateOwnSnapshot h i n)) \<and>
     (\<forall>f d. steady_world J (h_CopyToTarget h f d)) \<and> steady_world J (h_now h) \<and> (\<forall>d. steady_world J (h_pause h d)) \<and>
     steady_world J (h_operator h) \<and> steady_world J (h_wake h))"

definition worldly :: "('w \<Rightarrow> bool) \<Rightarrow> 'w st \<Rightarrow> bool" where
  "worldly J s = J (s_world s)"

named_theorems stays \<open>code that leaves a fact of the world\<close>

lemma worldly_simps [simp]:
  "worldly J (noted c s) = worldly J s" "worldly J (s\<lparr>s_world := w\<rparr>) = J w" "worldly J (s\<lparr>s_job := j\<rparr>) = worldly J s"
  by (simp_all add: worldly_def noted_def)

lemma serve_world [simp]: "s_world (serve x s) = s_world s"
  by (cases x) (simp_all add: noted_def Let_def split: prod.split)

lemma served_world [simp]: "s_world (fold serve xs s) = s_world s"
  by (induction xs arbitrary: s) simp_all

lemma taken_world [simp]: "s_world (snd (take_action s)) = s_world s"
  by (simp add: take_action_def noted_def split: option.split)

lemma stays_on_job [stays]: "keeps (worldly J) (on_job f)"
  by (simp add: keeps_alt on_job_def split_beta)

lemma stays_call: "steady_world J f \<Longrightarrow> keeps (worldly J) (call_host f c)"
  by (simp add: keeps_alt call_host_def split_beta steady_world_def) (simp add: worldly_def)

locale host_law =
  fixes J :: "'w \<Rightarrow> bool" and h :: "'w host"
  assumes host: "stable_host J h"
begin

lemma stays_turn [stays]: "keeps (worldly J) (operator_turn h)"
  using host by (simp add: keeps_alt operator_turn_def split_beta stable_host_def steady_world_def worldly_def)

lemma stays_now [stays]: "keeps (worldly J) (now h)"
  using host by (simp add: keeps_alt now_def split_beta stable_host_def steady_world_def worldly_def)

lemma stays_pause [stays]: "keeps (worldly J) (pause h d)"
  using host by (simp add: keeps_alt pause_def split_beta stable_host_def steady_world_def worldly_def)

lemma stays_x [stays]:
  "keeps (worldly J) (x_Inventory h)" "keeps (worldly J) (x_VMs h)" "keeps (worldly J) (x_Datastores h)" "keeps (worldly J) (x_ReadFile h p)"
  "keeps (worldly J) (x_Exists h p)" "keeps (worldly J) (x_Canonical h p)" "keeps (worldly J) (x_List h p)" "keeps (worldly J) (x_Size h p)"
  "keeps (worldly J) (x_Allocated h p)" "keeps (worldly J) (x_Power h i)" "keeps (worldly J) (x_Snapshot h i)"
  "keeps (worldly J) (x_ToolsRunning h i)" "keeps (worldly J) (x_Autostart h)" "keeps (worldly J) (x_VerifyChain h p)"
  "keeps (worldly J) (x_CloneStatus h i)" "keeps (worldly J) (x_Message h i)" "keeps (worldly J) (x_StartClone h p k vm a b off)"
  "keeps (worldly J) (x_Shutdown h i)" "keeps (worldly J) (x_ForceOff h i)" "keeps (worldly J) (x_Unregister h i)"
  "keeps (worldly J) (x_Register h p)" "keeps (worldly J) (x_PowerOn h i)" "keeps (worldly J) (x_Answer h i a b)"
  "keeps (worldly J) (x_WriteTarget h p a b)" "keeps (worldly J) (x_CreateTarget h p)" "keeps (worldly J) (x_CopyToTarget h p a)"
  "keeps (worldly J) (x_Acquire h p a)" "keeps (worldly J) (x_Finish h p)" "keeps (worldly J) (x_CreateSnapshot h i p)"
  "keeps (worldly J) (x_ConsolidateOwnSnapshot h i p)" "keeps (worldly J) (x_StopClone h i)"
  using host unfolding stable_host_def x_defs by (simp_all add: stays_call)

lemma stays_job [stays]:
  "keeps (worldly J) (j_update h u)" "keeps (worldly J) (j_update_at h v)" "keeps (worldly J) (j_update_job h w)" "keeps (worldly J) (j_phase h p m)"
  "keeps (worldly J) (j_stopRequested h)" "keeps (worldly J) (j_proceed h p m)" "keeps (worldly J) (j_Snapshot h)"
  "keeps (worldly J) j_plan" "keeps (worldly J) (j_set_plan r)"
  unfolding j_phase_def j_update_def j_update_at_def j_update_job_def j_stopRequested_def j_proceed_def j_Snapshot_def j_plan_def j_set_plan_def
  by (intro keeps_intros stays)+

lemma stays_await [stays]: "keeps (worldly J) (await_action n h)"
proof (induction n)
  case 0
  show ?case by (simp add: keeps_alt)
next
  case (Suc n)
  show ?case
  proof (rule keepsI)
    fix s
    assume J: "worldly J s"
    obtain k w where k: "h_wake h (s_world s) = (k, w)" by (cases "h_wake h (s_world s)")
    with host J have w: "J w" by (auto simp: stable_host_def steady_world_def worldly_def dest: spec [of _ "s_world s"])
    show "worldly J (snd (await_action (Suc n) h s))"
    proof (cases k)
      case (Cancelled c)
      with k w show ?thesis by simp
    next
      case (Requests qs)
      let ?t = "fold serve qs (s\<lparr>s_world := w\<rparr>)"
      have t: "worldly J (snd (take_action ?t))" by (simp add: worldly_def w)
      with k Requests keepsD [OF Suc.IH t] show ?thesis by (cases "take_action ?t"; cases "fst (take_action ?t)") simp_all
    qed
  qed
qed

section \<open>The inspection\<close>

lemma stays_search [stays]:
  "keeps (worldly J) (x_localFile h f d ds)" "keeps (worldly J) (x_externalFile h f d ds)"
  unfolding x_localFile_def x_externalFile_def by (intro keeps_intros stays)+

lemma stays_freeFolder [stays]: "keeps (worldly J) (freeFolder h m d)"
proof -
  have "keeps (worldly J) (x_freeFolder h m d ns)" for ns
    by (induction ns) (simp_all add: Let_def keeps_intros stays)
  then show ?thesis unfolding freeFolder_def .
qed

lemma stays_vmxUses [stays]: "keeps (worldly J) (vmxUses h f d ds)"
proof -
  have "keeps (worldly J) (vmxUses_entries h f d ds c)" for c
    by (induction c) (auto simp: keeps_intros stays)
  then show ?thesis by (simp add: vmxUses_def keeps_intros stays)
qed

lemma stays_inspectFolder [stays]: "keeps (worldly J) (inspectFolder h d ps ds r)"
proof -
  have "keeps (worldly J) (inspect_file h d ps ds fs f st)" for fs f st
    unfolding inspect_file_def Let_def by (intro keeps_intros stays)+
  then show ?thesis unfolding inspectFolder_def Let_def by (intro keeps_intros stays)
qed

lemma stays_otherChain [stays]: "keeps (worldly J) (otherChain n h d ds b desc)"
proof -
  have e: "keeps (worldly J) (chain_extents h d ds b es)" for es
    by (induction es) (auto intro!: keeps_intros stays)
  show ?thesis
    by (induction n arbitrary: desc) (auto intro!: keeps_intros stays e)
qed

lemma stays_sharedCheck [stays]: "keeps (worldly J) (sharedCheck h iv i b)"
proof -
  have e: "keeps (worldly J) (shared_entries h p ds b c)" for p ds c
    by (induction c) (auto intro!: keeps_intros stays)
  have "keeps (worldly J) (shared_vm h ds i b v)" for ds v
    unfolding shared_vm_def by (intro keeps_intros stays e)+
  then show ?thesis by (simp add: sharedCheck_def keeps_each)
qed

lemma stays_inspect [stays]: "keeps (worldly J) (inspect h xml app req i done)"
  unfolding inspect_def inspect_rest_def inspect_target_def inspect_power_def inspect_autostart_def inspect_config_def inspect_place_def
    inspect_snapshots_def inspect_vmsd_def inspect_disk_def locate_disk_def inspect_descriptor_def read_descriptor_def measure_disk_def
    inspect_disks_def inspect_outside_def inspect_config_file_def inspect_shared_def Let_def
  by (intro keeps_intros stays)+

lemma stays_verify [stays]: "keeps (worldly J) (verifyDisk h d)" "keeps (worldly J) (copyConfig h r cfg names)"
  unfolding verifyDisk_def copyConfig_def copy_file_def Let_def by (intro keeps_intros stays)+

end

section \<open>The engine\<close>

locale engine_law =
  fixes J :: "'w \<Rightarrow> bool" and e :: "'w engine"
  assumes engine: "stable_host J (eg_Host e)"

sublocale engine_law \<subseteq> host_law J "eg_Host e"
  by unfold_locales (rule engine)

context engine_law
begin

lemma stays_guards [stays]:
  "keeps (worldly J) (e_inspect e req i done)" "keeps (worldly J) (requireOff e vm)" "keeps (worldly J) (liveSourceFree e r)"
  "keeps (worldly J) (registrations e a b)" "keeps (worldly J) (waited x)" "keeps (worldly J) (publishRegistrations e k l)"
  unfolding e_inspect_def requireOff_def liveSourceFree_def registrations_def match_registration_def publishRegistrations_def waited_def Let_def
  by (intro keeps_intros stays)+

lemma stays_guard_cold [stays]: "keeps (worldly J) (guard_cold e r created used)"
  unfolding guard_cold_def by (intro keeps_intros stays)

lemma stays_shutdown [stays]: "keeps (worldly J) v \<Longrightarrow> keeps (worldly J) (shutdown e r v)"
proof -
  assume v: "keeps (worldly J) v"
  have "keeps (worldly J) (shutdown_loop n e vm v t)" for n vm t
    by (induction n arbitrary: t) (auto simp: Let_def intro!: keeps_intros stays v)
  then show ?thesis unfolding shutdown_def Let_def by (intro keeps_intros stays)
qed

lemma stays_waitClone [stays]: "keeps (worldly J) (waitClone e k startErr)"
proof -
  have "keeps (worldly J) (stop_clone e k w)" "keeps (worldly J) (observe_clone e k startErr since w)" for w since
    unfolding stop_clone_def observe_clone_def clone_done_def watch_space_def Let_def by (intro keeps_intros stays)+
  then have "keeps (worldly J) (wait_loop n e k startErr since t w)" for n since t w
    by (induction n arbitrary: w) (auto simp: Let_def intro!: keeps_intros stays)
  then show ?thesis unfolding waitClone_def Let_def by (intro keeps_intros stays)
qed

lemma stays_commit [stays]: "keeps (worldly J) (commit e r)"
  unfolding commit_def commit_register_def Let_def by (intro keeps_intros stays)

lemma stays_powerOn [stays]: "keeps (worldly J) (powerOn e)"
proof -
  have "keeps (worldly J) (power_loop n e vm t powerErr answered)" for n vm t powerErr answered
    by (induction n arbitrary: answered) (auto simp: Let_def intro!: keeps_intros stays)
  then show ?thesis unfolding powerOn_def Let_def by (intro keeps_intros stays)
qed

lemma stays_Run_cold [stays]: "keeps (worldly J) (Run_cold e)"
  unfolding Run_cold_def run_cold_def clone_cold_def clone_disk_def finish_cold_def switch_registration_def archive_lock_def
    markFailed_def stopped_def Let_def
  by (intro keeps_intros stays)

lemma stays_Rollback: "keeps (worldly J) (Rollback e)"
  unfolding Rollback_def Let_def by (intro keeps_intros stays)

section \<open>A live migration\<close>

lemma stays_live_checks [stays]:
  "keeps (worldly J) (ownSnapshotOnly e vm name)" "keeps (worldly J) (liveDeltas e r name)" 
  "keeps (worldly J) (liveMetadata e r name)" "keeps (worldly J) (sameCID e d)" "keeps (worldly J) (sameSize e a b)"
  "keeps (worldly J) (merged e vm p names)" "keeps (worldly J) (live_check e r done)"
  unfolding ownSnapshotOnly_def liveDeltas_def find_delta_def liveMetadata_def sameCID_def sameSize_def merged_def live_check_def Let_def
  by (intro keeps_intros stays)+

lemma stays_live_guards [stays]:
  "keeps (worldly J) (liveGuard e r name deltas)" "keeps (worldly J) (verifyDelta e r dl)" "keeps (worldly J) (verifyCopies e r m)"
  unfolding liveGuard_def verifyDelta_def verifyCopies_def Let_def by (intro keeps_intros stays)+

lemma stays_ends [stays]: "keeps (worldly J) (restoreSource e r name)" "keeps (worldly J) (mergeCopy e r name)"
  unfolding restoreSource_def restore_target_def restore_registration_def mergeCopy_def Let_def by (intro keeps_intros stays)+

lemma stays_clone_live [stays]: "keeps (worldly J) (clone_live e r name deltas p xs)"
proof -
  have "keeps (worldly J) (clone_live_disk e r name deltas p x)" for p x
    unfolding clone_live_disk_def Let_def by (intro keeps_intros stays)
  then show ?thesis by (induction xs arbitrary: p) (auto intro!: keeps_intros)
qed

lemma stays_cutover [stays]: "keeps (worldly J) (cutover e r fresh name deltas)"
  unfolding cutover_def copy_delta_def Let_def by (intro keeps_intros stays)

lemma stays_runLive [stays]: "keeps (worldly J) (runLive e)"
  unfolding runLive_def live_def live_body_def live_close_def live_after_def live_deferred_def archive_lock_def markFailed_def Let_def
  by (intro keeps_intros stays)

lemma stays_Run: "keeps (worldly J) (Run e)"
  unfolding Run_def by (intro keeps_intros stays)

end

end
