(* ===== verification/Client_Engine.thy ===== *)
theory Client_Engine
  imports Client_Safety World_Law Cold_Safety
begin

text \<open>
  The engine on the ESXi client: the composition of the two big parts of the program. The client is a host in
  the sense of \<open>World_Law\<close>, so what every operation of the client keeps, a whole migration keeps.
\<close>

section \<open>The client as a host\<close>

definition lawful_client :: "'x client \<Rightarrow> bool" where
  "lawful_client s = lawful (cn_sent s)"

lemma steady_op: "tame (\<lambda>_. True) m \<Longrightarrow> steady_world lawful_client m"
  by (simp add: steady_world_def lawful_client_def tame_lawful)

lemma steady_outside: "steady_world lawful_client (outside f)"
  by (simp add: steady_world_def lawful_client_def outside_def split: prod.split)

lemma client_stable: "stable_host lawful_client (client_host ex su)"
  unfolding stable_host_def client_host_def
  by (simp add: steady_op tame_ops steady_outside)

text \<open>The engine that \<open>internal/web/server.go\<close> builds: on the client of the session, with the server's options.\<close>

definition client_engine :: "'x executor \<Rightarrow> 'x surroundings \<Rightarrow> Options \<Rightarrow> (string \<Rightarrow> XmlToken list \<times> bool) \<Rightarrow> nat \<Rightarrow> 'x client engine" where
  "client_engine ex su opts xml n = \<lparr>eg_Host = client_host ex su, eg_Options = opts, eg_xml = xml, eg_fuel = n\<rparr>"

interpretation on_client: engine_law lawful_client "client_engine ex su opts xml n" for ex su opts xml n
  by unfold_locales (simp add: client_engine_def client_stable)

text \<open>
  C20: every command that a whole migration sends to ESXi, cold or live, and that a later rollback sends, is one of the shapes of
  \<open>sent_ok\<close>, whatever ESXi answers and the operator does, and wherever the run ends.
\<close>

theorem migration_commands_lawful:
  "lawful (cn_sent (s_world (snd (Run (client_engine ex su opts xml n) (begun (NewClient x) r t t'))))) \<and>
   lawful (cn_sent (s_world (snd (Rollback (client_engine ex su opts xml n) (snd (Run (client_engine ex su opts xml n) (begun (NewClient x) r t t')))))))"
proof -
  let ?s = "begun (NewClient x) r t t'" and ?e = "client_engine ex su opts xml n"
  have start: "worldly lawful_client ?s" by (simp add: worldly_def begun_def lawful_client_def NewClient_def)
  have "worldly lawful_client (snd (Run ?e ?s))" by (rule keepsD [OF on_client.stays_Run start])
  moreover from this have "worldly lawful_client (snd (Rollback ?e (snd (Run ?e ?s))))" by (rule keepsD [OF on_client.stays_Rollback])
  ultimately show ?thesis by (simp add: worldly_def lawful_client_def)
qed

end
