(* ===== verification/Ssh_Executor.thy ===== *)
theory Ssh_Executor
  imports Esxi_Client
begin

text \<open>
  The SSH executor (\<open>internal/esxi/ssh.go\<close>): one pooled connection that is trusted only under the confirmed host key, the
  running of a command with at most one retry, before anything was sent, the bounded output buffers and the redaction of secrets. The network and
  the package \<open>golang.org/x/crypto/ssh\<close> are the parameter \<open>network\<close>, on a world of any type; connections are numbers. What was sent over
  which connection is kept, newest first, for the theorems.
\<close>

section \<open>Options and credentials\<close>

record SSHOptions =
  so_Address :: string
  so_User :: string
  so_Password :: string
  so_PrivateKey :: string
  so_Passphrase :: string
  so_Fingerprint :: string

text \<open>
  \<open>net.SplitHostPort\<close>: the host and the port, where a colon ends the host. A host with colons stands in brackets.
\<close>

definition split_host_port :: "string \<Rightarrow> (string \<times> string) option" where
  "split_host_port s =
     (if CHR '':'' \<notin> set s then None
      else let port = after_last (CHR '':'') s; front = butlast (upto_last (CHR '':'') s) in
        if has_prefix s ''['' then
          (case index_of s '']'' of
             None \<Rightarrow> None
           | Some n \<Rightarrow> if Suc n \<noteq> length front then None
               else if CHR ''['' \<in> set (drop 1 s) \<or> CHR '']'' \<in> set (drop (Suc n) s) then None
               else Some (drop 1 (take n s), port))
        else if CHR '':'' \<in> set front \<or> CHR ''['' \<in> set s \<or> CHR '']'' \<in> set s then None
        else Some (front, port))"

text \<open>
  The ways to sign in: a parsed private key of the SSH package, or the password, given directly or as the answer to every
  question.
\<close>

datatype 'k auth_method = PublicKeys 'k | Password string | KeyboardInteractive "string list \<Rightarrow> string list"

record 'k ssh_setup =
  ss_options :: SSHOptions
  ss_auth :: "'k auth_method list"

definition NewSSH :: "(string \<Rightarrow> string \<Rightarrow> 'k option) \<Rightarrow> (string \<Rightarrow> 'k option) \<Rightarrow> SSHOptions \<Rightarrow> 'k ssh_setup result" where
  "NewSSH parse_with parse opts =
     (if so_User opts = [] \<or> so_Fingerprint opts = [] then Inl (Errorf ''username and confirmed host fingerprint are required'')
      else if split_host_port (so_Address opts) = None then Inl (Errorf ''invalid SSH host/port'')
      else if so_PrivateKey opts \<noteq> [] then
        (case (if so_Passphrase opts \<noteq> [] then parse_with (so_PrivateKey opts) (so_Passphrase opts) else parse (so_PrivateKey opts)) of
           None \<Rightarrow> Inl (Errorf ''cannot parse SSH private key or unlock it with that passphrase'')
         | Some signer \<Rightarrow> Inr \<lparr>ss_options = opts, ss_auth = [PublicKeys signer]\<rparr>)
      else if so_Password opts \<noteq> [] then
        Inr \<lparr>ss_options = opts, ss_auth = [Password (so_Password opts), KeyboardInteractive (\<lambda>questions. map (\<lambda>_. so_Password opts) questions)]\<rparr>
      else Inl (Errorf ''SSH credentials are required''))"

section \<open>Redaction\<close>

definition marker :: string where "marker = ''[REDACTED]''"

definition Redact :: "SSHOptions \<Rightarrow> string \<Rightarrow> string" where
  "Redact opts v = fold (\<lambda>secret v. if secret \<noteq> [] then replace_all v secret marker else v) [so_Password opts, so_PrivateKey opts, so_Passphrase opts] v"

text \<open>An error of the network: what \<open>errors.As\<close> finds in it, and its text.\<close>

record net_error =
  ne_Timeout :: bool
  ne_OpError :: bool
  ne_Text :: string

definition describe :: "SSHOptions \<Rightarrow> net_error \<Rightarrow> string" where
  "describe opts e =
     (if ne_Timeout e then ''the host did not answer in time; check the address, port and any firewall''
      else if ne_OpError e then ''the host is not reachable on this address and port''
      else let m = Redact opts (ne_Text e) in
        if contains m ''host key changed'' then ''the host key no longer matches the fingerprint you confirmed''
        else if contains m ''no common algorithm'' then ''no SSH algorithm in common with the host ('' @ m @ '')''
        else if contains m ''unable to authenticate'' then ''the host rejected the credentials ('' @ m @ '')''
        else ''unexpected SSH failure ('' @ m @ '')'')"

section \<open>Bounded output\<close>

record limitedBuffer =
  lb_b :: string
  lb_overflow :: bool

definition buffer_limit :: nat where "buffer_limit = 2097152"

definition empty_buffer :: limitedBuffer where
  "empty_buffer = \<lparr>lb_b = [], lb_overflow = False\<rparr>"

definition buffer_Write :: "string \<Rightarrow> limitedBuffer \<Rightarrow> limitedBuffer" where
  "buffer_Write p b =
     (let room = buffer_limit - length (lb_b b) in
      if length p > room then b\<lparr>lb_overflow := True, lb_b := lb_b b @ take room p\<rparr>
      else b\<lparr>lb_b := lb_b b @ p\<rparr>)"

definition buffer_value :: "limitedBuffer \<Rightarrow> string \<times> bool" where
  "buffer_value b = (lb_b b, lb_overflow b)"

section \<open>The network\<close>

text \<open>How a session's command ended: with status 0, with another status, or without one.\<close>

datatype ending = Finished | Exited int | Interrupted

text \<open>
  A handshake gets the callback that accepts or refuses the host key's fingerprint; the context of a command starts with its limit, may be
  done at any time, and then fires the watcher of the connection in use. A probe is a handshake whose callback keeps the host key's
  fingerprint (empty when the callback was not called) and stops.
\<close>

record ('x, 'k) network =
  nw_handshake :: "string \<Rightarrow> string \<Rightarrow> 'k auth_method list \<Rightarrow> (string \<Rightarrow> bool) \<Rightarrow> 'x \<Rightarrow> (net_error + int) \<times> 'x"
  nw_start :: "int \<Rightarrow> 'x \<Rightarrow> 'x"
  nw_ctx_err :: "'x \<Rightarrow> err option \<times> 'x"
  nw_fired :: "'x \<Rightarrow> bool \<times> 'x"
  nw_NewSession :: "int \<Rightarrow> 'x \<Rightarrow> bool \<times> 'x"
  nw_exec :: "int \<Rightarrow> string \<Rightarrow> string \<Rightarrow> 'x \<Rightarrow> (string list \<times> string list \<times> ending) \<times> 'x"
  nw_close :: "int \<Rightarrow> 'x \<Rightarrow> err option \<times> 'x"
  nw_now :: "'x \<Rightarrow> int \<times> 'x"
  nw_probe :: "string \<Rightarrow> 'x \<Rightarrow> (string \<times> (net_error + int)) \<times> 'x"

record 'x pool =
  po_world :: 'x
  po_client :: "int option"
  po_pinned :: string
  po_sent :: "(int \<times> Command) list"

definition new_pool :: "'x \<Rightarrow> 'x pool" where
  "new_pool x = \<lparr>po_world = x, po_client = None, po_pinned = [], po_sent = []\<rparr>"

definition on_net :: "('x \<Rightarrow> 'a \<times> 'x) \<Rightarrow> 'x pool \<Rightarrow> 'a \<times> 'x pool" where
  "on_net f s = (case f (po_world s) of (a, x) \<Rightarrow> (a, s\<lparr>po_world := x\<rparr>))"

section \<open>Reading a host key\<close>

definition ProbeHostKey :: "('x, 'k) network \<Rightarrow> string \<Rightarrow> 'x \<Rightarrow> string result \<times> 'x" where
  "ProbeHostKey nw addr x =
     (case nw_probe nw addr x of
        ((fp, r), x1) \<Rightarrow>
          let x2 = (case r of Inr c \<Rightarrow> snd (nw_close nw c x1) | Inl _ \<Rightarrow> x1) in
          if fp \<noteq> [] then (Inr fp, x2)
          else (case r of
              Inl _ \<Rightarrow> (Inl (Errorf ''SSH host-key probe failed; check host, port and SSH algorithms''), x2)
            | Inr _ \<Rightarrow> (Inl (Errorf ''no SSH host key returned''), x2)))"

section \<open>The connection\<close>

text \<open>The pinned host key, compared byte by byte.\<close>

definition accepts_key :: "SSHOptions \<Rightarrow> string \<Rightarrow> bool" where
  "accepts_key opts fp = (fp = so_Fingerprint opts)"

definition connection :: "('x, 'k) network \<Rightarrow> 'k ssh_setup \<Rightarrow> 'x pool \<Rightarrow> (net_error + int) \<times> 'x pool" where
  "connection nw su s =
     (let opts = ss_options su;
          dial = (\<lambda>s. case on_net (nw_handshake nw (so_Address opts) (so_User opts) (ss_auth su) (accepts_key opts)) s of
             (Inl e, s') \<Rightarrow> (Inl e, s')
           | (Inr c, s') \<Rightarrow> (Inr c, s'\<lparr>po_client := Some c, po_pinned := so_Fingerprint opts\<rparr>))
      in case po_client s of
           None \<Rightarrow> dial s
         | Some c \<Rightarrow> if po_pinned s = so_Fingerprint opts then (Inr c, s)
             else dial ((snd (on_net (nw_close nw c) s))\<lparr>po_client := None\<rparr>))"

definition discard :: "('x, 'k) network \<Rightarrow> int \<Rightarrow> 'x pool \<Rightarrow> 'x pool" where
  "discard nw c s = snd (on_net (nw_close nw c) (if po_client s = Some c then s\<lparr>po_client := None\<rparr> else s))"

definition ssh_Close :: "('x, 'k) network \<Rightarrow> 'x pool \<Rightarrow> err option \<times> 'x pool" where
  "ssh_Close nw s = (case po_client s of
      None \<Rightarrow> (None, s)
    | Some c \<Rightarrow> on_net (nw_close nw c) (s\<lparr>po_client := None\<rparr>))"

text \<open>The watcher of a connection: when the context is done, it is discarded.\<close>

definition watch :: "('x, 'k) network \<Rightarrow> int \<Rightarrow> 'x pool \<Rightarrow> 'x pool" where
  "watch nw c s = (case on_net (nw_fired nw) s of (fired, s') \<Rightarrow> if fired then discard nw c s' else s')"

section \<open>Running a command\<close>

definition failed_result :: Result where
  "failed_result = \<lparr>rs_Stdout = [], rs_Stderr = [], rs_ExitCode = -1\<rparr>"

text \<open>A session on the pooled connection, or, once, on a fresh one.\<close>

fun open_session :: "nat \<Rightarrow> ('x, 'k) network \<Rightarrow> 'k ssh_setup \<Rightarrow> 'x pool \<Rightarrow> (err + int) \<times> 'x pool" where
  "open_session attempts nw su s =
     (case on_net (nw_ctx_err nw) s of
        (Some e, s1) \<Rightarrow> (Inl e, s1)
      | (None, s1) \<Rightarrow>
          (case connection nw su s1 of
             (Inl e, s2) \<Rightarrow> (Inl (Errorf (''SSH connection failed: '' @ describe (ss_options su) e)), s2)
           | (Inr c, s2) \<Rightarrow>
               (case on_net (nw_NewSession nw c) s2 of (ok, s3) \<Rightarrow>
                  let s4 = watch nw c s3 in
                  if ok then (Inr c, s4)
                  else let s5 = discard nw c s4 in
                    (case attempts of
                       0 \<Rightarrow> (Inl (Errorf ''SSH session unavailable''), s5)
                     | Suc n \<Rightarrow> open_session n nw su s5))))"

declare open_session.simps [simp del]

definition run_session :: "('x, 'k) network \<Rightarrow> int \<Rightarrow> Command \<Rightarrow> 'x pool \<Rightarrow> (Result \<times> err option) \<times> 'x pool" where
  "run_session nw c cmd s =
     (case on_net (nw_exec nw c (cm_Script cmd) (cm_Input cmd)) (s\<lparr>po_sent := (c, cmd) # po_sent s\<rparr>) of
        ((outs, errs, ended), s1) \<Rightarrow>
          (let s2 = watch nw c s1;
               (stdout, a) = buffer_value (fold buffer_Write outs empty_buffer);
               (stderr, b) = buffer_value (fold buffer_Write errs empty_buffer);
               r = \<lparr>rs_Stdout = stdout, rs_Stderr = stderr, rs_ExitCode = 0\<rparr>
           in if a \<or> b then ((failed_result, Some (Errorf ''SSH output exceeded safe limit'')), s2)
              else (case ended of
                      Finished \<Rightarrow> ((r, None), s2)
                    | Exited n \<Rightarrow> ((r\<lparr>rs_ExitCode := n\<rparr>, None), s2)
                    | Interrupted \<Rightarrow> ((r\<lparr>rs_ExitCode := -1\<rparr>, Some (Errorf ''SSH command interrupted; remote result is unknown'')), discard nw c s2))))"

definition SSH_Run :: "('x, 'k) network \<Rightarrow> 'k ssh_setup \<Rightarrow> Command \<Rightarrow> 'x pool \<Rightarrow> (Result \<times> err option) \<times> 'x pool" where
  "SSH_Run nw su cmd s =
     (case open_session 1 nw su s of
        (Inl e, s1) \<Rightarrow> ((failed_result, Some e), s1)
      | (Inr c, s1) \<Rightarrow>
          (case on_net (nw_ctx_err nw) s1 of
             (Some e, s2) \<Rightarrow> ((failed_result, Some e), s2)
           | (None, s2) \<Rightarrow> run_session nw c cmd s2))"

text \<open>The executor of the client.\<close>

definition ssh_executor :: "('x, 'k) network \<Rightarrow> 'k ssh_setup \<Rightarrow> 'x pool executor" where
  "ssh_executor nw su = \<lparr>ex_Run = (\<lambda>limit cmd s. SSH_Run nw su cmd (s\<lparr>po_world := nw_start nw limit (po_world s)\<rparr>)),
     ex_Redact = client_Redact (Some (Redact (ss_options su))), ex_now = on_net (nw_now nw)\<rparr>"

text \<open>\<open>Close\<close> of a client over SSH, which a session calls when it gives its client up.\<close>

definition close_client :: "('x, 'k) network \<Rightarrow> 'x pool client \<Rightarrow> err option \<times> 'x pool client" where
  "close_client nw = client_Close (Some (ssh_Close nw))"

text \<open>After it, the pool is empty: the next command would have to connect, and check the host key, again.\<close>

lemma closed_client: "po_client (cn_world (snd (close_client nw s))) = None"
  by (simp add: close_client_def client_Close_def ssh_Close_def on_net_def split: option.split prod.split)

end
