(* ===== verification/Ssh_Safety.thy ===== *)
theory Ssh_Safety
  imports Ssh_Executor
begin

text \<open>
  What the SSH executor promises: commands go only to a host with the confirmed key, each at most once, with their whole
  output or none, and no text that it shows has a secret in it.
\<close>

section \<open>Redaction\<close>

lemma prefix_replaced:
  "m \<noteq> [] \<Longrightarrow> set t \<inter> set m = {} \<Longrightarrow> has_prefix (replace_all s old m) t \<Longrightarrow> has_prefix s t"
proof (induction s old m arbitrary: t rule: replace_all.induct)
  case (1 s old m)
  show ?case
  proof (cases t)
    case (Cons x t')
    consider "s = [] \<or> old = []" | "s \<noteq> []" "old \<noteq> []" "has_prefix s old" | "s \<noteq> []" "old \<noteq> []" "\<not> has_prefix s old" by blast
    then show ?thesis
    proof cases
      case 1
      with "1.prems" show ?thesis by (simp add: replace_all.simps [of s])
    next
      case 2
      with "1.prems" Cons show ?thesis by (cases m) (simp_all add: replace_all.simps [of s])
    next
      case 3
      with "1.prems" Cons have "x = hd s" "has_prefix (replace_all (tl s) old m) t'" by (simp_all add: replace_all.simps [of s])
      with 3 "1.IH"(2) [of t'] "1.prems"(1,2) Cons show ?thesis by (cases s) auto
    qed
  qed simp
qed

lemma contains_Cons: "contains (c # s) p \<longleftrightarrow> has_prefix (c # s) p \<or> contains s p"
  by (simp add: contains_def)

lemma contains_skip: "set t \<inter> set m = {} \<Longrightarrow> t \<noteq> [] \<Longrightarrow> contains (m @ s) t \<Longrightarrow> contains s t"
proof (induction m)
  case (Cons c m)
  then have "\<not> has_prefix ((c # m) @ s) t" by (cases t) auto
  with Cons show ?case by (simp add: contains_Cons)
qed simp

lemma contains_drop: "contains (drop n s) t \<Longrightarrow> contains s t"
  by (metis append.assoc append_take_drop_id contains_iff)

lemma has_prefix_contains: "has_prefix s t \<Longrightarrow> contains s t"
  by (metis append_Nil contains_iff has_prefix_iff)

text \<open>Replacing by a text that shares no byte with \<open>t\<close> makes no \<open>t\<close>, and leaves none of what it replaces.\<close>

lemma contains_replaced:
  assumes m: "m \<noteq> []" and t: "set t \<inter> set m = {}" "t \<noteq> []"
  shows "contains (replace_all s old m) t \<Longrightarrow> contains s t \<and> t \<noteq> old"
proof (induction "length s" arbitrary: s rule: less_induct)
  case less
  consider "s = [] \<or> old = []" | "s \<noteq> []" "old \<noteq> []" "has_prefix s old" | "s \<noteq> []" "old \<noteq> []" "\<not> has_prefix s old" by blast
  then show ?case
  proof cases
    case 1
    with less.prems t(2) show ?thesis by (auto simp: replace_all.simps [of s] contains_def)
  next
    case 2
    with less.prems have "contains (m @ replace_all (drop (length old) s) old m) t" by (simp add: replace_all.simps [of s])
    then have "contains (replace_all (drop (length old) s) old m) t" by (rule contains_skip [OF t])
    with 2 have "contains (drop (length old) s) t \<and> t \<noteq> old" by (intro less.hyps) simp_all
    then show ?thesis by (blast intro: contains_drop)
  next
    case 3
    then have "replace_all s old m = hd s # replace_all (tl s) old m" by (simp add: replace_all.simps [of s])
    with less.prems consider "has_prefix (replace_all s old m) t" | "contains (replace_all (tl s) old m) t"
      by (auto simp: contains_Cons)
    then show ?thesis
    proof cases
      case 1
      then have "has_prefix s t" by (rule prefix_replaced [OF m t(1)])
      with 3 show ?thesis by (auto intro: has_prefix_contains)
    next
      case 2
      with 3 have "contains (tl s) t \<and> t \<noteq> old" by (intro less.hyps) simp_all
      with 3(1) show ?thesis by (cases s) (simp_all add: contains_Cons)
    qed
  qed
qed

text \<open>
  C26: a redacted text has no secret in it. That holds for a password, private key or passphrase that shares no byte with the text
  that replaces it.
\<close>

theorem secrets_redacted:
  assumes "secret \<in> {so_Password opts, so_PrivateKey opts, so_Passphrase opts}" and "secret \<noteq> []" and "set secret \<inter> set marker = {}"
  shows "\<not> contains (Redact opts v) secret"
proof -
  define hide where "hide = (\<lambda>(s :: string) v. if s \<noteq> [] then replace_all v s marker else v)"
  have marker: "marker \<noteq> []" by (simp add: marker_def)
  have gone: "\<not> contains (hide secret v) secret" for v
    using contains_replaced [OF marker assms(3,2), of v secret] assms(2) by (auto simp: hide_def)
  have stays: "\<not> contains (hide s v) secret" if "\<not> contains v secret" for s v
    using contains_replaced [OF marker assms(3,2), of v s] that by (auto simp: hide_def)
  have "Redact opts v = hide (so_Passphrase opts) (hide (so_PrivateKey opts) (hide (so_Password opts) v))"
    by (simp add: Redact_def hide_def)
  then show ?thesis
    using assms(1) gone stays by (metis insertE singletonD)
qed

definition sample_options :: SSHOptions where
  "sample_options = \<lparr>so_Address = ''esxi:22'', so_User = ''root'', so_Password = ''pw'', so_PrivateKey = [], so_Passphrase = [], so_Fingerprint = ''SHA256:x''\<rparr>"

lemma secrets_redacted_witness: "\<not> contains (Redact sample_options ''login pw rejected'') ''pw''"
  by (rule secrets_redacted) (simp_all add: sample_options_def marker_def)

section \<open>Output\<close>

lemma write_value:
  "length (lb_b b) \<le> buffer_limit \<Longrightarrow> lb_b b = take buffer_limit all \<Longrightarrow> lb_overflow b = (buffer_limit < length all) \<Longrightarrow>
   lb_b (buffer_Write p b) = take buffer_limit (all @ p) \<and> lb_overflow (buffer_Write p b) = (buffer_limit < length (all @ p))"
  by (auto simp: buffer_Write_def Let_def min_def)

lemma buffer_contents:
  "buffer_value (fold buffer_Write chunks empty_buffer) = (take buffer_limit (concat chunks), buffer_limit < length (concat chunks))"
proof (induction chunks rule: rev_induct)
  case Nil
  show ?case by (simp add: buffer_value_def empty_buffer_def)
next
  case (snoc p chunks)
  let ?b = "fold buffer_Write chunks empty_buffer"
  from snoc have b: "lb_b ?b = take buffer_limit (concat chunks)" "lb_overflow ?b = (buffer_limit < length (concat chunks))"
    by (simp_all add: buffer_value_def)
  moreover from b(1) have "length (lb_b ?b) \<le> buffer_limit" by simp
  ultimately show ?case using write_value [of ?b "concat chunks" p] by (simp add: buffer_value_def)
qed

text \<open>
  C25: the output buffer holds what was written, up to 2 MiB, and it says that it overflowed exactly when there was more. So a
  command without an error has its whole output.
\<close>

theorem output_whole_or_refused:
  "buffer_value (fold buffer_Write chunks empty_buffer) = (take buffer_limit (concat chunks), buffer_limit < length (concat chunks))"
  by (rule buffer_contents)

section \<open>One command, sent at most once\<close>

lemma on_net_pool: "on_net f s = (a, s') \<Longrightarrow> po_sent s' = po_sent s \<and> po_client s' = po_client s \<and> po_pinned s' = po_pinned s"
  by (auto simp: on_net_def split: prod.splits)

lemma snd_on_net [simp]: "po_sent (snd (on_net f s)) = po_sent s" "po_client (snd (on_net f s)) = po_client s" "po_pinned (snd (on_net f s)) = po_pinned s"
  by (simp_all add: on_net_def split: prod.split)

lemma discard_sent [simp]: "po_sent (discard nw c s) = po_sent s"
  by (simp add: discard_def)

lemma watch_sent [simp]: "po_sent (watch nw c s) = po_sent s"
  by (auto simp: watch_def split: prod.split dest!: on_net_pool)

lemma connection_sent: "connection nw su s = (r, s') \<Longrightarrow> po_sent s' = po_sent s"
  by (auto simp: connection_def Let_def split: option.splits if_splits prod.splits sum.splits dest!: on_net_pool)

lemma session_sent: "open_session n nw su s = (r, s') \<Longrightarrow> po_sent s' = po_sent s"
proof (induction n arbitrary: s)
  case 0
  then show ?case
    by (auto simp: open_session.simps [of 0] Let_def split: prod.splits option.splits sum.splits if_splits dest!: on_net_pool connection_sent)
next
  case (Suc n)
  from Suc.prems show ?case
    by (auto simp: open_session.simps [of "Suc n"] Let_def split: prod.splits option.splits sum.splits if_splits dest!: on_net_pool connection_sent Suc.IH)
qed

text \<open>
  What is reported of a command, from what the session gave: both its outputs in full with its exit status, where neither is longer than
  the limit and there was a status; else an error, and no output where there was too much, or the output so far where the connection broke.
\<close>

definition reported :: "string list \<times> string list \<times> ending \<Rightarrow> Result \<times> err option \<Rightarrow> bool" where
  "reported got answer = (case got of (outs, errs, ended) \<Rightarrow>
     (if buffer_limit < length (concat outs) \<or> buffer_limit < length (concat errs)
      then answer = (\<lparr>rs_Stdout = [], rs_Stderr = [], rs_ExitCode = -1\<rparr>, Some (Errorf ''SSH output exceeded safe limit''))
      else let whole = (\<lambda>n. \<lparr>rs_Stdout = concat outs, rs_Stderr = concat errs, rs_ExitCode = n\<rparr>) in
        (case ended of
           Finished \<Rightarrow> answer = (whole 0, None)
         | Exited n \<Rightarrow> answer = (whole n, None)
         | Interrupted \<Rightarrow> answer = (whole (-1), Some (Errorf ''SSH command interrupted; remote result is unknown'')))))"

lemma run_session_reports:
  assumes "run_session nw c cmd s = (a, s')"
  shows "po_sent s' = (c, cmd) # po_sent s \<and> (\<exists>got x'. nw_exec nw c (cm_Script cmd) (cm_Input cmd) (po_world s) = (got, x') \<and> reported got a)"
proof -
  obtain outs errs ended x' where x: "nw_exec nw c (cm_Script cmd) (cm_Input cmd) (po_world s) = ((outs, errs, ended), x')"
    by (metis prod_cases3 surj_pair)
  from assms show ?thesis
    by (auto simp: run_session_def on_net_def x reported_def Let_def buffer_contents failed_result_def split: if_splits ending.splits)
qed

text \<open>
  C22: a command is sent at most once. When it was not sent, there is an error and no result. When it was, it was executed once, over one
  connection, and the answer is what that gave: the whole of its outputs and its exit status, without an error; or, where the output was too long or the
  connection broke before there was a status, an error that says so, and no status. It is never sent again on another connection.
\<close>

theorem sent_at_most_once:
  "case SSH_Run nw su cmd s of (a, s') \<Rightarrow>
     (po_sent s' = po_sent s \<and> fst a = failed_result \<and> snd a \<noteq> None) \<or>
     (\<exists>c x got x'. po_sent s' = (c, cmd) # po_sent s \<and> nw_exec nw c (cm_Script cmd) (cm_Input cmd) x = (got, x') \<and> reported got a)"
proof (cases "SSH_Run nw su cmd s")
  case (Pair a s')
  obtain r t where t: "open_session 1 nw su s = (r, t)" by (cases "open_session 1 nw su s")
  show ?thesis
  proof (cases r)
    case (Inl e)
    with Pair t session_sent [OF t] show ?thesis by (auto simp: SSH_Run_def)
  next
    case (Inr c)
    obtain b u where u: "on_net (nw_ctx_err nw) t = (b, u)" by (cases "on_net (nw_ctx_err nw) t")
    note sent = session_sent [OF t] on_net_pool [OF u]
    show ?thesis
    proof (cases b)
      case (Some e)
      with Pair t u Inr sent show ?thesis by (auto simp: SSH_Run_def)
    next
      case None
      with Pair t u Inr have "run_session nw c cmd u = (a, s')" by (simp add: SSH_Run_def)
      from run_session_reports [OF this] obtain got x' where g: "po_sent s' = (c, cmd) # po_sent u"
        "nw_exec nw c (cm_Script cmd) (cm_Input cmd) (po_world u) = (got, x')" "reported got a" by blast
      from g(1) sent have "po_sent s' = (c, cmd) # po_sent s" by simp
      with g(2,3) show ?thesis unfolding Pair prod.case by blast
    qed
  qed
qed

section \<open>Only to the confirmed host\<close>

text \<open>
  The SSH package calls the host key callback with the key of the server it talks to, and makes no connection when
  the callback refuses it. \<open>key c\<close> is the fingerprint of the server at the other end of \<open>c\<close>.
\<close>

definition checks_keys :: "(int \<Rightarrow> string) \<Rightarrow> ('x, 'k) network \<Rightarrow> bool" where
  "checks_keys key nw = (\<forall>addr user auth callback x c x'. nw_handshake nw addr user auth callback x = (Inr c, x') \<longrightarrow> callback (key c))"

definition pool_keyed :: "(int \<Rightarrow> string) \<Rightarrow> 'x pool \<Rightarrow> bool" where
  "pool_keyed key s = (\<forall>c. po_client s = Some c \<longrightarrow> key c = po_pinned s)"

lemma keyed_on_net: "on_net f s = (a, s') \<Longrightarrow> pool_keyed key s' = pool_keyed key s"
  by (auto simp: pool_keyed_def dest: on_net_pool)

lemma keyed_discard [simp]: "pool_keyed key s \<Longrightarrow> pool_keyed key (discard nw c s)"
  by (simp add: discard_def pool_keyed_def)

lemma keyed_watch [simp]: "pool_keyed key s \<Longrightarrow> pool_keyed key (watch nw c s)"
  by (auto simp: watch_def keyed_on_net split: prod.split)

lemma handshake_accepted:
  "checks_keys key nw \<Longrightarrow> on_net (nw_handshake nw addr user auth (accepts_key opts)) s = (Inr c, s') \<Longrightarrow> key c = so_Fingerprint opts"
proof -
  assume k: "checks_keys key nw" and "on_net (nw_handshake nw addr user auth (accepts_key opts)) s = (Inr c, s')"
  then obtain x' where "nw_handshake nw addr user auth (accepts_key opts) (po_world s) = (Inr c, x')"
    by (auto simp: on_net_def split: prod.splits)
  with k have "accepts_key opts (key c)" unfolding checks_keys_def by blast
  then show ?thesis by (simp add: accepts_key_def)
qed

lemma connection_keyed:
  assumes k: "checks_keys key nw" and s: "pool_keyed key s" and c: "connection nw su s = (r, s')"
  shows "pool_keyed key s' \<and> (\<forall>c. r = Inr c \<longrightarrow> key c = so_Fingerprint (ss_options su))"
proof -
  let ?f = "nw_handshake nw (so_Address (ss_options su)) (so_User (ss_options su)) (ss_auth su) (accepts_key (ss_options su))"
  have dial: "pool_keyed key s' \<and> (\<forall>c. r = Inr c \<longrightarrow> key c = so_Fingerprint (ss_options su))"
    if t: "pool_keyed key t" and d: "(case on_net ?f t of (Inl e, s') \<Rightarrow> (Inl e, s')
      | (Inr c, s') \<Rightarrow> (Inr c, s'\<lparr>po_client := Some c, po_pinned := so_Fingerprint (ss_options su)\<rparr>)) = (r, s')" for t
  proof (cases "on_net ?f t")
    case (Pair a u)
    show ?thesis
    proof (cases a)
      case (Inl e)
      with Pair d t keyed_on_net [OF Pair, of key] show ?thesis by auto
    next
      case (Inr c)
      with Pair d handshake_accepted [OF k] show ?thesis by (auto simp: pool_keyed_def)
    qed
  qed
  show ?thesis
  proof (cases "po_client s")
    case None
    with c show ?thesis by (intro dial [OF s]) (simp add: connection_def Let_def)
  next
    case (Some c0)
    show ?thesis
    proof (cases "po_pinned s = so_Fingerprint (ss_options su)")
      case True
      with c s Some show ?thesis by (auto simp: connection_def Let_def pool_keyed_def)
    next
      case False
      let ?t = "(snd (on_net (nw_close nw c0) s))\<lparr>po_client := None\<rparr>"
      have "pool_keyed key ?t" by (simp add: pool_keyed_def)
      with c Some False show ?thesis by (intro dial [of ?t]) (simp_all add: connection_def Let_def)
    qed
  qed
qed

lemma session_keyed:
  assumes k: "checks_keys key nw"
  shows "pool_keyed key s \<Longrightarrow> open_session n nw su s = (r, s') \<Longrightarrow> pool_keyed key s' \<and> (\<forall>c. r = Inr c \<longrightarrow> key c = so_Fingerprint (ss_options su))"
proof (induction n arbitrary: s)
  case 0
  then show ?case
    by (auto simp: open_session.simps [of 0] Let_def keyed_on_net split: prod.splits option.splits sum.splits if_splits
        dest!: connection_keyed [OF k, rotated])
next
  case (Suc n)
  from Suc.prems show ?case
    by (auto simp: open_session.simps [of "Suc n"] Let_def keyed_on_net split: prod.splits option.splits sum.splits if_splits
        dest!: connection_keyed [OF k, rotated] Suc.IH [rotated])
qed

lemma run_session_keyed: "run_session nw c cmd s = (r, s') \<Longrightarrow> pool_keyed key s \<Longrightarrow> pool_keyed key s'"
  by (auto simp: run_session_def Let_def keyed_on_net pool_keyed_def [of key "s\<lparr>po_sent := _\<rparr>"] pool_keyed_def [of key s]
      split: prod.splits if_splits ending.splits)

text \<open>What an executor is used for: commands, each with a limit, and its end.\<close>

datatype pool_use = UseRun int Command | UseClose

fun use_pool :: "('x, 'k) network \<Rightarrow> 'k ssh_setup \<Rightarrow> pool_use \<Rightarrow> 'x pool \<Rightarrow> 'x pool" where
  "use_pool nw su (UseRun limit cmd) s = snd (ex_Run (ssh_executor nw su) limit cmd s)"
| "use_pool nw su UseClose s = snd (ssh_Close nw s)"

definition sent_to :: "(int \<Rightarrow> string) \<Rightarrow> string \<Rightarrow> 'x pool \<Rightarrow> bool" where
  "sent_to key fp s = list_all (\<lambda>(c, _). key c = fp) (po_sent s)"

lemma run_keyed:
  assumes k: "checks_keys key nw" and s: "pool_keyed key s" "sent_to key (so_Fingerprint (ss_options su)) s"
    and r: "SSH_Run nw su cmd s = (r, s')"
  shows "pool_keyed key s' \<and> sent_to key (so_Fingerprint (ss_options su)) s'"
proof -
  obtain a t where t: "open_session 1 nw su s = (a, t)" by (cases "open_session 1 nw su s")
  note o1 = session_keyed [OF k s(1) t] session_sent [OF t]
  show ?thesis
  proof (cases a)
    case (Inl e)
    with r t o1 s show ?thesis by (simp add: SSH_Run_def sent_to_def)
  next
    case (Inr c)
    obtain b u where u: "on_net (nw_ctx_err nw) t = (b, u)" by (cases "on_net (nw_ctx_err nw) t")
    note o2 = keyed_on_net [OF u, of key] on_net_pool [OF u]
    show ?thesis
    proof (cases b)
      case None
      with r t u Inr have "run_session nw c cmd u = (r, s')" by (simp add: SSH_Run_def)
      then show ?thesis
        using o1 o2 s Inr by (cases r) (auto simp: sent_to_def dest: run_session_reports run_session_keyed)
    next
      case (Some e)
      with r t u Inr o1 o2 s show ?thesis by (simp add: SSH_Run_def sent_to_def)
    qed
  qed
qed

lemma use_keyed:
  assumes "checks_keys key nw" and "pool_keyed key s" "sent_to key (so_Fingerprint (ss_options su)) s"
  shows "pool_keyed key (use_pool nw su use s) \<and> sent_to key (so_Fingerprint (ss_options su)) (use_pool nw su use s)"
proof (cases use)
  case (UseRun limit cmd)
  let ?s = "s\<lparr>po_world := nw_start nw limit (po_world s)\<rparr>"
  have "pool_keyed key ?s" "sent_to key (so_Fingerprint (ss_options su)) ?s"
    using assms by (simp_all add: pool_keyed_def sent_to_def)
  from run_keyed [OF assms(1) this] UseRun show ?thesis
    by (simp add: ssh_executor_def) (metis prod.collapse)
next
  case UseClose
  with assms show ?thesis
    by (simp add: ssh_Close_def pool_keyed_def sent_to_def split: option.split)
qed

text \<open>
  C23: every command goes to the host whose key the user confirmed. Whatever is run over an executor, however connections break and
  are made again, each command was sent over a connection to a server with the pinned fingerprint.
\<close>

theorem only_pinned_host:
  assumes "checks_keys key nw"
  shows "sent_to key (so_Fingerprint (ss_options su)) (fold (use_pool nw su) uses (new_pool x))"
proof -
  have "pool_keyed key s \<Longrightarrow> sent_to key (so_Fingerprint (ss_options su)) s \<Longrightarrow>
      sent_to key (so_Fingerprint (ss_options su)) (fold (use_pool nw su) uses s)" for s
    by (induction uses arbitrary: s) (simp_all add: use_keyed [OF assms])
  then show ?thesis by (simp add: new_pool_def pool_keyed_def sent_to_def)
qed

definition sample_network :: "(int, unit) network" where
  "sample_network = \<lparr>nw_handshake = (\<lambda>addr user auth callback x. if callback ''SHA256:x'' then (Inr x, x + 1)
       else (Inl \<lparr>ne_Timeout = False, ne_OpError = False, ne_Text = ''ssh: handshake failed: host key changed''\<rparr>, x)),
     nw_start = (\<lambda>limit x. x), nw_ctx_err = Pair None, nw_fired = Pair False, nw_NewSession = (\<lambda>c. Pair True),
     nw_exec = (\<lambda>c script input. Pair ([''ok''], [], Finished)), nw_close = (\<lambda>c. Pair None), nw_now = (\<lambda>x. (x, x + 1)),
     nw_probe = (\<lambda>addr x. ((''SHA256:k'', Inl \<lparr>ne_Timeout = False, ne_OpError = False, ne_Text = ''host key captured''\<rparr>), x))\<rparr>"

lemma only_pinned_host_witness:
  "checks_keys (\<lambda>_. ''SHA256:x'') sample_network \<and>
   sent_to (\<lambda>_. ''SHA256:x'') ''SHA256:x'' (use_pool sample_network \<lparr>ss_options = sample_options, ss_auth = []\<rparr>
     (UseRun 1 \<lparr>cm_Category = ''c'', cm_Script = ''s'', cm_Input = []\<rparr>) (new_pool 0))"
proof -
  have k: "checks_keys (\<lambda>_. ''SHA256:x'') sample_network"
    by (simp add: checks_keys_def sample_network_def split: if_splits)
  show ?thesis
    using only_pinned_host [OF k, of "\<lparr>ss_options = sample_options, ss_auth = []\<rparr>" "[UseRun 1 \<lparr>cm_Category = ''c'', cm_Script = ''s'', cm_Input = []\<rparr>]" 0] k
    by (simp add: sample_options_def)
qed

end
