(* ===== verification/Ssh_Engine.thy ===== *)
theory Ssh_Engine
  imports Client_Engine Ssh_Safety
begin

text \<open>
  The whole program below the web server: the engine on the client on the SSH executor. What a run of a command keeps of a client, every
  operation of the client keeps, so every migration does; and the executor keeps that commands go to the confirmed host only.
\<close>

section \<open>What every command keeps, every operation keeps\<close>

text \<open>The contract of a client whose commands keep \<open>J\<close>.\<close>

locale client_law =
  fixes J :: "'x client \<Rightarrow> bool" and ex :: "'x executor"
  assumes runs: "steady_world J (runFor ex limit cat script input)"
begin

lemma kept_ret: "steady_world J (c_ret x)"
  and kept_lift: "steady_world J (c_lift r)"
  and kept_fail: "steady_world J (c_fail t)"
  by (simp_all add: steady_world_def c_ret_def c_lift_def c_fail_def)

lemma kept_bind: "steady_world J m \<Longrightarrow> (\<And>x. steady_world J (k x)) \<Longrightarrow> steady_world J (c_bind m k)"
  unfolding steady_world_def c_bind_def
proof (intro allI impI)
  fix w
  assume m: "\<forall>w. J w \<longrightarrow> J (snd (m w))" and k: "\<And>x. \<forall>w. J w \<longrightarrow> J (snd (k x w))" and J: "J w"
  show "J (snd (case m w of (Inl e, s') \<Rightarrow> (Inl e, s') | (Inr x, s') \<Rightarrow> k x s'))"
    using m [rule_format, OF J] k by (cases "m w"; cases "fst (m w)") auto
qed

lemma kept_attempt: "steady_world J m \<Longrightarrow> steady_world J (c_attempt m)"
  by (simp add: steady_world_def c_attempt_def split_beta)

lemma kept_require: "steady_world J k \<Longrightarrow> steady_world J (c_require b t k)"
  by (simp add: c_require_def kept_fail)

lemma kept_each: "(\<And>x. steady_world J (f x)) \<Longrightarrow> steady_world J (c_each f xs)"
  by (induction xs) (simp_all add: kept_ret kept_bind)

lemma kept_cases:
  "(b \<Longrightarrow> steady_world J m) \<Longrightarrow> (\<not> b \<Longrightarrow> steady_world J k) \<Longrightarrow> steady_world J (if b then m else k)"
  "(\<And>er. steady_world J (g er)) \<Longrightarrow> (\<And>y. steady_world J (f y)) \<Longrightarrow> steady_world J (case r of Inl er \<Rightarrow> g er | Inr y \<Rightarrow> f y)"
  by (simp_all split: sum.split)

lemmas kept = kept_ret kept_lift kept_fail kept_bind kept_attempt kept_require kept_each kept_cases runs

lemma kept_run: "steady_world J (Esxi_Client.run ex cat script input)" "steady_world J (Esxi_Client.command ex cat args)" "steady_world J (vmsvc ex cat verb i more_args)"
  unfolding vmsvc_def Esxi_Client.command_def Esxi_Client.run_def by (intro kept)+

lemma kept_done: "steady_world J m \<Longrightarrow> steady_world J (done_with m)"
  unfolding done_with_def by (intro kept)

lemma kept_paths: "steady_world J (check_paths ex vms)"
  by (induction vms) (auto simp: VMPath_def intro!: kept kept_run)

lemma kept_reads:
  "steady_world J (ReadFile ex p)" "steady_world J (Exists ex p)" "steady_world J (Canonical ex p)" "steady_world J (List_dir ex p)"
  "steady_world J (Size ex p)" "steady_world J (Allocated ex p)" "steady_world J (VerifyChain ex p)" "steady_world J (c_Power ex i)"
  "steady_world J (c_Snapshot ex i)" "steady_world J (c_ToolsRunning ex i)" "steady_world J (c_VMs ex)" "steady_world J (c_Datastores ex)"
  "steady_world J (c_Autostart ex)" "steady_world J (c_Message ex i)" "steady_world J (Existing ex)" "steady_world J (capability ex n)"
  "steady_world J (c_CloneStatus ex k)"
  unfolding ReadFile_def Exists_def Canonical_def List_dir_def Size_def Allocated_def VerifyChain_def c_Power_def c_Snapshot_def c_ToolsRunning_def
    c_VMs_def c_Datastores_def c_Autostart_def c_Message_def Existing_def capability_def c_CloneStatus_def
  by (intro kept kept_run kept_paths)+

lemma kept_checkTarget: "steady_world J (checkTarget ex d)"
  unfolding checkTarget_def by (intro kept kept_reads)

lemma kept_lock: "steady_world J k \<Longrightarrow> steady_world J (require_lock ex i k)"
  unfolding require_lock_def by (intro kept kept_reads)

lemma kept_changes:
  "steady_world J (c_Inventory ex)" "steady_world J (c_Shutdown ex i)" "steady_world J (c_ForceOff ex i)" "steady_world J (c_Unregister ex i)"
  "steady_world J (c_Register ex p)" "steady_world J (c_PowerOn ex i)" "steady_world J (c_Answer ex i q a)" "steady_world J (c_CreateSnapshot ex i n)"
  "steady_world J (c_ConsolidateOwnSnapshot ex i n)" "steady_world J (c_Acquire ex j t)" "steady_world J (c_Finish ex j)" "steady_world J (c_CreateTarget ex d)"
  "steady_world J (c_WriteTarget ex d n t)" "steady_world J (c_CopyToTarget ex f d)" "steady_world J (c_StartClone ex j k i a b off)" "steady_world J (c_StopClone ex k)"
  unfolding c_Inventory_def c_Shutdown_def c_ForceOff_def c_Unregister_def c_Register_def c_PowerOn_def c_Answer_def c_CreateSnapshot_def
    c_ConsolidateOwnSnapshot_def c_Acquire_def c_Finish_def c_CreateTarget_def c_WriteTarget_def c_CopyToTarget_def c_StartClone_def c_StopClone_def Let_def
  by (intro kept kept_run kept_done kept_reads kept_checkTarget kept_lock)+

lemma kept_host:
  assumes "steady_world J (outside (ex_now ex))" "\<And>d. steady_world J (outside (su_pause su d))" "steady_world J (outside (su_operator su))"
    "steady_world J (outside (su_wake su))"
  shows "stable_host J (client_host ex su)"
  unfolding stable_host_def client_host_def by (simp add: assms kept_reads kept_changes)

end

section \<open>Over SSH\<close>

text \<open>The rest of the engine's surroundings leaves the connections alone: it is beside the network.\<close>

definition beside :: "'x surroundings \<Rightarrow> 'x pool surroundings" where
  "beside su = \<lparr>su_pause = (\<lambda>d. on_net (su_pause su d)), su_operator = on_net (su_operator su), su_wake = on_net (su_wake su)\<rparr>"

text \<open>
  What holds of a client over a pool: the pooled connection and those that commands were sent over are to the confirmed
  host, and what was sent are commands of the client, in their order, each at most once.
\<close>

definition reaches :: "(int \<Rightarrow> string) \<Rightarrow> string \<Rightarrow> 'x pool client \<Rightarrow> bool" where
  "reaches key fp s = (pool_keyed key (cn_world s) \<and> sent_to key fp (cn_world s) \<and>
     subseq (map snd (po_sent (cn_world s))) (map fst (cn_sent s)))"

lemma SSH_Run_sent:
  assumes "SSH_Run nw su co s = (r, s')"
  shows "map snd (po_sent s') = map snd (po_sent s) \<or> map snd (po_sent s') = co # map snd (po_sent s)"
proof -
  obtain a t where t: "open_session 1 nw su s = (a, t)" by (cases "open_session 1 nw su s")
  note o1 = session_sent [OF t]
  show ?thesis
  proof (cases a)
    case (Inl e)
    with assms t o1 show ?thesis by (simp add: SSH_Run_def)
  next
    case (Inr c)
    obtain b u where u: "on_net (nw_ctx_err nw) t = (b, u)" by (cases "on_net (nw_ctx_err nw) t")
    note o2 = on_net_pool [OF u]
    show ?thesis
    proof (cases b)
      case None
      with assms t u Inr have "run_session nw c co u = (r, s')" by (simp add: SSH_Run_def)
      then show ?thesis using o1 o2 by (auto dest: run_session_reports)
    next
      case (Some e)
      with assms t u Inr o1 o2 show ?thesis by (simp add: SSH_Run_def)
    qed
  qed
qed

lemma reaches_outside: "steady_world (reaches key fp) (outside (on_net f))"
  by (auto simp: steady_world_def outside_def reaches_def sent_to_def pool_keyed_def dest: on_net_pool split: prod.split)

lemma reaches_run:
  assumes "checks_keys key nw"
  shows "steady_world (reaches key (so_Fingerprint (ss_options su))) (runFor (ssh_executor nw su) limit cat script input)"
  unfolding steady_world_def
proof (intro allI impI)
  fix s :: "'a pool client"
  assume s: "reaches key (so_Fingerprint (ss_options su)) s"
  let ?cmd = "\<lparr>cm_Category = cat, cm_Script = script, cm_Input = input\<rparr>"
  obtain t0 x1 where x1: "on_net (nw_now nw) (cn_world s) = (t0, x1)" by (cases "on_net (nw_now nw) (cn_world s)")
  let ?x = "x1\<lparr>po_world := nw_start nw limit (po_world x1)\<rparr>"
  obtain r x2 where x2: "SSH_Run nw su ?cmd ?x = (r, x2)" by (cases "SSH_Run nw su ?cmd ?x")
  obtain t1 x3 where x3: "on_net (nw_now nw) x2 = (t1, x3)" by (cases "on_net (nw_now nw) x2")
  from s on_net_pool [OF x1] have "pool_keyed key ?x" "sent_to key (so_Fingerprint (ss_options su)) ?x"
    and sub: "subseq (map snd (po_sent ?x)) (map fst (cn_sent s))"
    by (simp_all add: reaches_def pool_keyed_def sent_to_def)
  from run_keyed [OF assms this(1,2) x2] on_net_pool [OF x3]
  have "pool_keyed key x3" "sent_to key (so_Fingerprint (ss_options su)) x3" by (simp_all add: pool_keyed_def sent_to_def)
  moreover have "subseq (map snd (po_sent x3)) (?cmd # map fst (cn_sent s))"
    using SSH_Run_sent [OF x2] on_net_pool [OF x3] sub by (auto intro: subseq_Cons')
  ultimately show "reaches key (so_Fingerprint (ss_options su)) (snd (runFor (ssh_executor nw su) limit cat script input s))"
    using x1 x2 x3 by (cases r) (simp add: runFor_def ssh_executor_def reaches_def Let_def)
qed

text \<open>The contract on the code's own definitions; a network that does not check keys promises nothing.\<close>

definition confirmed_only :: "(int \<Rightarrow> string) \<Rightarrow> ('x, 'k) network \<Rightarrow> 'k ssh_setup \<Rightarrow> 'x pool client \<Rightarrow> bool" where
  "confirmed_only key nw su s = (checks_keys key nw \<longrightarrow> reaches key (so_Fingerprint (ss_options su)) s)"

lemma confirmed_run: "steady_world (confirmed_only key nw su) (runFor (ssh_executor nw su) limit cat script input)"
  using reaches_run [of key nw su limit cat script input] by (auto simp: steady_world_def confirmed_only_def)

lemma confirmed_outside: "steady_world (confirmed_only key nw su) (outside (on_net f))"
  using reaches_outside [of key "so_Fingerprint (ss_options su)" f] by (auto simp: steady_world_def confirmed_only_def)

interpretation over_ssh: client_law "confirmed_only key nw su" "ssh_executor nw su" for key nw su
  by unfold_locales (rule confirmed_run)

lemma ssh_stable: "stable_host (confirmed_only key nw su) (client_host (ssh_executor nw su) (beside sur))"
  by (rule over_ssh.kept_host) (simp_all add: ssh_executor_def beside_def confirmed_outside)

interpretation ssh_engine: engine_law "confirmed_only key nw su" "client_engine (ssh_executor nw su) (beside sur) opts xml n" for key nw su sur opts xml n
  by unfold_locales (simp add: client_engine_def ssh_stable)

text \<open>The engine that the server starts, from the connection up; and its run and rollback on a new job.\<close>

definition appliance_engine :: "('x, 'k) network \<Rightarrow> 'k ssh_setup \<Rightarrow> 'x surroundings \<Rightarrow> Options \<Rightarrow> (string \<Rightarrow> XmlToken list \<times> bool) \<Rightarrow> nat \<Rightarrow> 'x pool client engine" where
  "appliance_engine nw su sur opts xml n = client_engine (ssh_executor nw su) (beside sur) opts xml n"

definition fresh_job :: "'x \<Rightarrow> Report \<Rightarrow> int \<Rightarrow> int \<Rightarrow> 'x pool client st" where
  "fresh_job x r t t' = begun (NewClient (new_pool x)) r t t'"

definition migrated :: "'x pool client engine \<Rightarrow> 'x pool client st \<Rightarrow> 'x pool client" where
  "migrated e s = s_world (snd (Run e s))"

definition rolled_back :: "'x pool client engine \<Rightarrow> 'x pool client st \<Rightarrow> 'x pool client" where
  "rolled_back e s = s_world (snd (Rollback e (snd (Run e s))))"

text \<open>
  C21: a whole migration, cold or live, and a later rollback, touch no host but the one whose key the user confirmed. Whatever breaks and is
  connected again, each command was sent over a connection to a server with the pinned fingerprint; and what was sent are commands of the
  client, in the client's order, none of them twice.
\<close>

theorem migration_reaches_confirmed_host:
  assumes "checks_keys key nw"
  shows "sent_to key (so_Fingerprint (ss_options su)) (cn_world (migrated (appliance_engine nw su sur opts xml n) (fresh_job x r t t'))) \<and>
    sent_to key (so_Fingerprint (ss_options su)) (cn_world (rolled_back (appliance_engine nw su sur opts xml n) (fresh_job x r t t'))) \<and>
    subseq (map snd (po_sent (cn_world (rolled_back (appliance_engine nw su sur opts xml n) (fresh_job x r t t')))))
      (map fst (cn_sent (rolled_back (appliance_engine nw su sur opts xml n) (fresh_job x r t t'))))"
proof -
  let ?e = "appliance_engine nw su sur opts xml n" and ?s = "fresh_job x r t t'"
  have "worldly (confirmed_only key nw su) ?s"
    by (simp add: fresh_job_def worldly_def begun_def confirmed_only_def reaches_def NewClient_def new_pool_def pool_keyed_def sent_to_def)
  from keepsD [OF ssh_engine.stays_Run this] have s: "worldly (confirmed_only key nw su) (snd (Run ?e ?s))"
    unfolding appliance_engine_def .
  from keepsD [OF ssh_engine.stays_Rollback this] have "worldly (confirmed_only key nw su) (snd (Rollback ?e (snd (Run ?e ?s))))"
    unfolding appliance_engine_def .
  with s assms show ?thesis by (simp add: migrated_def rolled_back_def worldly_def confirmed_only_def reaches_def)
qed

definition sample_setup :: "unit ssh_setup" where
  "sample_setup = \<lparr>ss_options = sample_options, ss_auth = []\<rparr>"

definition sample_surroundings :: "int surroundings" where
  "sample_surroundings = \<lparr>su_pause = (\<lambda>d x. (Inr (), x + d)), su_operator = (\<lambda>x. ([], x)), su_wake = (\<lambda>x. (Cancelled (Errorf ''canceled''), x))\<rparr>"

definition sample_request :: Request where
  "sample_request = \<lparr>rq_VMID = 7, rq_TargetUUID = ''ds2'', rq_Mode = modeMove, rq_PowerOn = True, rq_TargetName = ''vm'', rq_Live = False, rq_BringDisks = False\<rparr>"

definition sample_run :: "int pool client" where
  "sample_run = migrated (appliance_engine sample_network sample_setup sample_surroundings DefaultOptions (\<lambda>_. ([], False)) 9)
     (fresh_job 0 ((zero_Report ''a1'' sample_request)\<lparr>rp_Ready := True\<rparr>) 0 0)"

lemma migration_reaches_confirmed_host_witness:
  "sent_to (\<lambda>_. ''SHA256:x'') ''SHA256:x'' (cn_world sample_run) \<and> length (po_sent (cn_world sample_run)) = 18"
proof
  have k: "checks_keys (\<lambda>_. ''SHA256:x'') sample_network"
    by (simp add: checks_keys_def sample_network_def split: if_splits)
  have fp: "so_Fingerprint (ss_options sample_setup) = ''SHA256:x''" by code_simp
  show "sent_to (\<lambda>_. ''SHA256:x'') ''SHA256:x'' (cn_world sample_run)"
    using migration_reaches_confirmed_host [OF k, where su = sample_setup] unfolding sample_run_def fp by blast
  show "length (po_sent (cn_world sample_run)) = 18" by code_simp
qed

end
