(* ===== verification/Ssh_Dial.thy ===== *)
theory Ssh_Dial
  imports Ssh_Safety
begin

text \<open>
  How a connection is made (\<open>dial\<close> in \<open>internal/esxi/ssh.go\<close>): a TCP connection within 20 seconds, the SSH handshake over it under the same
  deadline, and the watcher that closes the connection when the context ends first. What is left as the parameter \<open>wire\<close> is the network itself
  and \<open>ssh.NewClientConn\<close>; over it, \<open>over_wire\<close> makes the handshake and the probe of a \<open>network\<close>.
\<close>

section \<open>Dialling\<close>

text \<open>
  The end of a context that has a limit; a TCP connection; its deadline; the handshake, with the callback that gets the fingerprint of the
  host's key, which also tells the fingerprint the callback was called with; whether the context ended before the handshake did; and closing.
\<close>

record ('x, 'k) wire =
  wr_WithTimeout :: "int \<Rightarrow> 'x \<Rightarrow> int \<times> 'x"
  wr_DialContext :: "string \<Rightarrow> 'x \<Rightarrow> (net_error + int) \<times> 'x"
  wr_SetDeadline :: "int \<Rightarrow> int option \<Rightarrow> 'x \<Rightarrow> 'x"
  wr_NewClientConn :: "int \<Rightarrow> string \<Rightarrow> string \<Rightarrow> 'k auth_method list \<Rightarrow> (string \<Rightarrow> err option) \<Rightarrow> 'x \<Rightarrow>
    (string option \<times> (net_error + int)) \<times> 'x"
  wr_Done :: "'x \<Rightarrow> bool \<times> 'x"
  wr_Close :: "int \<Rightarrow> 'x \<Rightarrow> 'x"

definition dial :: "('x, 'k) wire \<Rightarrow> string \<Rightarrow> string \<Rightarrow> 'k auth_method list \<Rightarrow> (string \<Rightarrow> err option) \<Rightarrow> 'x \<Rightarrow>
    (string option \<times> (net_error + int)) \<times> 'x" where
  "dial wr addr user auth callback x =
     (case wr_WithTimeout wr (20 * second) x of (deadline, x1) \<Rightarrow>
     (case wr_DialContext wr addr x1 of
        (Inl e, x2) \<Rightarrow> ((None, Inl e), x2)
      | (Inr conn, x2) \<Rightarrow>
          (case wr_NewClientConn wr conn addr user auth callback (wr_SetDeadline wr conn (Some deadline) x2) of ((seen, r), x3) \<Rightarrow>
          (case wr_Done wr x3 of (ended, x4) \<Rightarrow>
           let x5 = (if ended then wr_Close wr conn x4 else x4) in
           (case r of
              Inl e \<Rightarrow> ((seen, Inl e), wr_Close wr conn x5)
            | Inr c \<Rightarrow> ((seen, Inr c), wr_SetDeadline wr conn None x5))))))"

section \<open>The network over it\<close>

text \<open>The callback of a pinned connection, and the one of a probe, which keeps the key and stops.\<close>

definition pin_callback :: "(string \<Rightarrow> bool) \<Rightarrow> string \<Rightarrow> err option" where
  "pin_callback accepts fp = (if accepts fp then None else Some (Errorf ''host key changed''))"

definition probe_callback :: "string \<Rightarrow> err option" where
  "probe_callback fp = Some (Errorf ''host key captured'')"

definition over_wire :: "('x, 'k) wire \<Rightarrow> ('x, 'k) network \<Rightarrow> ('x, 'k) network" where
  "over_wire wr nw = nw\<lparr>
     nw_handshake := (\<lambda>addr user auth accepts x. case dial wr addr user auth (pin_callback accepts) x of ((seen, r), x') \<Rightarrow> (r, x')),
     nw_probe := (\<lambda>addr x. case dial wr addr ''host-key-probe'' [] probe_callback x of
       ((seen, r), x') \<Rightarrow> ((case seen of Some fp \<Rightarrow> fp | None \<Rightarrow> [], r), x'))\<rparr>"

section \<open>What the handshake promises, and what follows\<close>

text \<open>
  The documented behaviour of \<open>ssh.NewClientConn\<close>: a connection is returned only after the callback was called with the key of the host at its
  other end, and did not refuse it.
\<close>

definition calls_back :: "(int \<Rightarrow> string) \<Rightarrow> ('x, 'k) wire \<Rightarrow> bool" where
  "calls_back key wr = (\<forall>conn addr user auth callback x seen c x'.
     wr_NewClientConn wr conn addr user auth callback x = ((seen, Inr c), x') \<longrightarrow> seen = Some (key c) \<and> callback (key c) = None)"

lemma dial_accepted:
  assumes "calls_back key wr" and "dial wr addr user auth callback x = ((seen, Inr c), x')"
  shows "seen = Some (key c) \<and> callback (key c) = None"
  using assms unfolding calls_back_def dial_def Let_def
  by (auto split: prod.splits sum.splits) blast+

text \<open>So the network checks host keys, which is what the theorems of the executor ask of it.\<close>

lemma over_wire_checks: "calls_back key wr \<Longrightarrow> checks_keys key (over_wire wr nw)"
  unfolding checks_keys_def
  by (auto simp: over_wire_def pin_callback_def split: prod.splits if_splits dest!: dial_accepted)

text \<open>A probe signs in nowhere: its handshake never succeeds, and all that it can return is a key that the host has shown.\<close>

lemma probe_signs_in_nowhere:
  assumes "calls_back key wr" and "nw_probe (over_wire wr nw) addr x = ((fp, r), x')"
  shows "\<exists>e. r = Inl e"
proof (cases r)
  case (Inr c)
  with assms(2) obtain seen where "dial wr addr ''host-key-probe'' [] probe_callback x = ((seen, Inr c), x')"
    by (auto simp: over_wire_def split: prod.splits)
  from dial_accepted [OF assms(1) this] show ?thesis by (simp add: probe_callback_def)
qed simp

lemma probe_no_missing_key:
  assumes "calls_back key wr"
  shows "fst (ProbeHostKey (over_wire wr nw) addr x) \<noteq> Inl (Errorf ''no SSH host key returned'')"
proof -
  obtain fp r x' where p: "nw_probe (over_wire wr nw) addr x = ((fp, r), x')" by (metis prod.exhaust)
  with probe_signs_in_nowhere [OF assms p] show ?thesis by (auto simp: ProbeHostKey_def Let_def)
qed

end
