(* ===== verification/Web_Server.thy ===== *)
theory Web_Server
  imports Ssh_Executor Job
begin

text \<open>
  The web server (\<open>internal/web/server.go\<close>): sign-in, sessions, and the handlers that connect, analyze, start, watch,
  control and roll back. Sessions, clients and jobs are shared by pointer in the code: here they live in stores, and a pointer is an
  index. A handler that waits for ESXi is two steps, before and after the wait, so that other requests come between; the rest of
  a handler holds its mutex throughout and is one step. The body of a request is what \<open>encoding/json\<close> makes of it, and a
  time is one reading of the clock.
\<close>

section \<open>Requests and responses\<close>

datatype 'a body = InvalidBody | TrailingContent | Body 'a

record ProbeIn =
  pr_Host :: string
  pr_Port :: int

record ConnectIn =
  ci_Username :: string
  ci_Password :: string
  ci_PrivateKey :: string
  ci_Passphrase :: string
  ci_Fingerprint :: string
  ci_Confirmed :: bool

record StartIn =
  si_AnalysisID :: string
  si_MaintenanceConfirmed :: bool

record ControlIn =
  ct_Action :: string
  ct_ForceConfirmed :: bool

datatype response =
    Problem int string
  | Asset string \<comment> \<open>a file of the embedded interface\<close>
  | SignedIn string string \<comment> \<open>the session cookie and the CSRF token\<close>
  | SessionInfo string bool bool string
  | Probed string string
  | Connected Inventory
  | Analyzed Report
  | Started State
  | JobState State
  | Events nat \<comment> \<open>the audit log of a client\<close>
  | Accepted

section \<open>The server's state\<close>

record session =
  se_csrf :: string
  se_expires :: int
  se_address :: string
  se_fingerprint :: string
  se_probeTime :: int
  se_host :: "nat option"
  se_report :: "Report option"
  se_job :: "nat option"

record server =
  sv_op :: bool \<comment> \<open>the lock of management requests is held\<close>
  sv_sessions :: "(string, nat) gomap"
  sv_token :: string
  sv_running :: bool
  sv_failures :: int
  sv_failureReset :: int
  sv_Options :: Options
  sv_store :: "session list"
  sv_jobs :: "Job list"
  sv_clients :: nat \<comment> \<open>how many clients were made\<close>
  sv_closed :: "nat list"
  sv_engines :: "(nat \<times> nat) list" \<comment> \<open>the running engines: job and client\<close>

definition New :: "string \<Rightarrow> Options \<Rightarrow> server" where
  "New token opts = \<lparr>sv_op = False, sv_sessions = [], sv_token = token, sv_running = False, sv_failures = 0, sv_failureReset = 0,
     sv_Options = opts, sv_store = [], sv_jobs = [], sv_clients = 0, sv_closed = [], sv_engines = []\<rparr>"

definition on_session :: "nat \<Rightarrow> (session \<Rightarrow> session) \<Rightarrow> server \<Rightarrow> server" where
  "on_session i f s = s\<lparr>sv_store := (sv_store s)[i := f (sv_store s ! i)]\<rparr>"

definition job_state :: "server \<Rightarrow> nat \<Rightarrow> State" where
  "job_state s j = Snapshot (sv_jobs s ! j)"

text \<open>\<open>closeHost\<close>\<close>

definition closeHost :: "nat \<Rightarrow> server \<Rightarrow> server" where
  "closeHost i s =
     (let s1 = (case se_host (sv_store s ! i) of
        Some h \<Rightarrow> on_session i (\<lambda>se. se\<lparr>se_host := None\<rparr>) (s\<lparr>sv_closed := h # sv_closed s\<rparr>)
      | None \<Rightarrow> s)
      in on_session i (\<lambda>se. se\<lparr>se_report := None\<rparr>) s1)"

section \<open>The front of the server\<close>

record http =
  ht_Method :: string
  ht_Path :: string
  ht_TLS :: bool
  ht_Host :: string
  ht_Origin :: string
  ht_FetchSite :: string
  ht_ContentType :: string
  ht_Cookie :: "string option"
  ht_CSRF :: string

definition front :: "http \<Rightarrow> response option" where
  "front r =
     (if ht_Method r \<noteq> ''GET'' \<and> ht_Method r \<noteq> ''HEAD'' then
        let scheme = (if ht_TLS r then ''https'' else ''http'') in
        if ht_Origin r \<noteq> [] \<and> ht_Origin r \<noteq> scheme @ ''://'' @ ht_Host r then Some (Problem 403 ''Origin rejected'')
        else if ht_FetchSite r = ''cross-site'' then Some (Problem 403 ''Cross-site request rejected'')
        else if \<not> has_prefix (ht_ContentType r) ''application/json'' then Some (Problem 415 ''JSON request required'')
        else None
      else None)"

datatype endpoint = Login | Session | Probe | Connect | Analyze_it | Start | Control_it | Rollback_it | Job_it | Log_it

text \<open>A pattern of \<open>GET\<close> matches \<open>HEAD\<close> too.\<close>

definition route :: "http \<Rightarrow> endpoint option" where
  "route r = map_of [((''POST'', ''/api/login''), Login), ((''GET'', ''/api/session''), Session), ((''POST'', ''/api/probe''), Probe),
     ((''POST'', ''/api/connect''), Connect), ((''POST'', ''/api/analyze''), Analyze_it), ((''POST'', ''/api/start''), Start),
     ((''POST'', ''/api/control''), Control_it), ((''POST'', ''/api/rollback''), Rollback_it), ((''GET'', ''/api/job''), Job_it),
     ((''GET'', ''/api/log''), Log_it)] (if ht_Method r = ''HEAD'' then ''GET'' else ht_Method r, ht_Path r)"

section \<open>Sign-in\<close>

definition readJSON :: "'a body \<Rightarrow> response + 'a" where
  "readJSON b = (case b of
      InvalidBody \<Rightarrow> Inl (Problem 400 ''Invalid request'')
    | TrailingContent \<Rightarrow> Inl (Problem 400 ''Invalid trailing request content'')
    | Body x \<Rightarrow> Inr x)"

text \<open>One round of the loop over the sessions: an expired one without an active job is closed and deleted.\<close>

definition is_expired :: "int \<Rightarrow> server \<Rightarrow> nat \<Rightarrow> bool" where
  "is_expired t s i = (let se = sv_store s ! i in t > se_expires se \<and> (case se_job se of None \<Rightarrow> True | Some j \<Rightarrow> js_Complete (job_state s j)))"

definition purge_one :: "int \<Rightarrow> string \<Rightarrow> server \<Rightarrow> server" where
  "purge_one t cookie s = (case map_of (sv_sessions s) cookie of
      None \<Rightarrow> s
    | Some i \<Rightarrow> if is_expired t s i then (closeHost i s)\<lparr>sv_sessions := del (sv_sessions s) cookie\<rparr> else s)"

text \<open>
  A window of one minute for the failed attempts; the removal of the expired sessions, where \<open>clock\<close> gives one reading for each; and a
  new session.
\<close>

definition login_window :: "int \<Rightarrow> int \<Rightarrow> server \<Rightarrow> server" where
  "login_window t t' s = (if t > sv_failureReset s then s\<lparr>sv_failures := 0, sv_failureReset := t' + minute\<rparr> else s)"

definition purge :: "(nat \<Rightarrow> int) \<Rightarrow> server \<Rightarrow> server" where
  "purge clock s = fold (\<lambda>(n, cookie). purge_one (clock n) cookie) (enumerate 0 (keys (sv_sessions s))) s"

definition new_session :: "string \<Rightarrow> string \<Rightarrow> int \<Rightarrow> server \<Rightarrow> server" where
  "new_session cookie csrf t s = s\<lparr>sv_sessions := put (sv_sessions s) cookie (length (sv_store s)),
     sv_store := sv_store s @ [\<lparr>se_csrf = csrf, se_expires = t + 12 * hour, se_address = [], se_fingerprint = [],
       se_probeTime = 0, se_host = None, se_report = None, se_job = None\<rparr>]\<rparr>"

text \<open>\<open>clock n\<close> is the \<open>n\<close>th reading of the clock; \<open>new_id\<close> and \<open>csrf\<close> are the random IDs drawn.\<close>

definition login :: "(nat \<Rightarrow> int) \<Rightarrow> string \<Rightarrow> string \<Rightarrow> string body \<Rightarrow> server \<Rightarrow> response \<times> server" where
  "login clock new_id csrf body s =
     (case readJSON body of Inl p \<Rightarrow> (p, s) | Inr token \<Rightarrow>
        let s1 = login_window (clock 0) (clock 1) s in
        if sv_failures s1 \<ge> 5 then (Problem 429 ''Too many login attempts; wait one minute'', s1)
        else if token \<noteq> sv_token s1 then (Problem 401 ''Invalid admin token'', s1\<lparr>sv_failures := sv_failures s1 + 1\<rparr>)
        else let s2 = purge (\<lambda>n. clock (n + 2)) s1 in
          if length (sv_sessions s2) \<ge> 16 then (Problem 429 ''Session limit reached; restart the appliance only after all jobs are complete'', s2)
          else (SignedIn new_id csrf, new_session new_id csrf (clock (length (sv_sessions s1) + 2)) s2))"

section \<open>The check of every other request\<close>

definition active_job :: "server \<Rightarrow> nat \<Rightarrow> bool" where
  "active_job s i = (case se_job (sv_store s ! i) of None \<Rightarrow> False | Some j \<Rightarrow> \<not> js_Complete (job_state s j))"

definition auth :: "(nat \<Rightarrow> int) \<Rightarrow> http \<Rightarrow> server \<Rightarrow> (response + nat) \<times> server" where
  "auth clock r s =
     (case ht_Cookie r of None \<Rightarrow> (Inl (Problem 401 ''Sign in with the startup admin token''), s) | Some cookie \<Rightarrow>
      (case map_of (sv_sessions s) cookie of None \<Rightarrow> (Inl (Problem 401 ''Session expired''), s) | Some i \<Rightarrow>
        let s1 = (if active_job s i then on_session i (\<lambda>se. se\<lparr>se_expires := clock 0 + 12 * hour\<rparr>) s else s);
            valid = (clock 1 < se_expires (sv_store s1 ! i));
            csrf = se_csrf (sv_store s1 ! i);
            s2 = (if valid then s1 else closeHost i s1)
        in if \<not> valid then (Inl (Problem 401 ''Session expired''), s2)
           else if ht_Method r \<noteq> ''GET'' \<and> ht_CSRF r \<noteq> csrf then (Inl (Problem 403 ''CSRF token rejected''), s2)
           else (Inr i, s2)))"

text \<open>The handler: the front, the route, and for everything but a sign-in the check of the session.\<close>

definition admit :: "(nat \<Rightarrow> int) \<Rightarrow> http \<Rightarrow> server \<Rightarrow> (response + endpoint \<times> nat option) \<times> server" where
  "admit clock r s =
     (case front r of Some p \<Rightarrow> (Inl p, s) | None \<Rightarrow>
        (case route r of None \<Rightarrow> (Inl (Asset (ht_Path r)), s) | Some e \<Rightarrow>
           if e = Login then (Inr (Login, None), s)
           else (case auth clock r s of (Inl p, s') \<Rightarrow> (Inl p, s') | (Inr i, s') \<Rightarrow> (Inr (e, Some i), s'))))"

section \<open>Management requests, one at a time\<close>

definition begin_op :: "server \<Rightarrow> (response + unit) \<times> server" where
  "begin_op s =
     (if sv_op s then (Inl (Problem 409 ''Another management request is in progress''), s)
      else if sv_running s then (Inl (Problem 409 ''An active migration is already running''), s)
      else (Inr (), s\<lparr>sv_op := True\<rparr>))"

definition unlock :: "server \<Rightarrow> server" where
  "unlock s = s\<lparr>sv_op := False\<rparr>"

text \<open>The frame of a management handler: the lock, then the body, then the rest; a problem releases the lock.\<close>

definition managed_request :: "'a body \<Rightarrow> ('a \<Rightarrow> server \<Rightarrow> (response + 'b) \<times> server) \<Rightarrow> server \<Rightarrow> (response + 'b) \<times> server" where
  "managed_request body k s =
     (case begin_op s of (Inl p, s1) \<Rightarrow> (Inl p, s1) | (Inr _, s1) \<Rightarrow>
        (case readJSON body of Inl p \<Rightarrow> (Inl p, unlock s1) | Inr x \<Rightarrow>
           (case k x s1 of (Inl p, s2) \<Rightarrow> (Inl p, unlock s2) | (Inr y, s2) \<Rightarrow> (Inr y, s2))))"

text \<open>\<open>net.JoinHostPort\<close>\<close>

definition join_host_port :: "string \<Rightarrow> string \<Rightarrow> string" where
  "join_host_port h p = (if CHR '':'' \<in> set h then ''['' @ h @ '']:'' @ p else h @ '':'' @ p)"

definition address :: "string \<Rightarrow> int \<Rightarrow> string result" where
  "address host port =
     (let h = trim_space host in
      if h = [] \<or> contains_any h [CHR '' '', CHR ''/'', backslash, cr, nl, nul] \<or> port < 1 \<or> port > 65535 then Inl (Errorf ''invalid host or port'')
      else Inr (join_host_port (trim_set h ''[]'') (itoa port)))"

definition probe_start :: "ProbeIn body \<Rightarrow> server \<Rightarrow> (response + string) \<times> server" where
  "probe_start body = managed_request body (\<lambda>x s. case address (pr_Host x) (pr_Port x) of
      Inl e \<Rightarrow> (Inl (Problem 400 (err_text e)), s) | Inr addr \<Rightarrow> (Inr addr, s))"

definition probe_finish :: "nat \<Rightarrow> string \<Rightarrow> int \<Rightarrow> string result \<Rightarrow> server \<Rightarrow> response \<times> server" where
  "probe_finish i addr at r s = (case r of
      Inl e \<Rightarrow> (Problem 400 (err_text e), unlock s)
    | Inr fp \<Rightarrow> (Probed fp addr, unlock (on_session i (\<lambda>se. se\<lparr>se_address := addr, se_fingerprint := fp, se_probeTime := at\<rparr>) s)))"

text \<open>\<open>connect\<close>: the credentials make an executor, and the new client (its number) reads the inventory.\<close>

definition connect_start :: "(SSHOptions \<Rightarrow> 'k ssh_setup result) \<Rightarrow> nat \<Rightarrow> int \<Rightarrow> ConnectIn body \<Rightarrow> server \<Rightarrow> (response + nat \<times> 'k ssh_setup) \<times> server" where
  "connect_start new_ssh i at body = managed_request body (\<lambda>x s.
     let se = sv_store s ! i in
     if \<not> ci_Confirmed x \<or> se_fingerprint se = [] \<or> at - se_probeTime se > 10 * minute \<or> se_fingerprint se \<noteq> ci_Fingerprint x
     then (Inl (Problem 400 ''Probe and explicitly confirm the displayed host key first''), s)
     else (case new_ssh \<lparr>so_Address = se_address se, so_User = ci_Username x, so_Password = ci_Password x, so_PrivateKey = ci_PrivateKey x,
             so_Passphrase = ci_Passphrase x, so_Fingerprint = se_fingerprint se\<rparr> of
         Inl e \<Rightarrow> (Inl (Problem 400 (err_text e)), s)
       | Inr setup \<Rightarrow> (Inr (sv_clients s, setup), s\<lparr>sv_clients := sv_clients s + 1\<rparr>)))"

text \<open>What the new client reads between the two; without an error, it also marks the running VMs.\<close>

definition connect_work :: "'x executor \<Rightarrow> ('x, Inventory) op" where
  "connect_work ex = c_bind (c_Inventory ex) (\<lambda>inventory. c_bind (c_MarkRunning ex (inv_VMs inventory) (inv_Datastores inventory))
     (\<lambda>vms. c_ret (inventory\<lparr>inv_VMs := vms\<rparr>)))"

definition connect_finish :: "nat \<Rightarrow> nat \<Rightarrow> Inventory result \<Rightarrow> server \<Rightarrow> response \<times> server" where
  "connect_finish i h r s = (case r of
      Inl e \<Rightarrow> (Problem 400 (err_text e), unlock (s\<lparr>sv_closed := h # sv_closed s\<rparr>))
    | Inr inventory \<Rightarrow> (Connected inventory, unlock (on_session i (\<lambda>se. se\<lparr>se_host := Some h, se_report := None, se_job := None\<rparr>) (closeHost i s))))"

definition analyze_start :: "nat \<Rightarrow> Request body \<Rightarrow> server \<Rightarrow> (response + nat \<times> Request) \<times> server" where
  "analyze_start i body = managed_request body (\<lambda>req s.
     let host = se_host (sv_store s ! i); s1 = on_session i (\<lambda>se. se\<lparr>se_report := None\<rparr>) s in
     (case host of None \<Rightarrow> (Inl (Problem 400 ''Connect to ESXi first''), s1) | Some h \<Rightarrow> (Inr (h, req), s1)))"

definition analyze_finish :: "nat \<Rightarrow> Report result \<Rightarrow> server \<Rightarrow> response \<times> server" where
  "analyze_finish i r s = (case r of
      Inl e \<Rightarrow> (Problem 400 (err_text e), unlock s)
    | Inr report \<Rightarrow> (Analyzed report, unlock (on_session i (\<lambda>se. se\<lparr>se_report := Some report\<rparr>) s)))"

definition start :: "nat \<Rightarrow> int \<Rightarrow> int \<Rightarrow> StartIn body \<Rightarrow> server \<Rightarrow> (response + State) \<times> server" where
  "start i t t' body s = (case managed_request body (\<lambda>x s.
     let se = sv_store s ! i in
     if \<not> si_MaintenanceConfirmed x then (Inl (Problem 400 ''Confirm exclusive maintenance access and a current backup''), s)
     else (case (se_host se, se_report se) of
         (Some h, Some r) \<Rightarrow>
           if rp_Ready r \<and> rp_ID r = si_AnalysisID x then
             let j = length (sv_jobs s);
                 s1 = on_session i (\<lambda>se. se\<lparr>se_job := Some j, se_report := None\<rparr>) (s\<lparr>sv_jobs := sv_jobs s @ [NewJob r t t']\<rparr>)
             in (Inr (job_state s1 j), s1\<lparr>sv_running := True, sv_engines := (j, h) # sv_engines s1\<rparr>)
           else (Inl (Problem 409 ''A matching ready analysis is required''), s)
       | _ \<Rightarrow> (Inl (Problem 409 ''A matching ready analysis is required''), s))) s of
     (r, s1) \<Rightarrow> (r, if is_ok r then unlock s1 else s1))"

definition rollback_start :: "nat \<Rightarrow> bool body \<Rightarrow> server \<Rightarrow> (response + nat \<times> nat) \<times> server" where
  "rollback_start i body = managed_request body (\<lambda>confirmed s.
     if \<not> confirmed then (Inl (Problem 400 ''Explicit registration rollback confirmation required''), s)
     else (case (se_job (sv_store s ! i), se_host (sv_store s ! i)) of
         (Some j, Some h) \<Rightarrow> (Inr (j, h), s)
       | _ \<Rightarrow> (Inl (Problem 404 ''No migration job''), s)))"

definition rollback_finish :: "nat \<Rightarrow> err option \<Rightarrow> server \<Rightarrow> response \<times> server" where
  "rollback_finish j r s = (case r of
      Some e \<Rightarrow> (Problem 409 (err_text e), unlock s)
    | None \<Rightarrow> (JobState (job_state s j), unlock s))"

section \<open>Requests at any time\<close>

definition sessionInfo :: "nat \<Rightarrow> server \<Rightarrow> response" where
  "sessionInfo i s = (let se = sv_store s ! i in SessionInfo (se_csrf se) (se_host se \<noteq> None) (se_job se \<noteq> None) (se_address se))"

definition job :: "nat \<Rightarrow> server \<Rightarrow> response" where
  "job i s = (case se_job (sv_store s ! i) of None \<Rightarrow> Problem 404 ''No migration job in this session'' | Some j \<Rightarrow> JobState (job_state s j))"

definition log_events :: "nat \<Rightarrow> server \<Rightarrow> response" where
  "log_events i s = (case se_host (sv_store s ! i) of None \<Rightarrow> Problem 404 ''No ESXi connection'' | Some h \<Rightarrow> Events h)"

definition control :: "nat \<Rightarrow> ControlIn body \<Rightarrow> server \<Rightarrow> response \<times> server" where
  "control i body s = (case readJSON body of Inl p \<Rightarrow> (p, s) | Inr x \<Rightarrow>
     (case se_job (sv_store s ! i) of None \<Rightarrow> (Problem 404 ''No migration job'', s) | Some j \<Rightarrow>
       (case Control (ct_Action x) (ct_ForceConfirmed x) (sv_jobs s ! j) of
          (e, j') \<Rightarrow> let s1 = s\<lparr>sv_jobs := (sv_jobs s)[j := j']\<rparr> in
            (case e of Some e \<Rightarrow> (Problem 409 (err_text e), s1) | None \<Rightarrow> (Accepted, s1)))))"

end
