(* ===== verification/Web_Safety.thy ===== *)
theory Web_Safety
  imports Web_Server
begin

text \<open>
  The web server as a state machine: its handlers, in any order and interleaved where they wait, with the engines and rollbacks that it
  started. The invariant is what keeps two management operations apart, and the host of a running migration open.
\<close>

section \<open>Steps\<close>

text \<open>A management handler that waits for ESXi.\<close>

datatype 'k wait = Probing nat string | Connecting nat nat 'k | Analyzing nat nat Request | RollingBack nat nat

type_synonym 'k config = "server \<times> 'k wait list"

definition with_jobs :: "Job list \<Rightarrow> server \<Rightarrow> server" where
  "with_jobs js s = s\<lparr>sv_jobs := js\<rparr>"

definition completes :: "Job \<Rightarrow> bool" where
  "completes j = js_Complete (Snapshot j)"

text \<open>
  The engine and a rollback change their job as they like, but no completed job becomes incomplete; an engine ends with its job complete. The two readings of
  the clock in \<open>auth\<close> are less than 12 hours apart.
\<close>

inductive web_step :: "(SSHOptions \<Rightarrow> 'k ssh_setup result) \<Rightarrow> 'k ssh_setup config \<Rightarrow> 'k ssh_setup config \<Rightarrow> bool" for new_ssh where
  step_login: "login clock new_id csrf body s = (p, s') \<Longrightarrow> web_step new_ssh (s, ws) (s', ws)"
| step_auth: "auth clock r s = (a, s') \<Longrightarrow> clock 1 < clock 0 + 12 * hour \<Longrightarrow> web_step new_ssh (s, ws) (s', ws)"
| step_probe_refused: "probe_start body s = (Inl p, s') \<Longrightarrow> web_step new_ssh (s, ws) (s', ws)"
| step_probe: "i < length (sv_store s) \<Longrightarrow> probe_start body s = (Inr addr, s') \<Longrightarrow> web_step new_ssh (s, ws) (s', Probing i addr # ws)"
| step_probe_finish: "Probing i addr \<in> set ws \<Longrightarrow> probe_finish i addr t r s = (p, s') \<Longrightarrow> web_step new_ssh (s, ws) (s', remove1 (Probing i addr) ws)"
| step_connect_refused: "i < length (sv_store s) \<Longrightarrow> connect_start new_ssh i t body s = (Inl p, s') \<Longrightarrow> web_step new_ssh (s, ws) (s', ws)"
| step_connect: "i < length (sv_store s) \<Longrightarrow> connect_start new_ssh i t body s = (Inr (h, setup), s') \<Longrightarrow> web_step new_ssh (s, ws) (s', Connecting i h setup # ws)"
| step_connect_finish: "i < length (sv_store s) \<Longrightarrow> Connecting i h setup \<in> set ws \<Longrightarrow> connect_finish i h r s = (p, s') \<Longrightarrow> web_step new_ssh (s, ws) (s', remove1 (Connecting i h setup) ws)"
| step_analyze_refused: "i < length (sv_store s) \<Longrightarrow> analyze_start i body s = (Inl p, s') \<Longrightarrow> web_step new_ssh (s, ws) (s', ws)"
| step_analyze: "i < length (sv_store s) \<Longrightarrow> analyze_start i body s = (Inr (h, req), s') \<Longrightarrow> web_step new_ssh (s, ws) (s', Analyzing i h req # ws)"
| step_analyze_finish: "Analyzing i h req \<in> set ws \<Longrightarrow> analyze_finish i r s = (p, s') \<Longrightarrow> web_step new_ssh (s, ws) (s', remove1 (Analyzing i h req) ws)"
| step_start: "i < length (sv_store s) \<Longrightarrow> start i t t' body s = (p, s') \<Longrightarrow> web_step new_ssh (s, ws) (s', ws)"
| step_rollback_refused: "i < length (sv_store s) \<Longrightarrow> rollback_start i body s = (Inl p, s') \<Longrightarrow> web_step new_ssh (s, ws) (s', ws)"
| step_rollback: "i < length (sv_store s) \<Longrightarrow> rollback_start i body s = (Inr (j, h), s') \<Longrightarrow> web_step new_ssh (s, ws) (s', RollingBack j h # ws)"
| step_rollback_change: "RollingBack j h \<in> set ws \<Longrightarrow> completes x = completes (sv_jobs s ! j) \<Longrightarrow>
    web_step new_ssh (s, ws) (with_jobs ((sv_jobs s)[j := x]) s, ws)"
| step_rollback_finish: "RollingBack j h \<in> set ws \<Longrightarrow> rollback_finish j r s = (p, s') \<Longrightarrow> web_step new_ssh (s, ws) (s', remove1 (RollingBack j h) ws)"
| step_control: "i < length (sv_store s) \<Longrightarrow> control i body s = (p, s') \<Longrightarrow> web_step new_ssh (s, ws) (s', ws)"
| step_engine: "(j, h) \<in> set (sv_engines s) \<Longrightarrow> completes (sv_jobs s ! j) \<le> completes x \<Longrightarrow> web_step new_ssh (s, ws) (with_jobs ((sv_jobs s)[j := x]) s, ws)"
| step_engine_end: "(j, h) \<in> set (sv_engines s) \<Longrightarrow> completes (sv_jobs s ! j) \<Longrightarrow>
    web_step new_ssh (s, ws) (s\<lparr>sv_running := False, sv_engines := remove1 (j, h) (sv_engines s)\<rparr>, ws)"

section \<open>One management operation\<close>

text \<open>The lock and the flag say what goes on, and there is at most one of it.\<close>

definition exclusive :: "'k wait list \<Rightarrow> server \<Rightarrow> bool" where
  "exclusive ws s = (length ws + length (sv_engines s) \<le> 1 \<and> sv_op s = (ws \<noteq> []) \<and> sv_running s = (sv_engines s \<noteq> []))"

text \<open>What of a server a step leaves alone.\<close>

definition same_work :: "server \<Rightarrow> server \<Rightarrow> bool" where
  "same_work s s' = (sv_op s' = sv_op s \<and> sv_running s' = sv_running s \<and> sv_engines s' = sv_engines s)"

lemma same_work_refl [simp]: "same_work s s"
  by (simp add: same_work_def)

lemma same_work_trans: "same_work s t \<Longrightarrow> same_work t u \<Longrightarrow> same_work s u"
  by (simp add: same_work_def)

lemma work_session [simp]: "same_work s (on_session i f t) = same_work s t"
  by (simp add: same_work_def on_session_def)

lemma work_sessions [simp]: "same_work s (t\<lparr>sv_sessions := m\<rparr>) = same_work s t" "same_work s (t\<lparr>sv_closed := cs\<rparr>) = same_work s t"
  by (simp_all add: same_work_def)

lemma work_closeHost [simp]: "same_work s (closeHost i t) = same_work s t"
  by (simp add: closeHost_def Let_def split: option.split)

lemma work_purge [simp]: "same_work s (purge_one t c u) = same_work s u"
  by (simp add: purge_one_def split: option.split)

lemma work_purge_all [simp]: "same_work s (purge clock t) = same_work s t"
proof -
  have "same_work s (fold (\<lambda>(n, cookie). purge_one (clock n) cookie) cs t) = same_work s t" for cs t
    by (induction cs arbitrary: t) (simp_all add: split_beta)
  then show ?thesis by (simp add: purge_def)
qed

lemma work_login_parts [simp]:
  "same_work s (login_window a b t) = same_work s t" "same_work s (new_session c x d t) = same_work s t"
  "same_work s (t\<lparr>sv_failures := n\<rparr>) = same_work s t"
  by (simp_all add: login_window_def new_session_def same_work_def)

lemma exclusive_same: "same_work s s' \<Longrightarrow> exclusive ws s \<Longrightarrow> exclusive ws s'"
  by (simp add: same_work_def exclusive_def)

lemma work_login: "login clock i c body s = (p, s') \<Longrightarrow> same_work s s'"
  by (auto simp: login_def Let_def split: sum.splits if_splits)

lemma work_auth: "auth clock r s = (a, s') \<Longrightarrow> same_work s s'"
  by (auto simp: auth_def Let_def split: option.splits if_splits)

lemma work_control: "control i body s = (p, s') \<Longrightarrow> same_work s s'"
  by (auto simp: control_def Let_def same_work_def split: sum.splits option.splits prod.splits)

text \<open>A management handler takes the lock when nothing goes on, or leaves the server as it was, up to its session.\<close>

definition took_lock :: "server \<Rightarrow> server \<Rightarrow> bool" where
  "took_lock s s' = (\<not> sv_op s \<and> \<not> sv_running s \<and> sv_op s' \<and> \<not> sv_running s' \<and> sv_engines s' = sv_engines s)"

lemma managed_work:
  assumes "managed_request body k s = (a, s')"
    and "\<And>x s1 b s2. k x s1 = (b, s2) \<Longrightarrow> same_work s1 s2"
  shows "(case a of Inl _ \<Rightarrow> same_work s s' | Inr _ \<Rightarrow> took_lock s s')"
  using assms
  by (auto simp: managed_request_def begin_op_def same_work_def took_lock_def unlock_def split: prod.splits sum.splits if_splits)

lemma work_parts:
  "probe_start body1 s = (a1, s') \<Longrightarrow> (case a1 of Inl _ \<Rightarrow> same_work s s' | Inr _ \<Rightarrow> took_lock s s')"
  "connect_start new_ssh i t body2 s = (a2, s') \<Longrightarrow> (case a2 of Inl _ \<Rightarrow> same_work s s' | Inr _ \<Rightarrow> took_lock s s')"
  "analyze_start i body3 s = (a3, s') \<Longrightarrow> (case a3 of Inl _ \<Rightarrow> same_work s s' | Inr _ \<Rightarrow> took_lock s s')"
  "rollback_start i body4 s = (a4, s') \<Longrightarrow> (case a4 of Inl _ \<Rightarrow> same_work s s' | Inr _ \<Rightarrow> took_lock s s')"
  unfolding probe_start_def connect_start_def analyze_start_def rollback_start_def
  by (erule managed_work; auto simp: Let_def same_work_def on_session_def split: sum.splits option.splits if_splits prod.splits)+

lemmas work_refused = work_parts(1) [where ?a1.0 = "Inl p" for p, simplified] work_parts(2) [where ?a2.0 = "Inl p" for p, simplified]
  work_parts(3) [where ?a3.0 = "Inl p" for p, simplified] work_parts(4) [where ?a4.0 = "Inl p" for p, simplified]

lemmas work_taken = work_parts(1) [where ?a1.0 = "Inr x" for x, simplified] work_parts(2) [where ?a2.0 = "Inr x" for x, simplified]
  work_parts(3) [where ?a3.0 = "Inr x" for x, simplified] work_parts(4) [where ?a4.0 = "Inr x" for x, simplified]

lemma work_start:
  "start i t t' body s = (a, s') \<Longrightarrow> (case a of Inl _ \<Rightarrow> same_work s s'
     | Inr _ \<Rightarrow> \<not> sv_op s \<and> \<not> sv_running s \<and> \<not> sv_op s' \<and> sv_running s' \<and> (\<exists>e. sv_engines s' = e # sv_engines s))"
  by (auto simp: start_def managed_request_def begin_op_def Let_def unlock_def same_work_def on_session_def
      split: prod.splits sum.splits option.splits if_splits)

lemma took_exclusive: "took_lock s s' \<Longrightarrow> exclusive ws s \<Longrightarrow> exclusive (w # ws) s'"
  by (auto simp: took_lock_def exclusive_def)

text \<open>The end of a handler that waited releases the lock.\<close>

definition released :: "server \<Rightarrow> server \<Rightarrow> bool" where
  "released s s' = (\<not> sv_op s' \<and> sv_running s' = sv_running s \<and> sv_engines s' = sv_engines s)"

lemma released_exclusive: "released s s' \<Longrightarrow> w \<in> set ws \<Longrightarrow> exclusive ws s \<Longrightarrow> exclusive (remove1 w ws) s'"
  by (cases ws) (auto simp: released_def exclusive_def)

lemma released_parts:
  "probe_finish i addr t r1 s = (p, s') \<Longrightarrow> released s s'" "connect_finish i h r2 s = (p, s') \<Longrightarrow> released s s'"
  "analyze_finish i r3 s = (p, s') \<Longrightarrow> released s s'" "rollback_finish j r4 s = (p, s') \<Longrightarrow> released s s'"
  using work_closeHost [of s i s]
  by (auto simp: probe_finish_def connect_finish_def analyze_finish_def rollback_finish_def released_def unlock_def on_session_def same_work_def
      split: sum.splits option.splits)

lemma exclusive_step: "web_step new_ssh c c' \<Longrightarrow> exclusive (snd c) (fst c) \<Longrightarrow> exclusive (snd c') (fst c')"
proof (induction rule: web_step.induct)
  case (step_start i s t t' body p s' ws)
  then show ?case using work_start [OF step_start(2)]
    by (cases p) (auto simp: exclusive_def same_work_def)
next
  case (step_engine_end j h s ws)
  then show ?case by (cases "sv_engines s") (auto simp: exclusive_def)
next
  case (step_engine j h s x ws)
  then show ?case by (simp add: with_jobs_def exclusive_def)
next
  case (step_rollback_change j h ws x s)
  then show ?case by (simp add: with_jobs_def exclusive_def)
qed (simp, (erule exclusive_same [rotated] took_exclusive [rotated] released_exclusive [rotated -1] | assumption
    | erule work_login work_auth work_control work_refused work_taken released_parts)+)+

section \<open>The clients\<close>

definition held :: "server \<Rightarrow> nat \<Rightarrow> nat option" where
  "held s i = (if i < length (sv_store s) then se_host (sv_store s ! i) else None)"

definition owned :: "server \<Rightarrow> nat \<Rightarrow> nat option" where
  "owned s i = (if i < length (sv_store s) then se_job (sv_store s ! i) else None)"

text \<open>
  No session holds a closed client, no two the same one, and a client that is connecting is held by none; the engine of an
  incomplete job runs on the client of the session that has the job.
\<close>

definition clients_ok :: "'k wait list \<Rightarrow> server \<Rightarrow> bool" where
  "clients_ok ws s =
     ((\<forall>i h. held s i = Some h \<longrightarrow> h < sv_clients s \<and> h \<notin> set (sv_closed s)) \<and>
      (\<forall>i i' h. held s i = Some h \<longrightarrow> held s i' = Some h \<longrightarrow> i' = i) \<and>
      (\<forall>h \<in> set (sv_closed s). h < sv_clients s) \<and>
      (\<forall>i h k. Connecting i h k \<in> set ws \<longrightarrow> h < sv_clients s \<and> h \<notin> set (sv_closed s) \<and> (\<forall>i'. held s i' \<noteq> Some h)) \<and>
      (\<forall>j h. (j, h) \<in> set (sv_engines s) \<longrightarrow> j < length (sv_jobs s) \<and> (completes (sv_jobs s ! j) \<or> (\<exists>i. held s i = Some h \<and> owned s i = Some j))) \<and>
      (\<forall>i j. owned s i = Some j \<longrightarrow> j < length (sv_jobs s)) \<and>
      (\<forall>c i. map_of (sv_sessions s) c = Some i \<longrightarrow> i < length (sv_store s)))"

lemma clients_okI:
  assumes "\<And>i h. held s i = Some h \<Longrightarrow> h < sv_clients s \<and> h \<notin> set (sv_closed s)"
    and "\<And>i i' h. held s i = Some h \<Longrightarrow> held s i' = Some h \<Longrightarrow> i' = i"
    and "\<And>h. h \<in> set (sv_closed s) \<Longrightarrow> h < sv_clients s"
    and "\<And>i h k. Connecting i h k \<in> set ws \<Longrightarrow> h < sv_clients s \<and> h \<notin> set (sv_closed s) \<and> (\<forall>i'. held s i' \<noteq> Some h)"
    and "\<And>j h. (j, h) \<in> set (sv_engines s) \<Longrightarrow> j < length (sv_jobs s) \<and> (completes (sv_jobs s ! j) \<or> (\<exists>i. held s i = Some h \<and> owned s i = Some j))"
    and "\<And>i j. owned s i = Some j \<Longrightarrow> j < length (sv_jobs s)"
    and "\<And>c i. map_of (sv_sessions s) c = Some i \<Longrightarrow> i < length (sv_store s)"
  shows "clients_ok ws s"
  using assms unfolding clients_ok_def by blast

lemma clients_okD:
  assumes "clients_ok ws s"
  shows "held s i = Some h \<Longrightarrow> h < sv_clients s \<and> h \<notin> set (sv_closed s)"
    and "held s i = Some h \<Longrightarrow> held s i' = Some h \<Longrightarrow> i' = i"
    and "h \<in> set (sv_closed s) \<Longrightarrow> h < sv_clients s"
    and "Connecting i h k \<in> set ws \<Longrightarrow> h < sv_clients s \<and> h \<notin> set (sv_closed s) \<and> held s i' \<noteq> Some h"
    and "(j, h) \<in> set (sv_engines s) \<Longrightarrow> j < length (sv_jobs s) \<and> (completes (sv_jobs s ! j) \<or> (\<exists>i. held s i = Some h \<and> owned s i = Some j))"
    and "owned s i = Some j \<Longrightarrow> j < length (sv_jobs s)"
    and "map_of (sv_sessions s) c = Some i \<Longrightarrow> i < length (sv_store s)"
  using assms unfolding clients_ok_def by blast+

lemma held_session: "held (on_session i f s) = (if i < length (sv_store s) then (held s)(i := se_host (f (sv_store s ! i))) else held s)"
  by (auto simp: held_def on_session_def fun_eq_iff nth_list_update)

lemma owned_session: "owned (on_session i f s) = (if i < length (sv_store s) then (owned s)(i := se_job (f (sv_store s ! i))) else owned s)"
  by (auto simp: owned_def on_session_def fun_eq_iff nth_list_update)

lemma session_parts [simp]:
  "sv_clients (on_session i f s) = sv_clients s" "sv_closed (on_session i f s) = sv_closed s" "sv_engines (on_session i f s) = sv_engines s"
  "sv_jobs (on_session i f s) = sv_jobs s" "sv_sessions (on_session i f s) = sv_sessions s" "length (sv_store (on_session i f s)) = length (sv_store s)"
  "sv_op (on_session i f s) = sv_op s" "sv_failures (on_session i f s) = sv_failures s"
  by (simp_all add: on_session_def)

text \<open>The parts of a server that the invariant reads.\<close>

definition same_clients :: "server \<Rightarrow> server \<Rightarrow> bool" where
  "same_clients s t = (held t = held s \<and> owned t = owned s \<and> sv_clients t = sv_clients s \<and> sv_closed t = sv_closed s \<and>
     sv_engines t = sv_engines s \<and> sv_jobs t = sv_jobs s \<and> sv_sessions t = sv_sessions s \<and> length (sv_store t) = length (sv_store s))"

lemma clients_cong:
  assumes "clients_ok ws s" and "held t = held s" "owned t = owned s" "sv_clients t = sv_clients s" "sv_closed t = sv_closed s"
    "sv_engines t = sv_engines s" "sv_jobs t = sv_jobs s" and "\<And>c i. map_of (sv_sessions t) c = Some i \<Longrightarrow> i < length (sv_store t)"
  shows "clients_ok ws t"
  using assms(1,8) unfolding clients_ok_def assms(2-7) by blast

lemma clients_same: "same_clients s t \<Longrightarrow> clients_ok ws s \<Longrightarrow> clients_ok ws t"
  by (simp add: same_clients_def clients_ok_def)

lemma same_clients_refl [simp]: "same_clients s s"
  by (simp add: same_clients_def)

lemma same_clients_trans: "same_clients s t \<Longrightarrow> same_clients t u \<Longrightarrow> same_clients s u"
  by (simp add: same_clients_def)

lemma same_clients_session: "(\<And>se. se_host (f se) = se_host se) \<Longrightarrow> (\<And>se. se_job (f se) = se_job se) \<Longrightarrow> same_clients s (on_session i f s)"
  by (auto simp: same_clients_def held_session owned_session) (auto simp: held_def owned_def fun_eq_iff)

lemma clients_closeHost:
  assumes c: "clients_ok ws s" and i: "i < length (sv_store s)" and idle: "sv_engines s = [] \<or> \<not> active_job s i"
  shows "clients_ok ws (closeHost i s)" "length (sv_store (closeHost i s)) = length (sv_store s)" "sv_sessions (closeHost i s) = sv_sessions s"
    "sv_jobs (closeHost i s) = sv_jobs s" "owned (closeHost i s) = owned s" "sv_engines (closeHost i s) = sv_engines s"
    "held (closeHost i s) i = None" "sv_clients (closeHost i s) = sv_clients s" "\<And>h. h \<notin> set (sv_closed s) \<Longrightarrow> held s i \<noteq> Some h \<Longrightarrow> h \<notin> set (sv_closed (closeHost i s))"
    "\<And>i'. held (closeHost i s) i' = None \<or> held (closeHost i s) i' = held s i'"
proof -
  have report: "same_clients t (on_session i (\<lambda>se. se\<lparr>se_report := None\<rparr>) t)" for t by (simp add: same_clients_session)
  show "clients_ok ws (closeHost i s)"
  proof (cases "se_host (sv_store s ! i)")
    case None
    with c clients_same [OF report] show ?thesis by (simp add: closeHost_def)
  next
    case (Some h)
    let ?t = "on_session i (\<lambda>se. se\<lparr>se_host := None\<rparr>) (s\<lparr>sv_closed := h # sv_closed s\<rparr>)"
    have held: "held ?t = (held s)(i := None)" "owned ?t = owned s"
      using i by (auto simp: held_session owned_session fun_eq_iff held_def owned_def)
    have h: "held s i = Some h" using Some i by (simp add: held_def)
    have engines: "completes (sv_jobs s ! j) \<or> (\<exists>i'. held ?t i' = Some h' \<and> owned s i' = Some j)" if "(j, h') \<in> set (sv_engines s)" for j h'
    proof -
      from c that consider "completes (sv_jobs s ! j)" | i' where "held s i' = Some h'" "owned s i' = Some j"
        unfolding clients_ok_def by blast
      then show ?thesis
      proof cases
        case 2
        show ?thesis
        proof (cases "i' = i")
          case True
          with 2 idle that i have "completes (sv_jobs s ! j)"
            by (auto simp: active_job_def owned_def completes_def job_state_def)
          then show ?thesis ..
        next
          case False
          with 2 show ?thesis by (auto simp: held)
        qed
      qed simp
    qed
    have "Connecting i' h k \<notin> set ws" for i' k
      using c h unfolding clients_ok_def by blast
    with c h engines have "clients_ok ws ?t"
       unfolding clients_ok_def held by auto
    with clients_same [OF report] Some show ?thesis by (simp add: closeHost_def)
  qed
qed (use i in \<open>auto simp: closeHost_def Let_def held_def owned_def on_session_def nth_list_update fun_eq_iff split: option.splits if_splits\<close>)

text \<open>The steps of the sign-in.\<close>

lemma clients_purge:
  assumes "clients_ok ws s"
  shows "clients_ok ws (purge_one t c s)" "length (sv_store (purge_one t c s)) = length (sv_store s)"
    "sv_clients (purge_one t c s) = sv_clients s" "sv_failures (purge_one t c s) = sv_failures s" "length (sv_sessions (purge_one t c s)) \<le> length (sv_sessions s)"
proof -
  have "clients_ok ws (purge_one t c s) \<and> length (sv_store (purge_one t c s)) = length (sv_store s) \<and> sv_clients (purge_one t c s) = sv_clients s"
  proof (cases "\<exists>i. map_of (sv_sessions s) c = Some i \<and> is_expired t s i")
    case True
    then obtain i where i: "map_of (sv_sessions s) c = Some i" "is_expired t s i" by blast
    with assms have len: "i < length (sv_store s)" by (auto simp: clients_ok_def)
    from i(2) have idle: "\<not> active_job s i" by (auto simp: is_expired_def Let_def active_job_def split: option.splits)
    let ?s = "closeHost i s"
    note closed = clients_closeHost [OF assms len disjI2 [OF idle]]
    have "map_of (del (sv_sessions s) c) c' = Some k \<Longrightarrow> map_of (sv_sessions s) c' = Some k" for c' k
      by (auto simp: del_def delete_conv' split: if_splits)
    moreover have "map_of (sv_sessions s) c' = Some k \<Longrightarrow> k < length (sv_store s)" for c' k
      using assms by (simp add: clients_ok_def)
    ultimately have "clients_ok ws (?s\<lparr>sv_sessions := del (sv_sessions s) c\<rparr>)"
      by (intro clients_cong [OF closed(1)]) (auto simp: held_def owned_def fun_eq_iff closed(2))
    with i closed show ?thesis by (simp add: purge_one_def)
  next
    case False
    then show ?thesis using assms by (auto simp: purge_one_def split: option.split)
  qed
  then show "clients_ok ws (purge_one t c s)" "length (sv_store (purge_one t c s)) = length (sv_store s)" "sv_clients (purge_one t c s) = sv_clients s"
    by blast+
  show "sv_failures (purge_one t c s) = sv_failures s" "length (sv_sessions (purge_one t c s)) \<le> length (sv_sessions s)"
    by (auto simp: purge_one_def closeHost_def Let_def del_def length_delete_le split: option.split)
qed

lemma clients_purge_all:
  assumes "clients_ok ws s"
  shows "clients_ok ws (purge clock s)" "sv_failures (purge clock s) = sv_failures s" "length (sv_sessions (purge clock s)) \<le> length (sv_sessions s)"
proof -
  have "clients_ok ws (fold (\<lambda>(n, cookie). purge_one (clock n) cookie) cs s) \<and>
      sv_failures (fold (\<lambda>(n, cookie). purge_one (clock n) cookie) cs s) = sv_failures s \<and>
      length (sv_sessions (fold (\<lambda>(n, cookie). purge_one (clock n) cookie) cs s)) \<le> length (sv_sessions s)" for cs
    using assms
  proof (induction cs arbitrary: s)
    case (Cons c cs)
    note one = clients_purge [OF Cons.prems, of "clock (fst c)" "snd c"]
    from Cons.IH [OF one(1)] one show ?case by (simp add: split_beta)
  qed simp
  then show "clients_ok ws (purge clock s)" "sv_failures (purge clock s) = sv_failures s" "length (sv_sessions (purge clock s)) \<le> length (sv_sessions s)"
    by (simp_all add: purge_def)
qed

lemma clients_new_session:
  assumes "clients_ok ws s"
  shows "clients_ok ws (new_session c x t s)"
  unfolding new_session_def
proof -
  have "map_of (sv_sessions s) c' = Some k \<Longrightarrow> k < length (sv_store s)" for c' k
    using assms by (simp add: clients_ok_def)
  then have "map_of (put (sv_sessions s) c (length (sv_store s))) c' = Some k \<Longrightarrow> k < length (sv_store s) + 1" for c' k
    by (auto simp: put_def update_conv' less_SucI split: if_splits)
  then show "clients_ok ws (s\<lparr>sv_sessions := put (sv_sessions s) c (length (sv_store s)), sv_store := sv_store s @ [\<lparr>se_csrf = x, se_expires = t + 12 * hour,
      se_address = [], se_fingerprint = [], se_probeTime = 0, se_host = None, se_report = None, se_job = None\<rparr>]\<rparr>)"
    by (intro clients_cong [OF assms]) (auto simp: held_def owned_def fun_eq_iff nth_append)
qed

text \<open>What bounds the guessing of the token, and the sessions.\<close>

definition limits :: "server \<Rightarrow> bool" where
  "limits s = (length (sv_sessions s) \<le> 16 \<and> 0 \<le> sv_failures s \<and> sv_failures s \<le> 5)"

text \<open>The steps one by one.\<close>

text \<open>Changes that the invariant does not see.\<close>

lemma clients_flags:
  "clients_ok ws (s\<lparr>sv_op := b\<rparr>) = clients_ok ws s" "clients_ok ws (s\<lparr>sv_failures := n\<rparr>) = clients_ok ws s"
  "clients_ok ws (s\<lparr>sv_running := b\<rparr>) = clients_ok ws s" "clients_ok ws (s\<lparr>sv_failureReset := n\<rparr>) = clients_ok ws s"
  "clients_ok ws (login_window t t' s) = clients_ok ws s" "clients_ok ws (unlock s) = clients_ok ws s"
proof -
  have f: "held (s\<lparr>sv_op := b\<rparr>) = held s" "owned (s\<lparr>sv_op := b\<rparr>) = owned s" "held (s\<lparr>sv_failures := n\<rparr>) = held s" "owned (s\<lparr>sv_failures := n\<rparr>) = owned s"
    "held (s\<lparr>sv_running := b\<rparr>) = held s" "owned (s\<lparr>sv_running := b\<rparr>) = owned s" "held (s\<lparr>sv_failureReset := n\<rparr>) = held s" "owned (s\<lparr>sv_failureReset := n\<rparr>) = owned s" for b n and s :: server
    by (auto simp: held_def owned_def fun_eq_iff)
  show "clients_ok ws (s\<lparr>sv_op := b\<rparr>) = clients_ok ws s" "clients_ok ws (s\<lparr>sv_failures := n\<rparr>) = clients_ok ws s"
    "clients_ok ws (s\<lparr>sv_running := b\<rparr>) = clients_ok ws s" "clients_ok ws (s\<lparr>sv_failureReset := n\<rparr>) = clients_ok ws s"
    by (simp_all add: clients_ok_def f)
  show "clients_ok ws (login_window t t' s) = clients_ok ws s" "clients_ok ws (unlock s) = clients_ok ws s"
    by (simp_all add: clients_ok_def login_window_def unlock_def f)
qed

lemma clients_waits [simp]:
  "clients_ok (Probing i a # ws) s = clients_ok ws s" "clients_ok (Analyzing i h req # ws) s = clients_ok ws s"
  "clients_ok (RollingBack j h # ws) s = clients_ok ws s"
  by (simp_all add: clients_ok_def)

lemma clients_subset: "clients_ok ws s \<Longrightarrow> set ws' \<subseteq> set ws \<Longrightarrow> clients_ok ws' s"
  unfolding clients_ok_def by blast

section \<open>The steps one by one\<close>

lemma clients_login:
  assumes "clients_ok ws s" and "login clock new_id csrf body s = (p, s')"
  shows "clients_ok ws s'"
proof -
  have w: "clients_ok ws (login_window (clock 0) (clock 1) s)" using assms(1) by (simp add: clients_flags)
  from clients_purge_all(1) [OF this] have "clients_ok ws (purge (\<lambda>n. clock (n + 2)) (login_window (clock 0) (clock 1) s))" .
  with w assms show ?thesis
    by (auto simp: login_def Let_def clients_flags clients_new_session split: sum.splits if_splits)
qed

lemma limits_login:
  assumes "clients_ok ws s" and "limits s" and "login clock new_id csrf body s = (p, s')"
  shows "limits s'"
proof -
  let ?s1 = "login_window (clock 0) (clock 1) s"
  have w: "clients_ok ws ?s1" "limits ?s1" using assms(1,2) by (simp_all add: clients_flags) (auto simp: limits_def login_window_def)
  note p = clients_purge_all [OF w(1), of "\<lambda>n. clock (n + 2)"]
  have put: "length (put m c i) \<le> length m + 1" for m :: "(string, nat) gomap" and c i
    by (induction m) (auto simp: put_def)
  let ?s2 = "purge (\<lambda>n. clock (n + 2)) ?s1"
  have lim: "limits ?s2" using w(2) p(2,3) by (simp add: limits_def)
  have new: "limits (new_session a c t ?s2)" if "\<not> 16 \<le> length (sv_sessions ?s2)" for a c t
    using lim put [of "sv_sessions ?s2" a "length (sv_store ?s2)"] that by (simp add: limits_def new_session_def)
  have fail: "limits (?s1\<lparr>sv_failures := sv_failures ?s1 + 1\<rparr>)" if "\<not> 5 \<le> sv_failures ?s1"
    using w(2) that by (simp add: limits_def)
  from assms(2,3) w(2) lim new fail show ?thesis
    unfolding login_def Let_def by (auto split: sum.splits if_splits)
qed

lemma active_expiry:
  assumes "clients_ok ws s" and "i < length (sv_store s)"
  shows "clients_ok ws (on_session i (\<lambda>se. se\<lparr>se_expires := t\<rparr>) s)"
  by (rule clients_same [OF same_clients_session assms(1)]) simp_all

lemma clients_auth:
  assumes "clients_ok ws s" and "auth clock r s = (a, s')" and "clock 1 < clock 0 + 12 * hour"
  shows "clients_ok ws s'"
proof (cases "\<exists>cookie i. ht_Cookie r = Some cookie \<and> map_of (sv_sessions s) cookie = Some i")
  case True
  then obtain cookie i where i: "ht_Cookie r = Some cookie" "map_of (sv_sessions s) cookie = Some i" by blast
  with assms(1) have len: "i < length (sv_store s)" by (auto simp: clients_ok_def)
  show ?thesis
  proof (cases "active_job s i")
    case True
    let ?s1 = "on_session i (\<lambda>se. se\<lparr>se_expires := clock 0 + 12 * hour\<rparr>) s"
    have "se_expires (sv_store ?s1 ! i) = clock 0 + 12 * hour" using len by (simp add: on_session_def)
    with assms(2,3) i True have "s' = ?s1" by (auto simp: auth_def Let_def split: if_splits)
    with active_expiry [OF assms(1) len] show ?thesis by simp
  next
    case False
    with assms(2) i have "s' = s \<or> s' = closeHost i s" by (auto simp: auth_def Let_def split: if_splits)
    with clients_closeHost(1) [OF assms(1) len] False assms(1) show ?thesis by auto
  qed
next
  case False
  with assms show ?thesis by (auto simp: auth_def split: option.splits)
qed

text \<open>A job changes, and stays complete if it was.\<close>

lemma clients_jobs:
  assumes "clients_ok ws s" and "completes (sv_jobs s ! j) \<Longrightarrow> completes x"
  shows "clients_ok ws (s\<lparr>sv_jobs := (sv_jobs s)[j := x]\<rparr>)"
proof -
  have f: "held (s\<lparr>sv_jobs := js\<rparr>) = held s" "owned (s\<lparr>sv_jobs := js\<rparr>) = owned s" for js by (auto simp: held_def owned_def fun_eq_iff)
  have "completes (sv_jobs s ! k) \<Longrightarrow> completes ((sv_jobs s)[j := x] ! k)" for k
    using assms(2) by (cases "j < length (sv_jobs s)") (auto simp: nth_list_update list_update_beyond)
  with assms(1) show ?thesis unfolding clients_ok_def f by simp metis
qed

lemma Control_completes [simp]: "completes (snd (Control a c j)) = completes j"
  by (auto simp: Control_def requestStop_def completes_def Snapshot_def split: option.split)

lemma clients_control:
  assumes "clients_ok ws s" and "control i body s = (p, s')"
  shows "clients_ok ws s'"
proof -
  have "clients_ok ws (s\<lparr>sv_jobs := (sv_jobs s)[j := x]\<rparr>)" if "Control a c (sv_jobs s ! j) = (e, x)" for a c e j x
    using Control_completes [of a c "sv_jobs s ! j"] that by (intro clients_jobs assms(1)) simp
  with assms show ?thesis by (auto simp: control_def Let_def split: sum.splits option.splits prod.splits)
qed

text \<open>The management handlers.\<close>

lemma managed_clients:
  assumes "managed_request body k s = (a, s')" and "clients_ok ws s"
    and "\<And>x t b u. k x t = (b, u) \<Longrightarrow> clients_ok ws t \<Longrightarrow> (case b of Inl _ \<Rightarrow> clients_ok ws u | Inr y \<Rightarrow> clients_ok (w y) u)"
  shows "case a of Inl _ \<Rightarrow> clients_ok ws s' | Inr y \<Rightarrow> clients_ok (w y) s'"
proof (cases "begin_op s")
  case (Pair r s1)
  with assms(2) have s1: "clients_ok ws s1" by (auto simp: begin_op_def clients_flags split: if_splits)
  show ?thesis
  proof (cases r)
    case (Inr u)
    show ?thesis
    proof (cases "readJSON body")
      case (Inr x)
      obtain b t where k: "k x s1 = (b, t)" by (cases "k x s1")
      with assms(3) [OF k s1] assms(1) Pair \<open>r = Inr u\<close> Inr show ?thesis
        by (auto simp: managed_request_def clients_flags split: sum.splits)
    qed (use assms(1) Pair Inr s1 in \<open>auto simp: managed_request_def clients_flags\<close>)
  qed (use assms(1) Pair s1 in \<open>auto simp: managed_request_def\<close>)
qed

lemma clients_report: "clients_ok ws s \<Longrightarrow> clients_ok ws (on_session i (\<lambda>se. se\<lparr>se_report := r\<rparr>) s)"
  by (rule clients_same [OF same_clients_session]) simp_all

lemma clients_probe: "clients_ok ws s \<Longrightarrow> probe_start body s = (a, s') \<Longrightarrow> clients_ok ws s'"
  unfolding probe_start_def
  by (drule managed_clients [where w = "\<lambda>_. ws"]) (auto split: sum.splits)

lemma clients_analyze: "clients_ok ws s \<Longrightarrow> analyze_start i body s = (a, s') \<Longrightarrow> clients_ok ws s'"
  unfolding analyze_start_def
  by (drule managed_clients [where w = "\<lambda>_. ws"]) (auto simp: Let_def clients_report split: sum.splits option.splits)

lemma clients_rollback: "clients_ok ws s \<Longrightarrow> rollback_start i body s = (a, s') \<Longrightarrow> clients_ok ws s'"
  unfolding rollback_start_def
  by (drule managed_clients [where w = "\<lambda>_. ws"]) (auto split: sum.splits option.splits if_splits)

lemma clients_connecting:
  assumes "clients_ok ws s"
  shows "clients_ok (Connecting i (sv_clients s) k # ws) (s\<lparr>sv_clients := Suc (sv_clients s)\<rparr>)"
proof -
  have f: "held (s\<lparr>sv_clients := n\<rparr>) = held s" "owned (s\<lparr>sv_clients := n\<rparr>) = owned s" for n by (auto simp: held_def owned_def fun_eq_iff)
  note D = clients_okD [OF assms]
  show ?thesis
    by (rule clients_okI; (unfold f)?) (use D(1,3,4) in \<open>fastforce intro: less_SucI dest: D(2,5,6,7)\<close>)+
qed

lemma clients_connect:
  "clients_ok ws s \<Longrightarrow> connect_start new_ssh i t body s = (a, s') \<Longrightarrow>
     (case a of Inl _ \<Rightarrow> clients_ok ws s' | Inr (h, k) \<Rightarrow> clients_ok (Connecting i h k # ws) s')"
  unfolding connect_start_def
  by (drule managed_clients [where w = "\<lambda>(h, k). Connecting i h k # ws"])
    (auto simp: Let_def clients_connecting split: sum.splits if_splits)

text \<open>The ends of the handlers that waited.\<close>

lemma clients_probed: "clients_ok ws s \<Longrightarrow> probe_finish i addr t r s = (p, s') \<Longrightarrow> clients_ok ws s'"
  by (auto simp: probe_finish_def clients_flags split: sum.splits intro!: clients_same [OF same_clients_session])

lemma clients_analyzed: "clients_ok ws s \<Longrightarrow> analyze_finish i r s = (p, s') \<Longrightarrow> clients_ok ws s'"
  by (auto simp: analyze_finish_def clients_flags clients_report split: sum.splits)

lemma clients_rolled_back: "clients_ok ws s \<Longrightarrow> rollback_finish j r s = (p, s') \<Longrightarrow> clients_ok ws s'"
  by (auto simp: rollback_finish_def clients_flags split: option.splits)

lemma clients_connected:
  assumes ok: "clients_ok [Connecting i h k] s" and i: "i < length (sv_store s)" and none: "sv_engines s = []"
    and r: "connect_finish i h r s = (p, s')"
  shows "clients_ok [] s'"
proof (cases r)
  case (Inl e)
  have f: "held (s\<lparr>sv_closed := cs\<rparr>) = held s" "owned (s\<lparr>sv_closed := cs\<rparr>) = owned s" for cs by (auto simp: held_def owned_def fun_eq_iff)
  from ok have "clients_ok [] (s\<lparr>sv_closed := h # sv_closed s\<rparr>)" unfolding clients_ok_def f by auto
  with r Inl show ?thesis by (auto simp: connect_finish_def clients_flags)
next
  case (Inr inventory)
  let ?t = "closeHost i s"
  note t = clients_closeHost [OF ok i disjI1 [OF none]]
  let ?u = "on_session i (\<lambda>se. se\<lparr>se_host := Some h, se_report := None, se_job := None\<rparr>) ?t"
  have f: "held ?u = (held ?t)(i := Some h)" "owned ?u = (owned ?t)(i := None)"
    using i t(2) by (simp_all add: held_session owned_session)
  note D = clients_okD [OF ok] and E = clients_okD [OF t(1)]
  have h: "h < sv_clients ?t" "h \<notin> set (sv_closed ?t)" "held ?t i' \<noteq> Some h" for i'
    using D(4) [of i h k i] D(4) [of i h k i'] t(8) t(9) [of h] t(10) [of i'] by auto
  have "clients_ok [] ?u"
  proof (rule clients_okI; (unfold f)?)
    show "((held ?t)(i := Some h)) k = Some h' \<Longrightarrow> h' < sv_clients ?u \<and> h' \<notin> set (sv_closed ?u)" for k h'
      using h E(1) [of k h'] by (auto split: if_splits)
    show "((held ?t)(i := Some h)) k = Some h' \<Longrightarrow> ((held ?t)(i := Some h)) k' = Some h' \<Longrightarrow> k' = k" for k k' h'
      using h E(2) [of k h' k'] by (auto split: if_splits)
    show "((owned ?t)(i := None)) k = Some j \<Longrightarrow> j < length (sv_jobs ?u)" for k j
      using E(6) [of k j] by (auto split: if_splits)
  qed (use E(3,7) none t(6) in simp_all)
  with r Inr show ?thesis by (auto simp: connect_finish_def clients_flags)
qed

text \<open>A start that is refused leaves everything as it was; one that is accepted adds one job and its engine.\<close>

definition job_started :: "nat \<Rightarrow> Job \<Rightarrow> nat \<Rightarrow> server \<Rightarrow> server" where
  "job_started i j h s = (on_session i (\<lambda>se. se\<lparr>se_job := Some (length (sv_jobs s)), se_report := None\<rparr>) (s\<lparr>sv_jobs := sv_jobs s @ [j]\<rparr>))
     \<lparr>sv_running := True, sv_engines := (length (sv_jobs s), h) # sv_engines s\<rparr>"

lemma start_cases:
  assumes "start i t t' body s = (p, s')"
  obtains e where "p = Inl e" "s' = s"
    | x h r where "body = Body x" "si_MaintenanceConfirmed x" "\<not> sv_op s" "\<not> sv_running s" "se_host (sv_store s ! i) = Some h"
      "se_report (sv_store s ! i) = Some r" "rp_Ready r" "rp_ID r = si_AnalysisID x"
      "p = Inr (Snapshot (NewJob r t t'))" "s' = job_started i (NewJob r t t') h s"
proof -
  have flag: "s\<lparr>sv_op := False\<rparr> = s" if "\<not> sv_op s" using that by simp
  show ?thesis
  proof (cases "sv_op s \<or> sv_running s")
    case True
    with assms that(1) show ?thesis by (auto simp: start_def managed_request_def begin_op_def split: if_splits)
  next
    case False
    show ?thesis
    proof (cases "readJSON body")
      case (Inl e)
      with False assms that(1) show ?thesis by (auto simp: start_def managed_request_def begin_op_def unlock_def flag)
    next
      case (Inr x)
      then have body: "body = Body x" by (simp add: readJSON_def split: body.splits)
      show ?thesis
      proof (cases "\<exists>h r. si_MaintenanceConfirmed x \<and> se_host (sv_store s ! i) = Some h \<and> se_report (sv_store s ! i) = Some r \<and> rp_Ready r \<and> rp_ID r = si_AnalysisID x")
        case True
        then obtain h r where t: "si_MaintenanceConfirmed x" "se_host (sv_store s ! i) = Some h" "se_report (sv_store s ! i) = Some r" "rp_Ready r" "rp_ID r = si_AnalysisID x"
          by blast
        with False Inr assms have "p = Inr (Snapshot (NewJob r t t'))" "s' = job_started i (NewJob r t t') h s"
          by (auto simp: start_def managed_request_def begin_op_def Let_def unlock_def job_started_def on_session_def job_state_def nth_append)
        with False t body that(2) show ?thesis by blast
      next
        case no: False
        have "(\<exists>e. p = Inl e) \<and> s' = s"
          using assms Inr False no
          by (auto simp: start_def managed_request_def begin_op_def unlock_def flag Let_def split: option.splits if_splits)
        with that(1) show ?thesis by blast
      qed
    qed
  qed
qed

lemma clients_start:
  assumes ok: "clients_ok ws s" and i: "i < length (sv_store s)" and x: "exclusive ws s" and st: "start i t t' body s = (p, s')"
  shows "clients_ok ws s'"
  using st
proof (cases rule: start_cases)
  case (2 y h r)
  from 2(4) x have none: "sv_engines s = []" by (simp add: exclusive_def)
  let ?u = "job_started i (NewJob r t t') h s"
  have g: "held ?u = held s" "owned ?u = (owned s)(i := Some (length (sv_jobs s)))" "sv_clients ?u = sv_clients s" "sv_closed ?u = sv_closed s"
    "sv_engines ?u = [(length (sv_jobs s), h)]" "length (sv_jobs ?u) = Suc (length (sv_jobs s))" "sv_sessions ?u = sv_sessions s" "length (sv_store ?u) = length (sv_store s)"
    using i none by (auto simp: job_started_def held_def owned_def fun_eq_iff on_session_def nth_list_update)
  have h: "held s i = Some h" using 2(5) i by (simp add: held_def)
  note D = clients_okD [OF ok]
  have "clients_ok ws ?u"
    by (rule clients_okI; (unfold g)?) (use D h in \<open>auto intro: less_SucI split: if_splits\<close>)
  with 2 show ?thesis by simp
qed (use ok in simp)

section \<open>The invariant\<close>

lemma clients_step:
  "web_step new_ssh c c' \<Longrightarrow> exclusive (snd c) (fst c) \<Longrightarrow> clients_ok (snd c) (fst c) \<Longrightarrow> clients_ok (snd c') (fst c')"
proof (induction rule: web_step.induct)
  case (step_probe_finish i addr ws t r s p s')
  then show ?case by (simp, blast intro: clients_subset [OF clients_probed set_remove1_subset])
next
  case (step_connect_finish i s h k ws r p s')
  then have ws: "ws = [Connecting i h k]" "sv_engines s = []" by (cases ws; auto simp: exclusive_def)+
  with step_connect_finish show ?case by (auto intro: clients_connected)
next
  case (step_analyze_finish i h req ws r s p s')
  then show ?case by (simp, blast intro: clients_subset [OF clients_analyzed set_remove1_subset])
next
  case (step_rollback_finish j h ws r s p s')
  then show ?case by (simp, blast intro: clients_subset [OF clients_rolled_back set_remove1_subset])
next
  case (step_engine_end j h s ws)
  have f: "held (s\<lparr>sv_running := False, sv_engines := es\<rparr>) = held s" "owned (s\<lparr>sv_running := False, sv_engines := es\<rparr>) = owned s" for es
    by (auto simp: held_def owned_def fun_eq_iff)
  from step_engine_end(4) have "clients_ok ws s" by simp
  note D = clients_okD [OF this]
  have "clients_ok ws (s\<lparr>sv_running := False, sv_engines := remove1 (j, h) (sv_engines s)\<rparr>)"
  proof (rule clients_okI; (unfold f)?)
    fix j' h' assume "(j', h') \<in> set (sv_engines (s\<lparr>sv_running := False, sv_engines := remove1 (j, h) (sv_engines s)\<rparr>))"
    then have "(j', h') \<in> set (sv_engines s)" by (auto dest: set_mp [OF set_remove1_subset])
    from D(5) [OF this] show "j' < length (sv_jobs (s\<lparr>sv_running := False, sv_engines := remove1 (j, h) (sv_engines s)\<rparr>)) \<and>
        (completes (sv_jobs (s\<lparr>sv_running := False, sv_engines := remove1 (j, h) (sv_engines s)\<rparr>) ! j') \<or> (\<exists>i. held s i = Some h' \<and> owned s i = Some j'))"
      by simp
  qed (use D in auto)
  then show ?case by simp
qed (auto simp: with_jobs_def le_bool_def intro: clients_login clients_auth clients_control clients_probe clients_analyze clients_rollback clients_start clients_jobs
    dest: clients_connect)

text \<open>Only a sign-in changes the sessions and counts a failure.\<close>

definition same_limits :: "server \<Rightarrow> server \<Rightarrow> bool" where
  "same_limits s t = (sv_sessions t = sv_sessions s \<and> sv_failures t = sv_failures s)"

lemma same_limits_simps [simp]:
  "same_limits s s" "same_limits s (on_session i f t) = same_limits s t" "same_limits s (t\<lparr>sv_op := b\<rparr>) = same_limits s t"
  "same_limits s (t\<lparr>sv_closed := cs\<rparr>) = same_limits s t" "same_limits s (t\<lparr>sv_clients := n\<rparr>) = same_limits s t"
  "same_limits s (t\<lparr>sv_jobs := js\<rparr>) = same_limits s t" "same_limits s (t\<lparr>sv_running := b, sv_engines := es\<rparr>) = same_limits s t"
  "same_limits s (unlock t) = same_limits s t" "same_limits s (job_started i j h t) = same_limits s t"
  by (simp_all add: same_limits_def unlock_def job_started_def)

lemma same_limits_closeHost [simp]: "same_limits s (closeHost i t) = same_limits s t"
  by (simp add: closeHost_def Let_def split: option.split)

lemma same_limits_trans: "same_limits s t \<Longrightarrow> same_limits t u \<Longrightarrow> same_limits s u"
  by (simp add: same_limits_def)

lemma managed_limits:
  assumes "managed_request body k s = (a, s')" and "\<And>x s1 b s2. k x s1 = (b, s2) \<Longrightarrow> same_limits s1 s2"
  shows "same_limits s s'"
  using assms by (auto simp: managed_request_def begin_op_def unlock_def same_limits_def split: prod.splits sum.splits if_splits)

lemma limits_parts:
  "probe_start body1 s = (a1, s') \<Longrightarrow> same_limits s s'" "connect_start new_ssh i t body2 s = (a2, s') \<Longrightarrow> same_limits s s'"
  "analyze_start i body3 s = (a3, s') \<Longrightarrow> same_limits s s'" "rollback_start i body4 s = (a4, s') \<Longrightarrow> same_limits s s'"
  unfolding probe_start_def connect_start_def analyze_start_def rollback_start_def
  by (erule managed_limits; auto simp: Let_def split: sum.splits option.splits if_splits)+

lemma limits_ends:
  "probe_finish i addr t r1 s = (p, s') \<Longrightarrow> same_limits s s'" "connect_finish i h r2 s = (p, s') \<Longrightarrow> same_limits s s'"
  "analyze_finish i r3 s = (p, s') \<Longrightarrow> same_limits s s'" "rollback_finish j r4 s = (p, s') \<Longrightarrow> same_limits s s'"
  "control i body s = (p, s') \<Longrightarrow> same_limits s s'" "auth clock r s = (b, s') \<Longrightarrow> same_limits s s'"
  by (auto simp: probe_finish_def connect_finish_def analyze_finish_def rollback_finish_def control_def auth_def Let_def
      split: sum.splits option.splits prod.splits if_splits)

lemma limits_start: "start i t t' body s = (p, s') \<Longrightarrow> same_limits s s'"
  by (erule start_cases) simp_all

lemma limits_same: "limits s \<Longrightarrow> same_limits s t \<Longrightarrow> limits t"
  by (simp add: limits_def same_limits_def)

lemma limits_step: "web_step new_ssh c c' \<Longrightarrow> clients_ok (snd c) (fst c) \<Longrightarrow> limits (fst c) \<Longrightarrow> limits (fst c')"
proof (induction rule: web_step.induct)
  case (step_login clock new_id csrf body s p s' ws)
  then show ?case by (auto intro: limits_login)
qed (auto simp: with_jobs_def intro: limits_same dest: limits_parts limits_ends limits_start)

text \<open>The server from its start, with no session.\<close>

lemma web_invariant:
  assumes "rtranclp (web_step new_ssh) (New token opts, []) c"
  shows "exclusive (snd c) (fst c) \<and> clients_ok (snd c) (fst c) \<and> limits (fst c)"
  using assms
proof (induction rule: rtranclp_induct)
  case base
  then show ?case by (auto simp: exclusive_def limits_def New_def held_def owned_def intro!: clients_okI)
next
  case (step c c')
  then show ?case by (blast intro: exclusive_step clients_step limits_step)
qed

section \<open>A sample sequence of requests\<close>

definition demo_time :: "nat \<Rightarrow> int" where "demo_time n = 1000 * second + int n"

definition demo_request :: Request where
  "demo_request = \<lparr>rq_VMID = 7, rq_TargetUUID = ''ds2'', rq_Mode = modeMove, rq_PowerOn = True, rq_TargetName = ''vm'', rq_Live = False, rq_BringDisks = False\<rparr>"

definition demo_report :: Report where
  "demo_report = (zero_Report ''a1'' demo_request)\<lparr>rp_Ready := True\<rparr>"

definition demo_ssh :: "SSHOptions \<Rightarrow> string ssh_setup result" where
  "demo_ssh opts = NewSSH (\<lambda>_ _. None) (\<lambda>_. None) opts"

definition demo_login :: server where
  "demo_login = snd (login demo_time ''s1'' ''x1'' (Body ''token'') (New ''token'' DefaultOptions))"

definition demo_probe :: server where
  "demo_probe = snd (probe_start (Body \<lparr>pr_Host = ''esxi'', pr_Port = 22\<rparr>) demo_login)"

definition demo_probed :: server where
  "demo_probed = snd (probe_finish 0 ''esxi:22'' (1000 * second) (Inr ''SHA256:k'') demo_probe)"

definition demo_credentials :: ConnectIn where
  "demo_credentials = \<lparr>ci_Username = ''root'', ci_Password = ''p'', ci_PrivateKey = [], ci_Passphrase = [], ci_Fingerprint = ''SHA256:k'', ci_Confirmed = True\<rparr>"

definition demo_connecting :: "(response + nat \<times> string ssh_setup) \<times> server" where
  "demo_connecting = connect_start demo_ssh 0 (1001 * second) (Body demo_credentials) demo_probed"

definition demo_connected :: server where
  "demo_connected = snd (connect_finish 0 0 (Inr \<lparr>inv_Capabilities = \<lparr>cap_Version = [], cap_Supported = True, cap_Commands = []\<rparr>, inv_VMs = [],
     inv_Datastores = [], inv_ExistingOperation = []\<rparr>) (snd demo_connecting))"

definition demo_analyzing :: server where
  "demo_analyzing = snd (analyze_start 0 (Body demo_request) demo_connected)"

definition demo_analyzed :: server where
  "demo_analyzed = snd (analyze_finish 0 (Inr demo_report) demo_analyzing)"

definition demo_started :: server where
  "demo_started = snd (start 0 (1002 * second) (1002 * second) (Body \<lparr>si_AnalysisID = ''a1'', si_MaintenanceConfirmed = True\<rparr>) demo_analyzed)"

definition demo_setup :: "string ssh_setup" where
  "demo_setup = (case fst demo_connecting of Inr (_, k) \<Rightarrow> k | Inl _ \<Rightarrow> \<lparr>ss_options = \<lparr>so_Address = [], so_User = [], so_Password = [], so_PrivateKey = [],
     so_Passphrase = [], so_Fingerprint = []\<rparr>, ss_auth = []\<rparr>)"

lemma demo_responses:
  "fst (probe_start (Body \<lparr>pr_Host = ''esxi'', pr_Port = 22\<rparr>) demo_login) = Inr ''esxi:22''" "length (sv_store demo_login) = 1"
  "case fst demo_connecting of Inr (h, _) \<Rightarrow> h = 0 | Inl _ \<Rightarrow> False" "length (sv_store demo_probed) = 1" "length (sv_store (snd demo_connecting)) = 1"
  "fst (analyze_start 0 (Body demo_request) demo_connected) = Inr (0, demo_request)" "length (sv_store demo_connected) = 1"
  "length (sv_store demo_analyzed) = 1"
  by code_simp+

lemma demo_client: "fst demo_connecting = Inr (0, demo_setup)"
  using demo_responses(3) by (auto simp: demo_setup_def split: sum.splits prod.splits)

lemma demo_run: "rtranclp (web_step demo_ssh) (New ''token'' DefaultOptions, []) (demo_started, [])"
proof -
  note split = prod.collapse [symmetric]
  have "web_step demo_ssh (New ''token'' DefaultOptions, []) (demo_login, [])"
    unfolding demo_login_def by (rule step_login [OF split])
  moreover have "web_step demo_ssh (demo_login, []) (demo_probe, [Probing 0 ''esxi:22''])"
    using step_probe [where new_ssh = demo_ssh, of 0 demo_login] demo_responses by (simp add: demo_probe_def prod_eq_iff)
  moreover have "web_step demo_ssh (demo_probe, [Probing 0 ''esxi:22'']) (demo_probed, [])"
    using step_probe_finish [where new_ssh = demo_ssh, of 0 "''esxi:22''" "[Probing 0 ''esxi:22'']", OF _ split] by (simp add: demo_probed_def)
  moreover have "web_step demo_ssh (demo_probed, []) (snd demo_connecting, [Connecting 0 0 demo_setup])"
    using step_connect [where new_ssh = demo_ssh, of 0 demo_probed "1001 * second" "Body demo_credentials" 0 demo_setup] demo_responses demo_client
    by (simp add: demo_connecting_def prod_eq_iff)
  moreover have "web_step demo_ssh (snd demo_connecting, [Connecting 0 0 demo_setup]) (demo_connected, [])"
    using step_connect_finish [where new_ssh = demo_ssh, of 0 "snd demo_connecting" 0 demo_setup "[Connecting 0 0 demo_setup]", OF _ _ split] demo_responses
    by (simp add: demo_connected_def)
  moreover have "web_step demo_ssh (demo_connected, []) (demo_analyzing, [Analyzing 0 0 demo_request])"
    using step_analyze [where new_ssh = demo_ssh, of 0 demo_connected "Body demo_request" 0 demo_request] demo_responses
    by (simp add: demo_analyzing_def prod_eq_iff)
  moreover have "web_step demo_ssh (demo_analyzing, [Analyzing 0 0 demo_request]) (demo_analyzed, [])"
    using step_analyze_finish [where new_ssh = demo_ssh, of 0 0 demo_request "[Analyzing 0 0 demo_request]", OF _ split] by (simp add: demo_analyzed_def)
  moreover have "web_step demo_ssh (demo_analyzed, []) (demo_started, [])"
    unfolding demo_started_def using demo_responses by (intro step_start [OF _ split]) simp
  ultimately show ?thesis by (meson rtranclp.rtrancl_into_rtrancl rtranclp.rtrancl_refl)
qed

section \<open>What the server promises\<close>

text \<open>
  C16: However the requests of its clients interleave, the web server runs at most one thing that talks to ESXi: one management
  request or one engine; the flag that refuses new ones is set exactly while an engine runs. The engine of an incomplete job uses the
  client of the session that has the job, and no expiry, reconnection or failed connection closed that client. At most 16
  sessions exist, and at most 5 wrong tokens count before the server refuses to compare another.
\<close>

theorem one_operation_at_a_time:
  assumes "rtranclp (web_step new_ssh) (New token opts, []) (s, ws)"
  shows "length ws + length (sv_engines s) \<le> 1 \<and> sv_op s = (ws \<noteq> []) \<and> sv_running s = (sv_engines s \<noteq> []) \<and>
    list_all (\<lambda>(j, h). completes (sv_jobs s ! j) \<or> h \<notin> set (sv_closed s) \<and> (\<exists>i. held s i = Some h \<and> owned s i = Some j)) (sv_engines s) \<and>
    length (sv_sessions s) \<le> 16 \<and> 0 \<le> sv_failures s \<and> sv_failures s \<le> 5"
proof -
  from web_invariant [OF assms] have inv: "exclusive ws s" "clients_ok ws s" "limits s" by simp_all
  have "list_all (\<lambda>(j, h). completes (sv_jobs s ! j) \<or> h \<notin> set (sv_closed s) \<and> (\<exists>i. held s i = Some h \<and> owned s i = Some j)) (sv_engines s)"
    using clients_okD(1,5) [OF inv(2)] by (fastforce simp: list_all_iff)
  with inv show ?thesis by (simp add: exclusive_def limits_def)
qed

theorem one_operation_at_a_time_witness:
  "list_all (\<lambda>(j, h). completes (sv_jobs demo_started ! j) \<or> h \<notin> set (sv_closed demo_started) \<and> (\<exists>i. held demo_started i = Some h \<and> owned demo_started i = Some j))
     (sv_engines demo_started) \<and> sv_engines demo_started = [(0, 0)] \<and> \<not> completes (sv_jobs demo_started ! 0)"
proof (intro conjI)
  show "sv_engines demo_started = [(0, 0)]" by code_simp
  show "\<not> completes (sv_jobs demo_started ! 0)" by code_simp
qed (use one_operation_at_a_time [OF demo_run] in blast)

text \<open>
  C17: A migration starts only by a request that confirms the maintenance and names the ready report the session holds, when no
  management request waits and no engine runs. It adds that report's job and one engine on the session's client, spends the report, and
  from then on every further start is refused; a refused start changes nothing.
\<close>

theorem start_guarded:
  "case start i t t' body s of
     (Inl _, s') \<Rightarrow> s' = s
   | (Inr st, s') \<Rightarrow> \<exists>x h r. body = Body x \<and> si_MaintenanceConfirmed x \<and> \<not> sv_op s \<and> \<not> sv_running s \<and> se_host (sv_store s ! i) = Some h \<and>
       se_report (sv_store s ! i) = Some r \<and> rp_Ready r \<and> rp_ID r = si_AnalysisID x \<and>
       sv_jobs s' = sv_jobs s @ [NewJob r t t'] \<and> st = Snapshot (NewJob r t t') \<and> sv_engines s' = (length (sv_jobs s), h) # sv_engines s \<and>
       sv_store s' = (sv_store s)[i := (sv_store s ! i)\<lparr>se_job := Some (length (sv_jobs s)), se_report := None\<rparr>] \<and>
       (\<forall>k u u' b. start k u u' b s' = (Inl (Problem 409 ''An active migration is already running''), s'))"
proof -
  obtain p s' where st: "start i t t' body s = (p, s')" by (cases "start i t t' body s")
  then show ?thesis
  proof (cases rule: start_cases)
    case (2 x h r)
    let ?u = "job_started i (NewJob r t t') h s"
    have running: "start k u u' b ?u = (Inl (Problem 409 ''An active migration is already running''), ?u)" for k u u' b
      using 2(3) by (simp add: start_def managed_request_def begin_op_def job_started_def on_session_def)
    with st 2 show ?thesis by (auto simp: job_started_def on_session_def)
  qed (use st in simp)
qed

text \<open>What the check of a session lets through.\<close>

lemma auth_accepts:
  assumes "auth clock r s = (Inr i, s')"
  shows "\<exists>c. ht_Cookie r = Some c \<and> map_of (sv_sessions s) c = Some i" and "clock 1 < se_expires (sv_store s' ! i)"
    and "ht_Method r = ''GET'' \<or> ht_CSRF r = se_csrf (sv_store s ! i)"
proof -
  have csrf: "se_csrf (sv_store (on_session i (\<lambda>se. se\<lparr>se_expires := x\<rparr>) s) ! i) = se_csrf (sv_store s ! i)" for i x
    by (cases "i < length (sv_store s)") (auto simp: on_session_def list_update_beyond)
  show "\<exists>c. ht_Cookie r = Some c \<and> map_of (sv_sessions s) c = Some i" "clock 1 < se_expires (sv_store s' ! i)"
    "ht_Method r = ''GET'' \<or> ht_CSRF r = se_csrf (sv_store s ! i)"
    using assms csrf by (auto simp: auth_def Let_def split: option.splits if_splits)
qed

lemma route_method: "route r = Some e \<Longrightarrow> e \<notin> {Session, Job_it, Log_it} \<Longrightarrow> ht_Method r = ''POST''"
  by (auto simp: route_def split: if_splits)

lemma front_accepts:
  "front r = None \<Longrightarrow> ht_Method r = ''POST'' \<Longrightarrow> has_prefix (ht_ContentType r) ''application/json'' \<and> ht_FetchSite r \<noteq> ''cross-site'' \<and>
     ht_Origin r \<in> {[], (if ht_TLS r then ''https'' else ''http'') @ ''://'' @ ht_Host r}"
  by (auto simp: front_def Let_def split: if_splits)

text \<open>
  C18: Every request that reaches a handler, but for the sign-in, has the cookie of a session that has not expired; one whose handler
  changes anything also has the session's own CSRF token. Those, and the sign-in, came as JSON from no origin but the server's own.
\<close>

theorem request_authorized:
  "case admit clock r s of
     (Inl _, _) \<Rightarrow> True
   | (Inr (e, who), s') \<Rightarrow>
       (e = Login \<or> (\<exists>c i. who = Some i \<and> ht_Cookie r = Some c \<and> map_of (sv_sessions s) c = Some i \<and> clock 1 < se_expires (sv_store s' ! i) \<and>
          (e \<in> {Session, Job_it, Log_it} \<or> ht_CSRF r = se_csrf (sv_store s ! i)))) \<and>
       (e \<in> {Session, Job_it, Log_it} \<or> has_prefix (ht_ContentType r) ''application/json'' \<and> ht_FetchSite r \<noteq> ''cross-site'' \<and>
          ht_Origin r \<in> {[], (if ht_TLS r then ''https'' else ''http'') @ ''://'' @ ht_Host r})"
proof (cases "admit clock r s")
  case (Pair a s')
  show ?thesis
  proof (cases a)
    case (Inr x)
    obtain e who where x: "x = (e, who)" by (cases x)
    from Pair Inr have f: "front r = None" "route r = Some e"
      and who: "e = Login \<or> (\<exists>i. who = Some i \<and> auth clock r s = (Inr i, s'))"
      by (auto simp: admit_def x split: option.splits sum.splits prod.splits if_splits)
    note m = route_method [OF f(2)] front_accepts [OF f(1)]
    show ?thesis
    proof (cases "e = Login")
      case True
      with m have "ht_Method r = ''POST''" by auto
      with m(2) show ?thesis by (simp add: Pair Inr x True)
    next
      case False
      with who obtain i where i: "who = Some i" "auth clock r s = (Inr i, s')" by blast
      note ok = auth_accepts [OF i(2)]
      have "e \<in> {Session, Job_it, Log_it} \<or> ht_Method r = ''POST''" using m(1) by blast
      with ok i(1) m(2) show ?thesis by (auto simp: Pair Inr x False)
    qed
  qed (simp add: Pair)
qed

end
