(* ===== verification/Tls_Certificate.thy ===== *)
theory Tls_Certificate
  imports Migration_Types Go_Sha256
begin

text \<open>
  The certificate of the web server (\<open>internal/web/tls.go\<close>): a key pair and a self-signed certificate that exist only in memory, and the
  fingerprint that is shown for it. Key generation, the random serial number, the list of the network interfaces and the encoding and signing
  of \<open>crypto/x509\<close> are the parameter \<open>crypto\<close>, on a world of any type; \<open>'k\<close> are private keys.
\<close>

section \<open>The template\<close>

datatype key_usage = KeyUsageDigitalSignature
datatype ext_key_usage = ExtKeyUsageServerAuth

text \<open>The fields that are set. A \<open>net.IP\<close> is its bytes.\<close>

record certificate_template =
  ct_SerialNumber :: int
  ct_CommonName :: string
  ct_NotBefore :: int
  ct_NotAfter :: int
  ct_KeyUsage :: key_usage
  ct_ExtKeyUsage :: "ext_key_usage list"
  ct_DNSNames :: "string list"
  ct_IPAddresses :: "string list"

text \<open>An address of an interface: \<open>*net.IPNet\<close>, or another \<open>net.Addr\<close>.\<close>

datatype net_addr = IPNet string | OtherAddr

record ('x, 'k) crypto =
  cr_GenerateKey :: "'x \<Rightarrow> 'k result \<times> 'x"
  cr_Int :: "int \<Rightarrow> 'x \<Rightarrow> int result \<times> 'x"
  cr_now :: "'x \<Rightarrow> int \<times> 'x"
  cr_InterfaceAddrs :: "'x \<Rightarrow> net_addr list \<times> 'x"
  cr_CreateCertificate :: "certificate_template \<Rightarrow> 'k \<Rightarrow> 'x \<Rightarrow> string result \<times> 'x"

text \<open>\<open>net.ParseIP\<close> of the two loopback addresses: 16 bytes, an IPv4 address with its prefix.\<close>

definition loopback_IPs :: "string list" where
  "loopback_IPs = [replicate 10 nul @ [CHR 0xFF, CHR 0xFF, CHR 0x7F, nul, nul, CHR 0x01], replicate 15 nul @ [CHR 0x01]]"

definition interface_IPs :: "net_addr list \<Rightarrow> string list" where
  "interface_IPs addrs = concat (map (\<lambda>a. case a of IPNet ip \<Rightarrow> [ip] | OtherAddr \<Rightarrow> []) addrs)"

definition certificate_for :: "int \<Rightarrow> int \<Rightarrow> int \<Rightarrow> net_addr list \<Rightarrow> certificate_template" where
  "certificate_for serial t t' addrs = \<lparr>ct_SerialNumber = serial, ct_CommonName = ''ESXi Mover ephemeral certificate'',
     ct_NotBefore = t - minute, ct_NotAfter = t' + 30 * 24 * hour, ct_KeyUsage = KeyUsageDigitalSignature,
     ct_ExtKeyUsage = [ExtKeyUsageServerAuth], ct_DNSNames = [''localhost''], ct_IPAddresses = loopback_IPs @ interface_IPs addrs\<rparr>"

section \<open>The certificate\<close>

record 'k tls_certificate =
  tc_Certificate :: "string list"
  tc_PrivateKey :: 'k

definition EphemeralTLS :: "('x, 'k) crypto \<Rightarrow> 'x \<Rightarrow> ('k tls_certificate \<times> string) result \<times> 'x" where
  "EphemeralTLS cy x =
     (case cr_GenerateKey cy x of (Inl e, x1) \<Rightarrow> (Inl e, x1) | (Inr key, x1) \<Rightarrow>
     (case cr_Int cy (2 ^ 128) x1 of (Inl e, x2) \<Rightarrow> (Inl e, x2) | (Inr serial, x2) \<Rightarrow>
     (case cr_now cy x2 of (t, x3) \<Rightarrow>
     (case cr_now cy x3 of (t', x4) \<Rightarrow>
     (case cr_InterfaceAddrs cy x4 of (addrs, x5) \<Rightarrow>
     (case cr_CreateCertificate cy (certificate_for serial t t' addrs) key x5 of
        (Inl e, x6) \<Rightarrow> (Inl e, x6)
      | (Inr der, x6) \<Rightarrow> (Inr (\<lparr>tc_Certificate = [der], tc_PrivateKey = key\<rparr>, sha256_hex der), x6)))))))"

text \<open>The fingerprint is that of the one certificate that is served.\<close>

lemma ephemeral_fingerprint:
  assumes "EphemeralTLS cy x = (Inr (cert, fp), x')"
  shows "\<exists>der. tc_Certificate cert = [der] \<and> fp = sha256_hex der"
  using assms by (auto simp: EphemeralTLS_def split: prod.splits sum.splits)

text \<open>What is signed: for server authentication only, for this machine's own names and addresses, for at most 30 days after it was made.\<close>

lemma certificate_scope:
  "ct_ExtKeyUsage (certificate_for serial t t' addrs) = [ExtKeyUsageServerAuth]"
  "t \<le> t' \<Longrightarrow> ct_NotBefore (certificate_for serial t t' addrs) < t \<and> ct_NotAfter (certificate_for serial t t' addrs) - t' = 30 * 24 * hour"
  "ip \<in> set (ct_IPAddresses (certificate_for serial t t' addrs)) \<longleftrightarrow> ip \<in> set loopback_IPs \<or> IPNet ip \<in> set addrs"
  by (auto simp: certificate_for_def interface_IPs_def minute_def second_def split: net_addr.splits)

end
