(* ===== verification/Program.thy ===== *)
theory Program
  imports Web_Safety Live Tls_Certificate
begin

text \<open>
  The program's entry (\<open>cmd/esxi-mover/main.go\<close>): its flags and settings, the admin token, and the server that they make, until it ends; and
  the IDs that the program draws (\<open>NewID\<close> in \<open>internal/migration/types.go\<close>), which are its sessions, jobs and snapshots.
\<close>

section \<open>IDs\<close>

text \<open>\<open>encoding/hex\<close>, and \<open>NewID\<close> for the 16 bytes that were drawn.\<close>

definition hex_encode :: "string \<Rightarrow> string" where
  "hex_encode s = concat (map (\<lambda>c. [hex_lower (byte c div 16), hex_lower (byte c mod 16)]) s)"

definition NewID :: "string \<Rightarrow> string" where
  "NewID b = hex_encode b"

lemma lower_hex_digit: "n < 16 \<Longrightarrow> lower_hex (hex_lower n)"
  by (auto simp: lower_hex_def hex_lower_def is_digit_def between_def)

lemma length_hex: "length (hex_encode s) = 2 * length s"
  by (induction s) (simp_all add: hex_encode_def)

lemma lower_hex_encode: "list_all lower_hex (hex_encode s)"
proof (induction s)
  case (Cons c s)
  have "byte c div 16 < 16" by (simp add: byte_def less_mult_imp_div_less)
  with Cons show ?case by (simp add: hex_encode_def lower_hex_digit)
qed (simp add: hex_encode_def)

section \<open>The settings\<close>

text \<open>The token that signs in, and what is shown of it.\<close>

definition adminToken :: "string \<Rightarrow> string \<Rightarrow> string \<Rightarrow> string \<times> string" where
  "adminToken supplied b1 b2 =
     (if supplied = [] then (let t = NewID b1 @ NewID b2 in (t, t)) else (supplied, ''(set from MOVER_ADMIN_TOKEN)''))"

definition banner :: "string \<Rightarrow> string \<Rightarrow> string \<Rightarrow> string" where
  "banner listen shown fp =
     (let (h, port) = (case split_host_port listen of None \<Rightarrow> ([], []) | Some hp \<Rightarrow> hp);
          host = (if h = [] then ''<appliance-ip>'' else h)
      in ''ESXi Mover admin token: '' @ shown @ [nl] @ ''HTTPS certificate SHA256: '' @ fp @ [nl] @ ''Open https://'' @ join_host_port host port @ [nl] @
         ''Credentials and application state stay in RAM. Source VM files are never deleted.'' @ [nl])"

record settings =
  st_listen :: string
  st_applianceUUID :: string
  st_token :: string

text \<open>What is printed, and the server behind the handler, from the settings, the certificate's fingerprint and the bytes drawn.\<close>

definition appliance :: "settings \<Rightarrow> string \<Rightarrow> string \<Rightarrow> string \<Rightarrow> string \<times> server" where
  "appliance cfg fp b1 b2 =
     (let (token, shown) = adminToken (st_token cfg) b1 b2 in
      (banner (st_listen cfg) shown fp, New token (DefaultOptions\<lparr>op_ApplianceUUID := st_applianceUUID cfg\<rparr>)))"

text \<open>The flags, where they are given, and the environment.\<close>

definition flags :: "string option \<Rightarrow> string option \<Rightarrow> string \<Rightarrow> string \<Rightarrow> settings" where
  "flags listen uuid env_uuid env_token = \<lparr>st_listen = (case listen of Some v \<Rightarrow> v | None \<Rightarrow> '':8443''),
     st_applianceUUID = (case uuid of Some v \<Rightarrow> v | None \<Rightarrow> env_uuid), st_token = env_token\<rparr>"

text \<open>\<open>http.Server\<close> with its limits, and what \<open>ListenAndServeTLS\<close> returns when it ends.\<close>

datatype tls_version = VersionTLS12

record 'k http_server =
  hs_Addr :: string
  hs_Handler :: server
  hs_ReadHeaderTimeout :: int
  hs_ReadTimeout :: int
  hs_WriteTimeout :: int
  hs_IdleTimeout :: int
  hs_MaxHeaderBytes :: int
  hs_MinVersion :: tls_version
  hs_Certificates :: "'k tls_certificate list"

definition https_server :: "string \<Rightarrow> server \<Rightarrow> 'k tls_certificate \<Rightarrow> 'k http_server" where
  "https_server listen srv cert = \<lparr>hs_Addr = listen, hs_Handler = srv, hs_ReadHeaderTimeout = 10 * second, hs_ReadTimeout = 30 * second,
     hs_WriteTimeout = 15 * minute, hs_IdleTimeout = 60 * second, hs_MaxHeaderBytes = 16 * 1024, hs_MinVersion = VersionTLS12,
     hs_Certificates = [cert]\<rparr>"

datatype serve_end = NoError | ErrServerClosed | ServeError err

text \<open>The program: what it printed, the server that ran, and the message it died with.\<close>

record 'k run_of_main =
  rm_Printed :: string
  rm_Served :: "'k http_server option"
  rm_Fatal :: "string option"

definition main :: "('x, 'k) crypto \<Rightarrow> ('k http_server \<Rightarrow> 'x \<Rightarrow> serve_end \<times> 'x) \<Rightarrow> settings \<Rightarrow> string \<Rightarrow> string \<Rightarrow> 'x \<Rightarrow> 'k run_of_main \<times> 'x" where
  "main cy listen_and_serve cfg b1 b2 x =
     (case EphemeralTLS cy x of
        (Inl e, x1) \<Rightarrow> (\<lparr>rm_Printed = [], rm_Served = None, rm_Fatal = Some ''Cannot create ephemeral TLS certificate''\<rparr>, x1)
      | (Inr (cert, fp), x1) \<Rightarrow>
          (let (printed, srv) = appliance cfg fp b1 b2; hs = https_server (st_listen cfg) srv cert in
           (case listen_and_serve hs x1 of (ended, x2) \<Rightarrow>
             (\<lparr>rm_Printed = printed, rm_Served = Some hs,
                rm_Fatal = (case ended of ServeError e \<Rightarrow> Some (err_text e) | _ \<Rightarrow> None)\<rparr>, x2))))"

text \<open>The fingerprint that is printed is the one of the only certificate that the server has.\<close>

lemma printed_fingerprint:
  assumes "main cy listen_and_serve cfg b1 b2 x = (r, x')" and "rm_Served r = Some hs"
  shows "\<exists>cert der. hs_Certificates hs = [cert] \<and> tc_Certificate cert = [der] \<and>
    rm_Printed r = banner (st_listen cfg) (snd (adminToken (st_token cfg) b1 b2)) (sha256_hex der) \<and>
    sv_token (hs_Handler hs) = fst (adminToken (st_token cfg) b1 b2)"
  using assms
  by (auto simp: main_def appliance_def https_server_def Let_def New_def split: prod.splits sum.splits dest!: ephemeral_fingerprint)

text \<open>A token that the operator chose is not printed: the banner does not depend on it.\<close>

lemma token_not_echoed:
  assumes "st_token cfg \<noteq> []"
  shows "fst (appliance cfg fp b1 b2) = fst (appliance (cfg\<lparr>st_token := ''x''\<rparr>) fp b1 b2)"
  using assms by (simp add: appliance_def adminToken_def)

section \<open>The IDs are accepted\<close>

text \<open>
  the client never refuses one of the program's own IDs. An ID drawn by \<open>NewID\<close> is a job ID as the client's guards want it, the
  snapshot that a live migration names after it is one of the tool's own, and the lock text that starts with it is one that
  \<open>Finish\<close> and \<open>StartClone\<close> recognise; and the admin token made of two IDs has 64 characters.
\<close>

theorem ids_accepted:
  assumes "length b = 16"
  shows "jobIDPattern (NewID b) \<and> ownSnapshot (liveSnapshot (NewID b)) \<and> owns_lock (Inr (''job='' @ NewID b @ [nl] @ m)) (NewID b) \<and>
    length (fst (adminToken [] b b)) = 64"
proof -
  have len: "length (NewID b) = 32" using assms by (simp add: NewID_def length_hex)
  have hex: "list_all lower_hex (NewID b)" unfolding NewID_def by (rule lower_hex_encode)
  have "list_all lower_hex (take 8 (NewID b))" using hex by (simp add: list_all_iff) (meson in_set_takeD)
  then have "ownSnapshot (liveSnapshot (NewID b))"
    using len by (simp add: ownSnapshot_def liveSnapshot_def)
  moreover have "owns_lock (Inr (''job='' @ NewID b @ [nl] @ m)) (NewID b)"
    using has_prefix_append [of "''job='' @ NewID b @ [nl]" m] by (simp add: owns_lock_def)
  ultimately show ?thesis using len hex by (simp add: jobIDPattern_def adminToken_def Let_def)
qed

lemma ids_accepted_witness:
  "jobIDPattern (NewID ''0123456789abcdef'') \<and> ownSnapshot (liveSnapshot (NewID ''0123456789abcdef'')) \<and>
     owns_lock (Inr (''job='' @ NewID ''0123456789abcdef'' @ [nl] @ ''source=x'')) (NewID ''0123456789abcdef'') \<and>
     length (fst (adminToken [] ''0123456789abcdef'' ''0123456789abcdef'')) = 64"
  by (rule ids_accepted) simp

end
