(* ===== verification/Phase_Machine.thy ===== *)
theory Phase_Machine
  imports Host
begin

text \<open>
  The phases of a job as an abstract machine (\<open>Phase\<close> in \<open>internal/migration/state.go\<close>): which phase may follow which in a cold and in a
  live migration, and which calls of the host belong to which phase. It is a specification: the theory on phase safety shows that the engine
  implements it.
\<close>

section \<open>The machine\<close>

text \<open>A phase in which the migration is over.\<close>

definition over :: "Phase \<Rightarrow> bool" where
  "over p = (p \<in> {PhaseCompleted, PhaseFailed, PhaseStopped, PhaseRolledBack})"

text \<open>
  The next phases while all goes well, or a connection breaks. A live migration of a VM without disks would go from the snapshot to the
  cutover at once; a cold one has been analyzed once more, and has disks.
\<close>

fun onward :: "bool \<Rightarrow> Phase \<Rightarrow> Phase set" where
  "onward alive PhaseQueued = {PhasePreflight}"
| "onward alive PhasePreflight = (if alive then {PhaseSnapshot} else {PhaseShutdown, PhaseCloning})"
| "onward alive PhaseSnapshot = (if alive then {PhaseCloning, PhaseCutover} else {})"
| "onward alive PhaseShutdown = {PhaseAwaitingShutdown, if alive then PhaseCutover else PhaseCloning}"
| "onward alive PhaseAwaitingShutdown = {PhaseShutdown}"
| "onward alive PhaseCloning = {PhaseReconnecting, PhaseVerifyingDisk, PhaseUnknown}"
| "onward alive PhaseReconnecting = {PhaseCloning, PhaseUnknown}"
| "onward alive PhaseVerifyingDisk = {PhaseCloning, if alive then PhaseCutover else PhaseVerifyingConfig}"
| "onward alive PhaseCutover = (if alive then {PhaseShutdown, PhaseVerifyingConfig} else {})"
| "onward alive PhaseVerifyingConfig = {PhaseCommit, if alive then PhaseConsolidating else PhaseCompleted}"
| "onward alive PhaseCommit = {PhasePowerOn, if alive then PhaseConsolidating else PhaseCompleted}"
| "onward alive PhasePowerOn = {if alive then PhaseConsolidating else PhaseCompleted}"
| "onward alive PhaseConsolidating = (if alive then {PhaseCompleted} else {})"
| "onward alive _ = {}"

text \<open>
  The phases of a live migration in which a problem leads to the restoring of the source: after the snapshot, and before the target was
  powered on, but not while a clone may be running.
\<close>

definition restorable :: "Phase \<Rightarrow> bool" where
  "restorable p = (p \<in> {PhaseSnapshot, PhaseCloning, PhaseVerifyingDisk, PhaseCutover, PhaseShutdown, PhaseAwaitingShutdown,
     PhaseVerifyingConfig, PhaseCommit, PhaseConsolidating})"

text \<open>
  One step. Every phase that is not over may end with the error of the step that failed: as failed, a cold migration that the operator stopped
  as stopped, and a live one whose source was restored as rolled back.
\<close>

inductive phase_step :: "bool \<Rightarrow> Phase \<Rightarrow> Phase \<Rightarrow> bool" for alive where
  onward: "q \<in> onward alive p \<Longrightarrow> phase_step alive p q"
| restore: "alive \<Longrightarrow> restorable p \<Longrightarrow> phase_step alive p PhaseRestoring"
| fails: "\<not> over p \<Longrightarrow> phase_step alive p PhaseFailed"
| stops: "\<not> alive \<Longrightarrow> \<not> over p \<Longrightarrow> phase_step alive p PhaseStopped"
| rolls_back: "alive \<Longrightarrow> \<not> over p \<Longrightarrow> phase_step alive p PhaseRolledBack"

inductive_cases phase_stepE: "phase_step alive p q"

inductive phase_path :: "bool \<Rightarrow> Phase \<Rightarrow> Phase \<Rightarrow> bool" for alive where
  here: "phase_path alive p p"
| more: "phase_path alive p q \<Longrightarrow> phase_step alive q z \<Longrightarrow> phase_path alive p z"

lemma path_step: "phase_step alive p q \<Longrightarrow> phase_path alive p q"
  by (rule more [OF here])

lemma path_trans: "phase_path alive q z \<Longrightarrow> phase_path alive p q \<Longrightarrow> phase_path alive p z"
  by (induction rule: phase_path.induct) (auto intro: more)

text \<open>What is over stays so.\<close>

lemma over_no_step: "over p \<Longrightarrow> \<not> phase_step alive p q"
  by (auto simp: over_def restorable_def elim!: phase_stepE)

lemma over_stays: "phase_path alive p q \<Longrightarrow> over p \<Longrightarrow> q = p"
  by (induction rule: phase_path.induct) (auto dest: over_no_step)

section \<open>No way back\<close>

text \<open>
  The stages of a migration: phases that can follow each other in both directions are in one stage.
\<close>

fun stage :: "bool \<Rightarrow> Phase \<Rightarrow> nat" where
  "stage alive PhaseQueued = 0"
| "stage alive PhasePreflight = 1"
| "stage alive PhaseSnapshot = 2"
| "stage alive PhaseCloning = 3"
| "stage alive PhaseReconnecting = 3"
| "stage alive PhaseVerifyingDisk = 3"
| "stage alive PhaseUnknown = 4"
| "stage alive PhaseCutover = 4"
| "stage alive PhaseShutdown = (if alive then 4 else 2)"
| "stage alive PhaseAwaitingShutdown = (if alive then 4 else 2)"
| "stage alive PhaseVerifyingConfig = 5"
| "stage alive PhaseCommit = 6"
| "stage alive PhasePowerOn = 7"
| "stage alive PhaseConsolidating = 8"
| "stage alive PhaseRestoring = 9"
| "stage alive PhaseCompleted = 10"
| "stage alive PhaseFailed = 10"
| "stage alive PhaseStopped = 10"
| "stage alive PhaseRolledBack = 10"

lemma stage_step: "phase_step alive p q \<Longrightarrow> stage alive p \<le> stage alive q"
  by (erule phase_stepE; cases p) (auto simp: over_def restorable_def split: if_splits)

lemma stage_path: "phase_path alive p q \<Longrightarrow> stage alive p \<le> stage alive q"
  by (induction rule: phase_path.induct) (auto dest: stage_step)

section \<open>What belongs to a phase\<close>

text \<open>
  The calls that change something, each in the phases that say so. The lock is archived at the end, and in a cold migration wherever the
  operator's stop was found.
\<close>

fun fits :: "bool \<Rightarrow> Phase \<Rightarrow> call \<Rightarrow> bool" where
  "fits alive p (DidAcquire i x r) = (p = PhasePreflight)"
| "fits alive p (DidCreateSnapshot i n r) = (alive \<and> p = PhaseSnapshot)"
| "fits alive p (DidCreateTarget d r) = (if alive then p = PhaseSnapshot else p \<in> {PhasePreflight, PhaseShutdown})"
| "fits alive p (DidShutdown i r) = (p = PhaseShutdown)"
| "fits alive p (DidForceOff i r) = (p = PhaseAwaitingShutdown)"
| "fits alive p (Taken a) = (p = PhaseAwaitingShutdown)"
| "fits alive p (DidStartClone i k vm a b off r) = (p = PhaseCloning)"
| "fits alive p (DidStopClone i r) = (p \<in> {PhaseCloning, PhaseReconnecting})"
| "fits alive p (DidCopyToTarget f d r) = (alive \<and> p = PhaseCutover)"
| "fits alive p (DidWriteTarget d n x r) = (p = PhaseVerifyingConfig \<or> alive \<and> p = PhaseCutover)"
| "fits alive p (DidUnregister i r) = (p = PhaseCommit \<or> alive \<and> p \<in> {PhaseConsolidating, PhaseRestoring})"
| "fits alive p (DidRegister x r) = (p = PhaseCommit \<or> alive \<and> p \<in> {PhaseConsolidating, PhaseRestoring})"
| "fits alive p (DidPowerOn i r) = (p = PhasePowerOn)"
| "fits alive p (DidAnswer i m a r) = (p = PhasePowerOn)"
| "fits alive p (DidConsolidate i n r) = (alive \<and> p \<in> {PhaseConsolidating, PhaseRestoring})"
| "fits alive p (DidFinish i r) = (if alive then p \<in> {PhaseConsolidating, PhaseRestoring} else \<not> over p)"
| "fits alive p c = True"

lemma fits_read: "is_read c \<Longrightarrow> fits alive p c"
  and fits_operator: "is_operator c \<Longrightarrow> fits alive p c"
  by (cases c; simp)+

text \<open>What a stop could not leave behind: such a call belongs to no phase in which the operator can stop the migration.\<close>

fun irrevocable :: "call \<Rightarrow> bool" where
  "irrevocable (DidUnregister i r) = True"
| "irrevocable (DidRegister x r) = True"
| "irrevocable (DidPowerOn i r) = True"
| "irrevocable (DidAnswer i m a r) = True"
| "irrevocable (DidWriteTarget d n x r) = True"
| "irrevocable (DidCopyToTarget f d r) = True"
| "irrevocable (DidConsolidate i n r) = True"
| "irrevocable c = False"

lemma stoppable_harmless: "fits alive p c \<Longrightarrow> \<not> (irrevocable c \<and> stoppable p)"
  by (cases c) (auto simp: stoppable_def)

end
