(* ===== verification/Phase_Rules.thy ===== *)
theory Phase_Rules
  imports Engine_Laws Phase_Machine
begin

text \<open>
  The logic in which the engine is shown to implement the phase machine. \<open>moves alive P m Q E\<close>: from a state on course in one of the phases
  \<open>P\<close>, the code \<open>m\<close> ends on course, in one of \<open>Q x\<close> with the value \<open>x\<close>, or in one of \<open>E\<close> with an error or without fuel. \<open>rests\<close> is the
  case of code that does not leave its phase.
\<close>

section \<open>On course\<close>

definition phase_of :: "'w st \<Rightarrow> Phase" where
  "phase_of s = js_Phase (jb_state (s_job s))"

text \<open>The phases of a job at its calls and now, newest first.\<close>

definition phases :: "'w st \<Rightarrow> Phase list" where
  "phases s = phase_of s # map (\<lambda>(st, c). js_Phase st) (s_trace s) @ [PhaseQueued]"

definition on_course :: "bool \<Rightarrow> 'w st \<Rightarrow> bool" where
  "on_course alive s = (sorted_wrt (\<lambda>newer older. phase_path alive older newer) (phases s) \<and>
     list_all (\<lambda>(st, c). fits alive (js_Phase st) c) (s_trace s))"

definition at :: "bool \<Rightarrow> Phase set \<Rightarrow> 'w st \<Rightarrow> bool" where
  "at alive P s = (on_course alive s \<and> phase_of s \<in> P)"

lemma at_sub: "at alive P s \<Longrightarrow> P \<subseteq> Q \<Longrightarrow> at alive Q s"
  by (auto simp: at_def)

lemma on_course_move:
  assumes "on_course alive s" and "s_trace s' = s_trace s" and "phase_path alive (phase_of s) (phase_of s')"
  shows "on_course alive s'"
  using assms by (auto simp: on_course_def phases_def intro: path_trans here)

lemma on_course_call: "on_course alive s \<Longrightarrow> fits alive (phase_of s) c \<Longrightarrow> on_course alive (noted c s)"
  by (auto simp: on_course_def phases_def noted_def phase_of_def here)

lemma at_same: "at alive P s \<Longrightarrow> s_trace s' = s_trace s \<Longrightarrow> phase_of s' = phase_of s \<Longrightarrow> at alive P s'"
  unfolding at_def using on_course_move [of alive s s'] here by metis

lemma at_moved:
  assumes "at alive P s" and "s_trace s' = s_trace s" and "phase_of s' = q" and "\<And>p. p \<in> P \<Longrightarrow> phase_path alive p q"
  shows "at alive {q} s'"
  using assms by (auto simp: at_def intro: on_course_move)

lemma at_noted: "at alive P s \<Longrightarrow> (\<And>p. p \<in> P \<Longrightarrow> fits alive p c) \<Longrightarrow> at alive P (noted c s)"
  unfolding at_def by (auto intro: on_course_call) (simp add: phase_of_def noted_def)

lemma at_after: "at alive P s \<Longrightarrow> \<forall>c \<in> set new. is_read c \<Longrightarrow> at alive P (after s w new)"
proof (induction new)
  case Nil
  then show ?case by (auto intro: at_same simp: phase_of_def after_def)
next
  case (Cons c new)
  have "after s w (c # new) = noted c (after s w new)" by (simp add: noted_def after_def)
  with Cons show ?case by (auto intro: at_noted fits_read)
qed

lemma at_serve: "at alive P s \<Longrightarrow> at alive P (serve x s)"
proof -
  assume a: "at alive P s"
  have n: "at alive P (noted c t)" if "is_operator c" "s_trace t = s_trace s" "phase_of t = phase_of s" for c t
    using a that by (auto intro!: at_noted intro: at_same fits_operator)
  show ?thesis
    by (cases x) (auto intro!: n simp: a Let_def phase_of_def requestStop_def control_send_def try_send_def split: prod.split option.split)
qed

lemma at_world: "at alive P s \<Longrightarrow> at alive P (s\<lparr>s_world := w\<rparr>)"
  by (erule at_same) (simp_all add: phase_of_def)

lemma at_served: "at alive P s \<Longrightarrow> at alive P (fold serve xs s)"
  by (induction xs arbitrary: s) (simp_all add: at_serve)

section \<open>Moving and staying\<close>

definition moves :: "bool \<Rightarrow> Phase set \<Rightarrow> ('w, 'a) M \<Rightarrow> ('a \<Rightarrow> Phase set) \<Rightarrow> Phase set \<Rightarrow> bool" where
  "moves alive P m Q E = hoare (at alive P) m (\<lambda>x. at alive (Q x)) (\<lambda>_. at alive E)"

definition rests :: "bool \<Rightarrow> Phase set \<Rightarrow> ('w, 'a) M \<Rightarrow> Phase set \<Rightarrow> bool" where
  "rests alive P m E = moves alive P m (\<lambda>_. P) E"

lemma moves_conseq:
  "moves alive P m Q E \<Longrightarrow> P' \<subseteq> P \<Longrightarrow> (\<And>x. Q x \<subseteq> Q' x) \<Longrightarrow> E \<subseteq> E' \<Longrightarrow> moves alive P' m Q' E'"
  unfolding moves_def by (erule hoare_conseq) (auto intro: at_sub)

lemma moves_bind: "moves alive P m R E \<Longrightarrow> (\<And>x. moves alive (R x) (f x) Q E) \<Longrightarrow> moves alive P (bind m f) Q E"
  unfolding moves_def by (rule hoare_bind)

lemma moves_seq: "moves alive P m R E \<Longrightarrow> moves alive (R ()) k Q E \<Longrightarrow> moves alive P (seq m k) Q E"
  unfolding seq_def by (rule moves_bind) simp_all

lemma moves_ret: "P \<subseteq> Q x \<Longrightarrow> moves alive P (ret x) Q E"
  and moves_fail: "P \<subseteq> E \<Longrightarrow> moves alive P (fail c) Q E"
  and moves_throw: "P \<subseteq> E \<Longrightarrow> moves alive P (throw er) Q E"
  unfolding moves_def
  by (rule hoare_ret, erule (1) at_sub) (rule hoare_fail, erule (1) at_sub, rule hoare_throw, erule (1) at_sub)

lemma moves_attempt:
  "moves alive P m Q E \<Longrightarrow> moves alive P (attempt m) (\<lambda>r. case r of Inl _ \<Rightarrow> E | Inr x \<Rightarrow> Q x) E"
  unfolding moves_def by (rule hoare_attempt, erule hoare_conseq) (auto split: exn.split)

lemma moves_attempt_within:
  "moves alive P m Q E' \<Longrightarrow> E' \<subseteq> E \<Longrightarrow> moves alive P (attempt m) (\<lambda>r. case r of Inl _ \<Rightarrow> E' | Inr x \<Rightarrow> Q x) E"
  by (drule moves_attempt, erule moves_conseq) simp_all

lemma moves_if: "(b \<Longrightarrow> moves alive P m Q E) \<Longrightarrow> (\<not> b \<Longrightarrow> moves alive P k Q E) \<Longrightarrow> moves alive P (if b then m else k) Q E"
  by simp

lemma moves_option:
  "(x = None \<Longrightarrow> moves alive P m Q E) \<Longrightarrow> (\<And>y. x = Some y \<Longrightarrow> moves alive P (f y) Q E) \<Longrightarrow>
    moves alive P (case x of None \<Rightarrow> m | Some y \<Rightarrow> f y) Q E"
  by (cases x) simp_all

lemma moves_sum:
  "(\<And>er. x = Inl er \<Longrightarrow> moves alive P (g er) Q E) \<Longrightarrow> (\<And>y. x = Inr y \<Longrightarrow> moves alive P (f y) Q E) \<Longrightarrow>
    moves alive P (case x of Inl er \<Rightarrow> g er | Inr y \<Rightarrow> f y) Q E"
  by (cases x) simp_all

lemma moves_prod: "(\<And>a b. x = (a, b) \<Longrightarrow> moves alive P (f a b) Q E) \<Longrightarrow> moves alive P (case x of (a, b) \<Rightarrow> f a b) Q E"
  by (cases x) simp

lemma moves_nowhere: "moves alive {} m Q E"
  by (simp add: moves_def hoare_def at_def)

lemma moves_gives: "gives R m \<Longrightarrow> moves alive P m Q E \<Longrightarrow> (\<And>x. R x \<Longrightarrow> moves alive (Q x) (f x) Q' E) \<Longrightarrow> moves alive P (bind m f) Q' E"
proof -
  assume g: "gives R m" and m: "moves alive P m Q E" and f: "\<And>x. R x \<Longrightarrow> moves alive (Q x) (f x) Q' E"
  have "hoare (at alive P) m (\<lambda>x s. R x \<and> at alive (Q x) s) (\<lambda>_. at alive E)"
    using g m unfolding moves_def hoare_alt gives_def by blast
  then show ?thesis
    unfolding moves_def by (rule hoare_bind) (rule hoare_pure, use f in \<open>simp add: moves_def\<close>)
qed

text \<open>What stays leads on from the same phases.\<close>

lemma moves_rests: "rests alive P m E \<Longrightarrow> (\<And>x. P \<subseteq> Q x) \<Longrightarrow> moves alive P m Q E"
  unfolding rests_def by (erule moves_conseq) auto

lemma bind_rests: "rests alive P m E \<Longrightarrow> (\<And>x. moves alive P (f x) Q E) \<Longrightarrow> moves alive P (bind m f) Q E"
  unfolding rests_def by (rule moves_bind)

lemma seq_rests: "rests alive P m E \<Longrightarrow> moves alive P k Q E \<Longrightarrow> moves alive P (seq m k) Q E"
  unfolding seq_def by (rule bind_rests)

named_theorems rests_intros \<open>code that stays in its phase\<close>

lemma rests_quiet: "quiet is_read m \<Longrightarrow> P \<subseteq> E \<Longrightarrow> rests alive P m E"
  unfolding rests_def moves_def
  by (rule hoare_quiet) (auto intro: at_after at_sub)

lemma rests_call:
  fixes f :: "('a, 'b) act"
  shows "(\<And>p r. p \<in> P \<Longrightarrow> fits alive p (c r)) \<Longrightarrow> P \<subseteq> E \<Longrightarrow> rests alive P (call_host f c) E"
proof -
  assume f: "\<And>p r. p \<in> P \<Longrightarrow> fits alive p (c r)" and E: "P \<subseteq> E"
  have "at alive P (noted (c r) (s\<lparr>s_world := w\<rparr>))" if "at alive P s" for s :: "'a st" and r w
    using that by (intro at_noted at_world f)
  with E show ?thesis
    unfolding rests_def moves_def hoare_def call_host_def by (auto split: prod.split sum.split intro: at_sub [OF _ E])
qed

lemma rests_simple [rests_intros]:
  "rests alive P (ret x) E" "rests alive P (now h) E" "rests alive P (operator_turn h) E" "rests alive P j_plan E"
  "rests alive P (j_set_plan plan) E"
  by (auto simp: rests_def moves_def hoare_def ret_def now_def operator_turn_def j_plan_def j_set_plan_def on_job_def phase_of_def
      split: prod.split intro: at_world at_served at_same)

lemma rests_failing [rests_intros]:
  "P \<subseteq> E \<Longrightarrow> rests alive P (fail c) E" "P \<subseteq> E \<Longrightarrow> rests alive P (lift y) E" "P \<subseteq> E \<Longrightarrow> rests alive P (lift_opt z) E"
  "P \<subseteq> E \<Longrightarrow> rests alive P (require b c) E" "P \<subseteq> E \<Longrightarrow> rests alive P (pause h d) E"
  by (auto simp: rests_def moves_def hoare_def lift_def lift_opt_def require_def ret_def fail_def throw_def pause_def
      split: prod.split sum.split option.split intro: at_world at_sub)

lemma rests_attempt [rests_intros]: "rests alive P m P \<Longrightarrow> P \<subseteq> E \<Longrightarrow> rests alive P (attempt m) E"
  unfolding rests_def by (drule moves_attempt, erule moves_conseq) (auto split: sum.split)

lemma rests_bind [rests_intros]: "rests alive P m E \<Longrightarrow> (\<And>x. rests alive P (f x) E) \<Longrightarrow> rests alive P (bind m f) E"
  unfolding rests_def by (rule moves_bind)

lemma rests_seq [rests_intros]: "rests alive P m E \<Longrightarrow> rests alive P k E \<Longrightarrow> rests alive P (seq m k) E"
  by (simp add: seq_def rests_bind)

lemma rests_cases [rests_intros]:
  "(b \<Longrightarrow> rests alive P m E) \<Longrightarrow> (\<not> b \<Longrightarrow> rests alive P k E) \<Longrightarrow> rests alive P (if b then m else k) E"
  "(o1 = None \<Longrightarrow> rests alive P n E) \<Longrightarrow> (\<And>y. o1 = Some y \<Longrightarrow> rests alive P (g y) E) \<Longrightarrow> rests alive P (case o1 of None \<Rightarrow> n | Some y \<Rightarrow> g y) E"
  "(\<And>er. y1 = Inl er \<Longrightarrow> rests alive P (g1 er) E) \<Longrightarrow> (\<And>y. y1 = Inr y \<Longrightarrow> rests alive P (f1 y) E) \<Longrightarrow>
    rests alive P (case y1 of Inl er \<Rightarrow> g1 er | Inr y \<Rightarrow> f1 y) E"
  "(\<And>a b. z = (a, b) \<Longrightarrow> rests alive P (f2 a b) E) \<Longrightarrow> rests alive P (case z of (a, b) \<Rightarrow> f2 a b) E"
  by (simp_all split: option.split sum.split prod.split)

lemma rests_each [rests_intros]: "(\<And>x. x \<in> set xs \<Longrightarrow> rests alive P (f x) E) \<Longrightarrow> rests alive P (each f xs) E"
  by (induction xs) (simp_all add: rests_intros)

lemma rests_wrap [rests_intros]: "rests alive P m P \<Longrightarrow> P \<subseteq> E \<Longrightarrow> rests alive P (wrap_error t m) E"
  unfolding wrap_error_def by (intro rests_intros)

section \<open>The job's operations\<close>

lemma moves_on_job:
  assumes "\<And>j. js_Phase (jb_state j) \<in> P \<Longrightarrow> js_Phase (jb_state (snd (f j))) \<in> Q \<and>
      phase_path alive (js_Phase (jb_state j)) (js_Phase (jb_state (snd (f j))))"
  shows "moves alive P (on_job f) (\<lambda>_. Q) E"
  unfolding moves_def on_job_def
proof (rule hoareI)
  fix s x s'
  assume a: "at alive P s" and "(case f (s_job s) of (x, j) \<Rightarrow> (Inr x, s\<lparr>s_job := j\<rparr>)) = (Inr x, s')"
  then have s': "s' = s\<lparr>s_job := snd (f (s_job s))\<rparr>" by (auto simp: split_beta)
  from a assms [of "s_job s"] show "at alive Q s'"
    by (auto simp: at_def s' phase_of_def intro: on_course_move)
qed (simp add: split_beta)

lemma rests_on_job:
  assumes "\<And>j. js_Phase (jb_state (snd (f j))) = js_Phase (jb_state j)"
  shows "rests alive P (on_job f) E"
  unfolding rests_def moves_def on_job_def
proof (rule hoareI)
  fix s x s'
  assume "at alive P s" and "(case f (s_job s) of (x, j) \<Rightarrow> (Inr x, s\<lparr>s_job := j\<rparr>)) = (Inr x, s')"
  then show "at alive P s'"
    by (auto simp: split_beta phase_of_def assms elim!: at_same)
qed (simp add: split_beta)

text \<open>An update leads to the phase that it sets, or leaves the phase.\<close>

lemma moves_turn: "(\<And>t. moves alive P (k t) Q E) \<Longrightarrow> moves alive P (seq (operator_turn h) (bind (now h) k)) Q E"
  by (rule seq_rests [OF rests_simple(3)], rule bind_rests [OF rests_simple(2)])

lemma moves_update:
  assumes "\<And>st. js_Phase st \<in> P \<Longrightarrow> js_Phase (u st) \<in> Q \<and> phase_path alive (js_Phase st) (js_Phase (u st))"
  shows "moves alive P (j_update h u) (\<lambda>_. Q) E"
  unfolding j_update_def by (rule moves_turn, rule moves_on_job) (simp add: assms)

lemma moves_updates:
  assumes "\<And>p. p \<in> P \<Longrightarrow> phase_path alive p q"
  shows "(\<And>st. js_Phase (u st) = q) \<Longrightarrow> moves alive P (j_update h u) (\<lambda>_. {q}) E"
    and "(\<And>t st. js_Phase (v t st) = q) \<Longrightarrow> moves alive P (j_update_at h v) (\<lambda>_. {q}) E"
    and "(\<And>j. js_Phase (jb_state (g j)) = q) \<Longrightarrow> moves alive P (j_update_job h g) (\<lambda>_. {q}) E"
proof -
  show "moves alive P (j_update h u) (\<lambda>_. {q}) E" if "\<And>st. js_Phase (u st) = q"
    by (rule moves_update) (simp add: that assms)
  show "moves alive P (j_update_at h v) (\<lambda>_. {q}) E" if "\<And>t st. js_Phase (v t st) = q"
    unfolding j_update_at_def by (rule moves_turn, rule bind_rests [OF rests_simple(2)], rule moves_on_job) (simp add: that assms)
  show "moves alive P (j_update_job h g) (\<lambda>_. {q}) E" if "\<And>j. js_Phase (jb_state (g j)) = q"
    unfolding j_update_job_def by (rule moves_turn, rule moves_on_job) (simp add: that assms)
qed

lemma rests_updates [rests_intros]:
  "(\<And>st. js_Phase (u st) = js_Phase st) \<Longrightarrow> rests alive P (j_update h u) E"
  "(\<And>t st. js_Phase (v t st) = js_Phase st) \<Longrightarrow> rests alive P (j_update_at h v) E"
  "rests alive P (j_stopRequested h) E" "rests alive P (j_Snapshot h) E"
  unfolding j_update_def j_update_at_def j_stopRequested_def j_Snapshot_def
  by (intro rests_intros rests_on_job; simp)+

definition goes :: "bool \<Rightarrow> Phase set \<Rightarrow> Phase \<Rightarrow> bool" where
  "goes alive P q = (\<forall>p \<in> P. p = q \<or> q \<in> onward alive p \<or> alive \<and> restorable p \<and> q = PhaseRestoring)"

lemma goes_path: "goes alive P q \<Longrightarrow> p \<in> P \<Longrightarrow> phase_path alive p q"
  unfolding goes_def by (drule (1) bspec) (auto intro: here path_step onward restore)

lemma seq_phase: "goes alive P q \<Longrightarrow> moves alive {q} k Q E \<Longrightarrow> moves alive P (seq (j_phase h q m) k) Q E"
  unfolding j_phase_def
  by (rule moves_seq [OF moves_updates(1)]) (simp_all add: goes_path set_phase_def)

lemma moves_phase: "goes alive P q \<Longrightarrow> moves alive P (j_phase h q m) (\<lambda>_. {q}) E"
  unfolding j_phase_def
  by (rule moves_updates(1)) (simp_all add: goes_path set_phase_def)

lemma seq_proceed:
  assumes "goes alive P q" and "P \<subseteq> E" and "moves alive {q} k Q E"
  shows "moves alive P (seq (j_proceed h q m) k) Q E"
proof -
  have "moves alive P (bind (on_job (proceed q m t)) lift_opt) (\<lambda>_. {q}) E" for t
    unfolding moves_def
  proof (rule hoareI)
    fix s x s'
    assume a: "at alive P s" and r: "bind (on_job (proceed q m t)) lift_opt s = (Inr x, s')"
    show "at alive {q} s'"
      by (rule at_moved [OF a, where q = q], use r in \<open>auto simp: bind_def on_job_def proceed_def lift_opt_def fail_def throw_def ret_def phase_of_def split: if_splits\<close>)
        (use assms(1) goes_path in blast)
  next
    fix s er s'
    assume a: "at alive P s" and r: "bind (on_job (proceed q m t)) lift_opt s = (Inl er, s')"
    then have "s' = s" by (auto simp: bind_def on_job_def proceed_def lift_opt_def fail_def throw_def ret_def split: if_splits)
    with a assms(2) show "at alive E s'" by (auto intro: at_sub)
  qed
  then have "moves alive P (j_proceed h q m) (\<lambda>_. {q}) E"
    unfolding j_proceed_def by (intro seq_rests [OF rests_simple(3)] bind_rests [OF rests_simple(2)])
  then show ?thesis using assms(3) by (rule moves_seq)
qed

section \<open>The calls\<close>

lemma rests_x [rests_intros]:
  "P \<subseteq> {PhasePreflight} \<Longrightarrow> P \<subseteq> E \<Longrightarrow> rests alive P (x_Acquire h k t) E"
  "alive \<Longrightarrow> P \<subseteq> {PhaseSnapshot} \<Longrightarrow> P \<subseteq> E \<Longrightarrow> rests alive P (x_CreateSnapshot h i t) E"
  "P \<subseteq> (if alive then {PhaseSnapshot} else {PhasePreflight, PhaseShutdown}) \<Longrightarrow> P \<subseteq> E \<Longrightarrow> rests alive P (x_CreateTarget h t) E"
  "P \<subseteq> {PhaseShutdown} \<Longrightarrow> P \<subseteq> E \<Longrightarrow> rests alive P (x_Shutdown h i) E"
  "P \<subseteq> {PhaseAwaitingShutdown} \<Longrightarrow> P \<subseteq> E \<Longrightarrow> rests alive P (x_ForceOff h i) E"
  "P \<subseteq> {PhaseCloning} \<Longrightarrow> P \<subseteq> E \<Longrightarrow> rests alive P (x_StartClone h k j i a t off) E"
  "P \<subseteq> {PhaseCloning, PhaseReconnecting} \<Longrightarrow> P \<subseteq> E \<Longrightarrow> rests alive P (x_StopClone h j) E"
  "alive \<Longrightarrow> P \<subseteq> {PhaseCutover} \<Longrightarrow> P \<subseteq> E \<Longrightarrow> rests alive P (x_CopyToTarget h a t) E"
  "P \<subseteq> (if alive then {PhaseVerifyingConfig, PhaseCutover} else {PhaseVerifyingConfig}) \<Longrightarrow> P \<subseteq> E \<Longrightarrow> rests alive P (x_WriteTarget h a t v) E"
  "P \<subseteq> (if alive then {PhaseCommit, PhaseConsolidating, PhaseRestoring} else {PhaseCommit}) \<Longrightarrow> P \<subseteq> E \<Longrightarrow> rests alive P (x_Unregister h i) E"
  "P \<subseteq> (if alive then {PhaseCommit, PhaseConsolidating, PhaseRestoring} else {PhaseCommit}) \<Longrightarrow> P \<subseteq> E \<Longrightarrow> rests alive P (x_Register h t) E"
  "P \<subseteq> {PhasePowerOn} \<Longrightarrow> P \<subseteq> E \<Longrightarrow> rests alive P (x_PowerOn h i) E"
  "P \<subseteq> {PhasePowerOn} \<Longrightarrow> P \<subseteq> E \<Longrightarrow> rests alive P (x_Answer h i a t) E"
  "alive \<Longrightarrow> P \<subseteq> {PhaseConsolidating, PhaseRestoring} \<Longrightarrow> P \<subseteq> E \<Longrightarrow> rests alive P (x_ConsolidateOwnSnapshot h i t) E"
  "(if alive then P \<subseteq> {PhaseConsolidating, PhaseRestoring} else \<forall>p \<in> P. \<not> over p) \<Longrightarrow> P \<subseteq> E \<Longrightarrow> rests alive P (x_Finish h k) E"
  unfolding x_defs by (rule rests_call; auto split: if_splits)+

lemmas rests_reads [rests_intros] = quiet_x [THEN rests_quiet] quiet_inspect [THEN rests_quiet] quiet_guard_cold [THEN rests_quiet]
  quiet_requireOff [THEN rests_quiet] quiet_registrations [THEN rests_quiet] quiet_ownSnapshotOnly [THEN rests_quiet]
  quiet_liveSourceFree [THEN rests_quiet] quiet_waited [THEN rests_quiet] quiet_recheck [THEN rests_quiet]
  quiet_liveDeltas [THEN rests_quiet] quiet_liveGuard [THEN rests_quiet] quiet_liveMetadata [THEN rests_quiet]
  quiet_checks [THEN rests_quiet] quiet_verify [THEN rests_quiet]

end
