(* ===== verification/Phase_Safety.thy ===== *)
theory Phase_Safety
  imports Phase_Rules Cold_Safety
begin

text \<open>
  The engine implements the phase machine: the phases that a run shows follow it, from the first to the last, and everything that a run does to
  the host, it does in a phase that says so. The operator's requests, the host's answers and broken connections make no difference.
\<close>

section \<open>Sets of phases\<close>

definition under_way :: "Phase set" where
  "under_way = {p. \<not> over p}"

definition undoable :: "Phase set" where
  "undoable = {p. restorable p}"

lemma in_under_way [simp]: "p \<in> under_way \<longleftrightarrow> \<not> over p"
  and in_undoable [simp]: "p \<in> undoable \<longleftrightarrow> restorable p"
  by (simp_all add: under_way_def undoable_def)

lemma phase_facts [simp]:
  "over PhaseCompleted" "over PhaseFailed" "over PhaseStopped" "over PhaseRolledBack"
  "\<not> over PhaseQueued" "\<not> over PhasePreflight" "\<not> over PhaseSnapshot" "\<not> over PhaseShutdown" "\<not> over PhaseAwaitingShutdown"
  "\<not> over PhaseCloning" "\<not> over PhaseReconnecting" "\<not> over PhaseVerifyingDisk" "\<not> over PhaseUnknown" "\<not> over PhaseCutover"
  "\<not> over PhaseVerifyingConfig" "\<not> over PhaseCommit" "\<not> over PhasePowerOn" "\<not> over PhaseConsolidating" "\<not> over PhaseRestoring"
  "restorable PhaseSnapshot" "restorable PhaseCloning" "restorable PhaseVerifyingDisk" "restorable PhaseCutover" "restorable PhaseShutdown"
  "restorable PhaseAwaitingShutdown" "restorable PhaseVerifyingConfig" "restorable PhaseCommit" "restorable PhaseConsolidating"
  by (simp_all add: over_def restorable_def)

text \<open>The rules, the ones for a change of the phase first.\<close>

lemmas course = seq_phase seq_proceed moves_if moves_option moves_sum moves_prod seq_rests bind_rests moves_fail moves_ret

section \<open>The shutdown\<close>

lemma rests_await [rests_intros]: "P \<subseteq> {PhaseAwaitingShutdown} \<Longrightarrow> P \<subseteq> E \<Longrightarrow> rests alive P (await_action n h) E"
proof -
  assume P: "P \<subseteq> {PhaseAwaitingShutdown}" and E: "P \<subseteq> E"
  have "case await_action n h s of (Inr x, s') \<Rightarrow> at alive P s' | (Inl er, s') \<Rightarrow> at alive E s'" if "at alive P s" for s
    using that
  proof (induction n arbitrary: s)
    case 0
    then show ?case by (auto intro: at_sub [OF _ E])
  next
    case (Suc n)
    obtain k w where k: "h_wake h (s_world s) = (k, w)" by (cases "h_wake h (s_world s)")
    from Suc.prems have w: "at alive P (s\<lparr>s_world := w\<rparr>)" by (rule at_world)
    show ?case
    proof (cases k)
      case (Cancelled c)
      with k w show ?thesis by (auto intro: at_sub [OF _ E])
    next
      case (Requests xs)
      let ?t = "fold serve xs (s\<lparr>s_world := w\<rparr>)"
      from w have t: "at alive P ?t" by (rule at_served)
      then have "at alive P (snd (take_action ?t))"
        using P by (auto simp: take_action_def phase_of_def split: option.split intro!: at_noted elim: at_same)
      with k Requests Suc.IH [of "snd (take_action ?t)"] show ?thesis
        by (cases "take_action ?t"; cases "fst (take_action ?t)") simp_all
    qed
  qed
  then show ?thesis by (simp add: rests_def moves_def hoare_def)
qed

lemma moves_shutdown_loop:
  assumes "quiet is_read revalidate" and "{PhaseShutdown, PhaseAwaitingShutdown} \<subseteq> E"
  shows "moves alive {PhaseShutdown} (shutdown_loop n e vm revalidate deadline) (\<lambda>_. {PhaseShutdown}) E"
proof (induction n arbitrary: deadline)
  case 0
  from assms(2) show ?case by (simp add: moves_throw)
next
  case (Suc n)
  show ?case
    unfolding shutdown_loop.simps Let_def
    by (intro course rests_intros Suc moves_rests [where m = "j_update h source_off" for h] rests_quiet [OF assms(1)];
      use assms(2) in \<open>simp add: goes_def source_off_def\<close>)
qed

lemma moves_shutdown:
  assumes "quiet is_read revalidate" and "P = (if alive then {PhaseCutover} else {PhasePreflight})"
    and "insert PhaseShutdown (insert PhaseAwaitingShutdown P) \<subseteq> E"
  shows "moves alive P (shutdown e r revalidate) (\<lambda>_. insert PhaseShutdown P) E"
  unfolding shutdown_def Let_def
proof (intro moves_if)
  show "moves alive P (j_update (eg_Host e) source_off) (\<lambda>_. insert PhaseShutdown P) E"
    by (rule moves_rests, rule rests_updates) (auto simp: source_off_def)
  have "moves alive {PhaseShutdown} (shutdown_loop n e vm revalidate deadline) (\<lambda>_. insert PhaseShutdown P) E" for n vm deadline
    using assms(3) by (intro moves_conseq [OF moves_shutdown_loop [OF assms(1)]]) auto
  then show "moves alive P (seq (require (rp_Power r = On) (Errorf ''unsupported source power state''))
      (seq (j_phase (eg_Host e) PhaseShutdown ''Requesting a graceful guest shutdown'')
      (seq (j_update_at (eg_Host e) (\<lambda>t s. case js_DownSince s of None \<Rightarrow> s\<lparr>js_DownSince := Some t\<rparr> | Some _ \<Rightarrow> s))
      (bind (attempt (x_Shutdown (eg_Host e) (vm_ID (rp_VM r)))) (\<lambda>answer. bind (now (eg_Host e)) (\<lambda>t.
        bind (if is_ok answer then ret (t + op_ShutdownTimeout (eg_Options e)) else now (eg_Host e))
          (shutdown_loop (eg_fuel e) e (vm_ID (rp_VM r)) revalidate))))))) (\<lambda>_. insert PhaseShutdown P) E"
    by (intro course rests_intros; use assms(2,3) in \<open>auto simp: goes_def split: option.split if_splits\<close>)
qed

section \<open>The wait for a clone\<close>

text \<open>The phases in which the wait for a clone ends: an exit that was seen leaves the job in the phase of the clone.\<close>

definition ended_in :: "Phase set \<Rightarrow> exit \<Rightarrow> Phase set" where
  "ended_in lost x = (if fst x then {PhaseCloning} else if snd x = None then {} else lost)"

lemma ended_in_simps [simp]:
  "ended_in lost (True, c) = {PhaseCloning}" "ended_in lost (False, Some er) = lost" "ended_in lost (False, None) = {}"
  by (simp_all add: ended_in_def)

abbreviation cloning :: "Phase set" where "cloning \<equiv> {PhaseCloning, PhaseReconnecting}"

lemma moves_show_clone:
  "moves alive cloning (j_update_job h (show_clone k status)) (\<lambda>_. {PhaseCloning}) E"
  by (rule moves_updates(3), rule goes_path [where P = cloning]) (auto simp: goes_def show_clone_def Let_def)

lemma gives_ended: "gives (\<lambda>x. fst x) (clone_done e status w)"
  unfolding clone_done_def Let_def by (intro gives_intros) simp_all

lemma moves_clone_done: "moves alive {PhaseCloning} (clone_done e status w) (ended_in lost) cloning"
  unfolding clone_done_def Let_def
  by (intro course rests_intros; simp)

lemma rests_watch_space [rests_intros]: "P \<subseteq> E \<Longrightarrow> rests alive P (watch_space e w) E"
  unfolding watch_space_def Let_def by (intro rests_intros) simp_all

lemma rests_stop_clone [rests_intros]: "P \<subseteq> cloning \<Longrightarrow> P \<subseteq> E \<Longrightarrow> rests alive P (stop_clone e k w) E"
  unfolding stop_clone_def Let_def by (intro rests_intros) simp_all

lemma moves_observe_clone:
  "moves alive cloning (observe_clone e k startErr since w) (\<lambda>seen. case seen of Inl x \<Rightarrow> ended_in cloning x | Inr w1 \<Rightarrow> cloning) cloning"
  unfolding observe_clone_def Let_def
  by (intro course moves_seq [OF moves_show_clone] moves_bind [OF moves_clone_done [where lost = cloning]] rests_intros; simp add: goes_def)

lemma moves_wait_loop: "moves alive cloning (wait_loop n e k startErr since deadline w) (ended_in cloning) cloning"
proof (induction n arbitrary: w)
  case 0
  show ?case by (simp add: moves_throw)
next
  case (Suc n)
  have seen: "moves alive (case seen of Inl x \<Rightarrow> ended_in cloning x | Inr w1 \<Rightarrow> cloning) (case seen of Inl x \<Rightarrow> ret x | Inr w1 \<Rightarrow> g w1) (ended_in cloning) cloning"
    if "\<And>w1. moves alive cloning (g w1) (ended_in cloning) cloning" for seen and g :: "Wait \<Rightarrow> ('a, exit) M"
    using that by (cases seen) (simp_all add: moves_ret)
  show ?case
    unfolding wait_loop.simps Let_def
    by (intro bind_rests [OF rests_simple(2)] moves_if moves_ret moves_bind [OF moves_observe_clone] seen bind_rests [OF rests_stop_clone]
        moves_sum bind_rests [OF rests_attempt] rests_failing Suc; simp)
qed

lemma moves_waitClone: "cloning \<subseteq> E \<Longrightarrow> moves alive cloning (waitClone e k startErr) (ended_in {PhaseUnknown}) E"
proof -
  assume E: "cloning \<subseteq> E"
  have told: "moves alive (ended_in cloning x) (seq (if snd x \<noteq> None \<and> \<not> fst x then j_phase h PhaseUnknown unknown_clone else ret ()) (ret x))
      (ended_in {PhaseUnknown}) E" for h :: "'a host" and x
  proof (cases "snd x \<noteq> None \<and> \<not> fst x")
    case True
    have "moves alive cloning (seq (j_phase h PhaseUnknown unknown_clone) (ret x)) (ended_in {PhaseUnknown}) E"
      by (rule seq_phase, simp add: goes_def, rule moves_ret) (use True in \<open>simp add: ended_in_def\<close>)
    with True show ?thesis by (auto simp: ended_in_def)
  next
    case False
    then have "seq (ret ()) (ret x) = (ret x :: ('a, exit) M)" "ended_in cloning x \<subseteq> ended_in {PhaseUnknown} x"
      by (auto simp: seq_def bind_def ret_def ended_in_def)
    with False show ?thesis by (simp add: moves_ret del: de_Morgan_conj)
  qed
  show ?thesis
    unfolding waitClone_def Let_def
    by (intro bind_rests [OF rests_simple(2)] moves_bind [OF moves_conseq [OF moves_wait_loop order_refl order_refl E]] told)
qed

lemma seq_waited:
  assumes "moves alive {PhaseCloning} k Q E" and "{PhaseCloning, PhaseUnknown} \<subseteq> E"
  shows "moves alive (ended_in {PhaseUnknown} x) (seq (waited x) k) Q E"
proof (cases "snd x")
  case None
  then have "ended_in {PhaseUnknown} x \<subseteq> {PhaseCloning}" by (simp add: ended_in_def)
  then have "moves alive (ended_in {PhaseUnknown} x) k Q E" by (rule moves_conseq [OF assms(1)]) simp_all
  with None show ?thesis unfolding waited_def lift_opt_def by (auto intro: seq_rests rests_simple)
next
  case (Some c)
  have "ended_in {PhaseUnknown} x \<subseteq> E" using assms(2) by (simp add: ended_in_def)
  then have "moves alive (ended_in {PhaseUnknown} x) (waited x) (\<lambda>_. {}) E"
    unfolding waited_def by (simp add: lift_opt_def Some moves_fail)
  then show ?thesis by (rule moves_seq) (rule moves_nowhere)
qed

section \<open>The switch\<close>

lemma rests_publish [rests_intros]: "rests alive P (publishRegistrations e a b) E"
  unfolding publishRegistrations_def by (rule rests_updates) (simp add: show_registrations_def Let_def)

lemma rests_commit_register: "{PhaseCommit} \<subseteq> E \<Longrightarrow> rests alive {PhaseCommit} (commit_register e r) E"
  unfolding commit_register_def Let_def by (intro rests_intros) simp_all

lemma moves_commit: "{PhaseVerifyingConfig, PhaseCommit} \<subseteq> E \<Longrightarrow> moves alive {PhaseVerifyingConfig} (commit e r) (\<lambda>_. {PhaseCommit}) E"
  unfolding commit_def Let_def
  by (intro course rests_intros moves_rests [OF rests_commit_register]; simp add: goes_def)

lemma rests_power_loop: "{PhasePowerOn} \<subseteq> E \<Longrightarrow> rests alive {PhasePowerOn} (power_loop n e vm deadline powerErr answered) E"
proof (induction n arbitrary: answered)
  case 0
  then show ?case by (simp add: rests_def moves_throw)
next
  case (Suc n)
  have down: "js_Phase (end_downtime t st) = js_Phase st" for t st
    by (simp add: end_downtime_def split: option.split)
  from Suc show ?case
    unfolding power_loop.simps Let_def by (intro rests_intros) (simp_all add: down)
qed

lemma moves_powerOn: "{PhaseCommit, PhasePowerOn} \<subseteq> E \<Longrightarrow> moves alive {PhaseCommit} (powerOn e) (\<lambda>_. {PhasePowerOn}) E"
  unfolding powerOn_def Let_def
  by (intro course rests_intros moves_rests [OF rests_power_loop]; simp add: goes_def)

lemma rests_copyConfig [rests_intros]:
  "P \<subseteq> (if alive then {PhaseVerifyingConfig, PhaseCutover} else {PhaseVerifyingConfig}) \<Longrightarrow> P \<subseteq> E \<Longrightarrow> rests alive P (copyConfig h r cfg names) E"
  unfolding copyConfig_def copy_file_def Let_def by (intro rests_intros) simp_all

section \<open>A cold migration\<close>

lemma moves_switch_registration:
  "moves False {PhaseVerifyingConfig} (switch_registration e r) (\<lambda>_. {PhaseVerifyingConfig, PhaseCommit, PhasePowerOn}) under_way"
  unfolding switch_registration_def
  by (intro moves_if moves_seq [OF moves_commit] moves_conseq [OF moves_powerOn [where E = under_way]] moves_ret; simp)

lemma moves_completed: "goes alive P PhaseCompleted \<Longrightarrow> moves alive P (j_update h (completed m)) (\<lambda>_. {PhaseCompleted}) E"
  by (rule moves_updates(1)) (auto simp: completed_def intro: goes_path)

lemma rests_archive [rests_intros]:
  "if alive then P \<subseteq> {PhaseConsolidating, PhaseRestoring} else \<forall>p \<in> P. \<not> over p \<Longrightarrow> P \<subseteq> E \<Longrightarrow> rests alive P (archive_lock e r) E"
  unfolding archive_lock_def by (intro rests_intros) simp_all

lemma moves_finish_cold: "moves False {PhaseVerifyingDisk} (finish_cold e r used) (\<lambda>_. {PhaseCompleted}) under_way"
  unfolding finish_cold_def Let_def
  by (intro course moves_completed moves_seq [OF moves_switch_registration] rests_intros; simp add: goes_def)

lemma moves_start_disk:
  "goes alive P PhaseCloning \<Longrightarrow> moves alive P (j_update_at h (start_disk m k d)) (\<lambda>_. {PhaseCloning}) E"
  by (rule moves_updates(2)) (auto simp: start_disk_def intro: goes_path)

lemma moves_launched:
  "moves alive {PhaseCloning} (if b then ret () else j_phase h PhaseReconnecting m) (\<lambda>_. cloning) E"
  by (rule moves_if, rule moves_ret, simp, rule moves_conseq [OF moves_phase [where P = "{PhaseCloning}" and E = E]])
    (simp_all add: goes_def)

lemma moves_clone_disk:
  "moves False {PhasePreflight, PhaseShutdown, PhaseVerifyingDisk} (clone_disk e r x used) (\<lambda>_. {PhaseVerifyingDisk}) under_way"
  unfolding clone_disk_def Let_def
  by (intro moves_seq [OF moves_start_disk] moves_seq [OF moves_launched] moves_bind [OF moves_waitClone] seq_waited course rests_intros;
    simp add: goes_def)

lemma moves_foldM:
  assumes "\<And>x a. moves alive P (f x a) (\<lambda>_. Q) E" and "Q \<subseteq> P" and "xs \<noteq> []"
  shows "moves alive P (foldM f xs a) (\<lambda>_. Q) E"
  using assms(3)
proof (induction xs arbitrary: a)
  case (Cons x xs)
  show ?case
  proof (cases "xs = []")
    case True
    then show ?thesis by (auto intro!: moves_bind [OF assms(1)] moves_ret)
  next
    case False
    from moves_conseq [OF Cons.IH [OF this] assms(2) order_refl order_refl] show ?thesis
      by (auto intro: moves_bind [OF assms(1)])
  qed
qed simp

lemma moves_clone_cold: "moves False {PhasePreflight, PhaseShutdown} (clone_cold e r) (\<lambda>_. {PhaseCompleted}) under_way"
proof -
  have disks: "enumerate 0 (rp_Disks fresh) \<noteq> []" if "guarded q fresh" for q fresh
    using that length_enumerate [of 0 "rp_Disks fresh"] by (auto simp: guarded_def reviewed_def simp del: length_enumerate)
  have all: "moves False {PhasePreflight, PhaseShutdown} (foldM (clone_disk e fresh) (enumerate 0 (rp_Disks fresh)) 0) (\<lambda>_. {PhaseVerifyingDisk}) under_way"
    if "guarded q fresh" for q fresh
    using disks [OF that] by (intro moves_conseq [OF moves_foldM [OF moves_clone_disk]]) auto
  have guard: "moves False {PhasePreflight, PhaseShutdown} (guard_cold e r False 0) (\<lambda>_. {PhasePreflight, PhaseShutdown}) under_way"
    by (rule moves_rests [OF rests_quiet [OF quiet_guard_cold]]) simp_all
  show ?thesis
    unfolding clone_cold_def Let_def
    by (rule moves_gives [OF guard_cold_guarded guard], rule seq_rests, rule rests_simple, rule seq_rests, rule rests_x(3), simp, simp,
        rule moves_bind [OF all moves_finish_cold])
qed

lemma moves_run_cold: "moves False {PhaseQueued} (run_cold e) (\<lambda>_. {PhaseCompleted}) under_way"
proof -
  have "moves False {PhasePreflight} (shutdown e fresh (recheck e r)) (\<lambda>_. {PhaseShutdown, PhasePreflight}) under_way" for fresh r
    by (rule moves_shutdown [OF quiet_recheck]) simp_all
  then have "moves False {PhasePreflight} (seq (shutdown e fresh (recheck e r)) (clone_cold e r)) (\<lambda>_. {PhaseCompleted}) under_way" for fresh r
    by (rule moves_seq) (rule moves_conseq [OF moves_clone_cold], auto)
  note down = this [unfolded recheck_def]
  show ?thesis
    unfolding run_cold_def Let_def
    by (intro down course rests_intros; simp add: goes_def)
qed

section \<open>A live migration\<close>

lemma moves_cutover:
  "moves True {PhaseSnapshot, PhaseVerifyingDisk} (cutover e r fresh name deltas) (\<lambda>_. {PhaseVerifyingConfig}) undoable"
proof -
  have down: "moves True {PhaseCutover} (shutdown e fresh (liveGuard e r name deltas)) (\<lambda>_. {PhaseShutdown, PhaseCutover}) undoable"
    by (rule moves_shutdown [OF quiet_liveGuard]) simp_all
  show ?thesis
    unfolding cutover_def copy_delta_def Let_def
    by (intro moves_seq [OF down] course rests_intros moves_rests [OF rests_updates(1)]; simp add: goes_def)
qed

lemma moves_mergeCopy: "moves True {PhaseVerifyingConfig} (mergeCopy e r name) (\<lambda>_. {PhaseConsolidating}) undoable"
  unfolding mergeCopy_def Let_def
  by (intro course rests_intros moves_rests [where m = "merged e' i p names" for e' i p names]; simp add: goes_def)

lemma moves_live_after: "moves True {PhaseCommit} (live_after e r name) (\<lambda>_. {PhaseConsolidating}) under_way"
proof -
  have power: "moves True {PhaseCommit} (if b then powerOn e else ret ()) (\<lambda>_. {PhaseCommit, PhasePowerOn}) under_way" for b
    by (intro moves_if moves_ret moves_conseq [OF moves_powerOn [where E = under_way]]; simp)
  show ?thesis
    unfolding live_after_def Let_def
    by (intro moves_seq [OF power] course rests_intros; simp add: goes_def)
qed

text \<open>
  How the clone of a disk ends: without an error, verified; with one, where the source can be restored, unless a clone may still be running.
\<close>

definition disk_end :: "err option \<times> bool \<Rightarrow> Phase set" where
  "disk_end x = (if fst x = None then (if snd x then {} else {PhaseSnapshot, PhaseVerifyingDisk}) else if snd x then under_way else undoable)"

lemma disk_end_simps [simp]:
  "disk_end (None, True) = {}" "disk_end (None, False) = {PhaseSnapshot, PhaseVerifyingDisk}"
  "disk_end (Some c, True) = under_way" "disk_end (Some c, False) = undoable"
  by (simp_all add: disk_end_def)

lemma moves_verify_live:
  "moves True {PhaseCloning} (bind (attempt (seq (j_phase h PhaseVerifyingDisk m)
      (seq (wrap_error t (verifyDisk h d)) (sameCID e d)))) (\<lambda>verified. ret (error_of verified, False))) disk_end under_way"
proof (rule moves_bind)
  show "moves True {PhaseCloning} (attempt (seq (j_phase h PhaseVerifyingDisk m) (seq (wrap_error t (verifyDisk h d)) (sameCID e d))))
      (\<lambda>r. case r of Inl _ \<Rightarrow> {PhaseVerifyingDisk} | Inr _ \<Rightarrow> {PhaseVerifyingDisk}) under_way"
    by (rule moves_attempt_within, rule seq_phase, simp add: goes_def, rule moves_rests [OF rests_seq], intro rests_intros) (simp_all add: rests_intros)
  show "moves True (case r of Inl _ \<Rightarrow> {PhaseVerifyingDisk} | Inr _ \<Rightarrow> {PhaseVerifyingDisk}) (ret (error_of r, False)) disk_end under_way"
    for r :: "unit result"
    by (cases r) (auto intro!: moves_ret)
qed

lemma moves_clone_live_disk:
  "moves True (disk_end (None, pending)) (clone_live_disk e r name deltas pending x) disk_end under_way"
proof (cases pending)
  case False
  let ?P = "{PhaseSnapshot, PhaseVerifyingDisk}"
  have start: "moves True ?P (attempt (bind (j_stopRequested h) (\<lambda>stop. seq (require (\<not> stop) Stopped) (seq (liveGuard e r name deltas)
      (j_update_at h (start_disk m k d)))))) (\<lambda>y. case y of Inl _ \<Rightarrow> ?P | Inr _ \<Rightarrow> {PhaseCloning}) under_way" for h :: "'a host" and m k d
    by (rule moves_attempt_within [rotated], simp, (intro course moves_start_disk rests_intros; simp add: goes_def))
  have exit: "moves True (ended_in {PhaseUnknown} (exited, er)) (case er of Some c \<Rightarrow> ret (Some c, \<not> exited)
      | None \<Rightarrow> bind (attempt (seq (j_phase h PhaseVerifyingDisk m) (seq (wrap_error t (verifyDisk h d)) (sameCID e d))))
          (\<lambda>verified. ret (error_of verified, \<not> exited))) disk_end under_way" for exited er m t d and h :: "'a host"
    using moves_verify_live [of h m t d e] by (cases er; cases exited) (auto simp: moves_nowhere intro!: moves_ret)
  have cases: "moves True (case y of Inl _ \<Rightarrow> ?P | Inr _ \<Rightarrow> {PhaseCloning}) (case y of Inl c \<Rightarrow> ret (Some c, False) | Inr _ \<Rightarrow> k) disk_end under_way"
    if "moves True {PhaseCloning} k disk_end under_way" for y :: "unit result" and k :: "('a, err option \<times> bool) M"
    using that by (cases y) (auto intro!: moves_ret)
  show ?thesis
    unfolding clone_live_disk_def Let_def using False
    by simp (intro moves_bind [OF start] cases bind_rests [OF rests_attempt] rests_x moves_seq [OF moves_launched] moves_bind [OF moves_waitClone]
        moves_prod; simp add: exit)
qed (simp add: moves_nowhere)

lemma moves_clone_live: "moves True (disk_end (None, pending)) (clone_live e r name deltas pending xs) disk_end under_way"
proof (induction xs arbitrary: pending)
  case Nil
  show ?case by (simp add: moves_ret)
next
  case (Cons x xs)
  have rest: "moves True (disk_end (er, pending')) (case er of Some c \<Rightarrow> ret (Some c, pending') | None \<Rightarrow> clone_live e r name deltas pending' xs)
      disk_end under_way" for er pending'
    by (cases er) (simp_all add: moves_ret Cons.IH)
  show ?case
    unfolding clone_live.simps by (rule moves_bind [OF moves_clone_live_disk], rule moves_prod) (simp add: rest)
qed

text \<open>How the migration ends: done, past the point of no return, with a clone that may be running, or where the source can be restored.\<close>

definition close_in :: "live_end \<Rightarrow> Phase set" where
  "close_in x = (case x of (er, pending, committed) \<Rightarrow>
     if er = None then {PhaseCompleted} else if committed \<or> pending then under_way else undoable)"

lemma close_in_simps [simp]:
  "close_in (None, p, m) = {PhaseCompleted}" "close_in (Some c, True, m) = under_way" "close_in (Some c, p, True) = under_way"
  "close_in (Some c, False, False) = undoable"
  by (simp_all add: close_in_def)

lemma moves_live_close:
  "moves True {PhaseSnapshot, PhaseVerifyingDisk} (live_close e r fresh name deltas False) close_in under_way"
proof -
  let ?copy = "rq_Mode (rp_Request r) = modeCopy"
  let ?Q = "if ?copy then {PhaseConsolidating} else {PhaseCommit}"
  have switch: "moves True {PhaseVerifyingConfig} (if ?copy then seq (mergeCopy e r name) (archive_lock e r) else commit e r) (\<lambda>_. ?Q) undoable"
    by (simp add: moves_commit) (intro impI moves_seq [OF moves_mergeCopy] moves_rests [OF rests_archive]; simp)
  have end1: "moves True {PhaseSnapshot, PhaseVerifyingDisk}
      (attempt (seq (cutover e r fresh name deltas) (if ?copy then seq (mergeCopy e r name) (archive_lock e r) else commit e r)))
      (\<lambda>y. case y of Inl _ \<Rightarrow> undoable | Inr _ \<Rightarrow> ?Q) under_way"
    by (rule moves_attempt_within, rule moves_seq [OF moves_cutover switch]) (auto simp: over_def restorable_def)
  have done1: "moves True {PhaseConsolidating} (seq (j_update h (\<lambda>st. live_warning r name warning (completed m st))) (ret (None, False, True)))
      close_in under_way" for h :: "'a host" and m warning
    by (rule moves_seq [OF moves_updates(1) [where q = PhaseCompleted]], rule goes_path [where P = "{PhaseConsolidating}"])
      (auto simp: goes_def completed_def live_warning_def intro: moves_ret)
  have done2: "moves True {PhaseConsolidating} (seq (j_update h (completed m)) (ret (None, False, False))) close_in under_way"
    for h :: "'a host" and m
    by (rule moves_seq [OF moves_completed]) (simp_all add: goes_def moves_ret)
  have after: "moves True {PhaseCommit} (bind (attempt (live_after e r name)) (\<lambda>rest. case rest of
        Inl c \<Rightarrow> ret (Some c, False, True)
      | Inr warning \<Rightarrow> seq (j_update h (\<lambda>st. live_warning r name warning (completed m st))) (ret (None, False, True)))) close_in under_way" for h :: "'a host" and m
  proof (rule moves_bind [OF moves_attempt_within [OF moves_live_after order_refl]])
    fix y :: "string result"
    show "moves True (case y of Inl _ \<Rightarrow> under_way | Inr _ \<Rightarrow> {PhaseConsolidating}) (case y of Inl c \<Rightarrow> ret (Some c, False, True)
        | Inr warning \<Rightarrow> seq (j_update h (\<lambda>st. live_warning r name warning (completed m st))) (ret (None, False, True))) close_in under_way"
      by (cases y) (auto intro!: moves_ret done1)
  qed
  show ?thesis
    unfolding live_close_def Let_def
  proof (rule moves_bind [OF end1])
    fix y :: "unit result"
    show "moves True (case y of Inl _ \<Rightarrow> undoable | Inr _ \<Rightarrow> ?Q) (case y of Inl c \<Rightarrow> ret (Some c, False, False)
      | Inr _ \<Rightarrow> if ?copy then seq (j_update (eg_Host e) (completed copy_message)) (ret (None, False, False))
          else bind (attempt (live_after e r name)) (\<lambda>rest. case rest of
              Inl c \<Rightarrow> ret (Some c, False, True)
            | Inr warning \<Rightarrow> seq (j_update (eg_Host e) (\<lambda>s. live_warning r name warning (completed (move_message r) s)))
                (ret (None, False, True)))) close_in under_way"
      by (cases y) (auto intro!: moves_ret done2 after)
  qed
qed

lemma moves_live_body: "moves True {PhaseSnapshot} (live_body e r fresh name snap) close_in under_way"
proof -
  have close: "moves True (disk_end (er, pending)) (case er of Some c \<Rightarrow> ret (Some c, pending, False)
      | None \<Rightarrow> live_close e r fresh name deltas pending) close_in under_way" for er pending deltas
    by (cases er; cases pending) (auto simp: moves_nowhere moves_live_close intro!: moves_ret)
  have clones: "moves True {PhaseSnapshot} (bind (clone_live e r name deltas False (enumerate 0 (rp_Disks r))) (\<lambda>(er, pending).
      case er of Some c \<Rightarrow> ret (Some c, pending, False) | None \<Rightarrow> live_close e r fresh name deltas pending)) close_in under_way" for deltas
    by (rule moves_bind [OF moves_conseq [OF moves_clone_live [where pending = False] _ order_refl order_refl]], simp, rule moves_prod) (simp add: close)
  show ?thesis
    unfolding live_body_def
    by (intro bind_rests [OF rests_attempt] rests_intros moves_sum moves_ret clones; simp)
qed

lemma moves_live_deferred: "moves True (close_in x) (live_deferred e r name x) (\<lambda>_. {PhaseCompleted}) under_way"
proof -
  obtain er pending committed where x: "x = (er, pending, committed)" by (cases x) auto
  have tail: "moves True {PhaseRestoring} (bind (attempt (restoreSource e r name)) (\<lambda>back. case back of
      Inl rc \<Rightarrow> fail (g rc) | Inr _ \<Rightarrow> fail c)) (\<lambda>_. {PhaseCompleted}) under_way" for g c
  proof -
    have "rests True {PhaseRestoring} (restoreSource e r name) {PhaseRestoring}"
      unfolding restoreSource_def restore_target_def restore_registration_def Let_def by (intro rests_intros; simp)
    then show ?thesis by (intro bind_rests [OF rests_attempt] moves_sum moves_fail; simp)
  qed
  show ?thesis
    unfolding live_deferred_def x
    by (cases er; cases committed; cases pending)
      (auto intro!: moves_ret moves_fail seq_phase tail simp: goes_def over_def restorable_def)
qed

lemma moves_live: "moves True {PhaseQueued} (live e) (\<lambda>_. {PhaseCompleted}) under_way"
  unfolding live_def live_check_def Let_def
  by (intro course moves_bind [OF moves_live_body moves_live_deferred] rests_intros; simp add: goes_def)

section \<open>The end of a run\<close>

text \<open>What a run leaves behind: a job that is over, or a clone of which nothing is known.\<close>

definition at_rest :: "Phase set" where
  "at_rest = {p. over p \<or> p = PhaseUnknown}"

lemma in_at_rest [simp]: "p \<in> at_rest \<longleftrightarrow> over p \<or> p = PhaseUnknown"
  by (simp add: at_rest_def)

lemma moves_failed: "moves alive under_way (markFailed e c) (\<lambda>_. at_rest) under_way"
  unfolding markFailed_def
  by (rule moves_update) (auto simp: failed_state_def intro: here path_step fails)

lemma moves_stopped: "moves False under_way (stopped e) (\<lambda>_. at_rest) under_way"
proof -
  have stop: "moves False under_way (j_update h (stopped_state f)) (\<lambda>_. at_rest) under_way" for h :: "'a host" and f
    by (rule moves_update) (auto simp: stopped_state_def Let_def split: option.split intro: path_step stops)
  show ?thesis
    unfolding stopped_def Let_def by (intro bind_rests stop rests_intros; simp)
qed

lemma moves_restored: "moves True under_way (j_update h (restored_state c)) (\<lambda>_. at_rest) under_way"
  by (rule moves_update) (auto simp: restored_state_def intro: path_step rolls_back)

lemma moves_ended:
  assumes "moves alive {PhaseQueued} m (\<lambda>_. {PhaseCompleted}) under_way" and "\<And>c. moves alive under_way (g c) (\<lambda>_. at_rest) under_way"
  shows "moves alive {PhaseQueued} (bind (attempt m) (\<lambda>y. case y of Inr (_ :: unit) \<Rightarrow> ret () | Inl c \<Rightarrow> g c)) (\<lambda>_. at_rest) under_way"
proof (rule moves_bind [OF moves_attempt [OF assms(1)]])
  show "moves alive (case y of Inl _ \<Rightarrow> under_way | Inr _ \<Rightarrow> {PhaseCompleted}) (case y of Inr _ \<Rightarrow> ret () | Inl c \<Rightarrow> g c) (\<lambda>_. at_rest) under_way" for y :: "unit result"
    by (cases y) (auto intro!: moves_ret simp: assms(2) over_def)
qed

lemma moves_Run_cold: "moves False {PhaseQueued} (Run_cold e) (\<lambda>_. at_rest) under_way"
  unfolding Run_cold_def
  by (rule moves_ended [OF moves_run_cold]) (simp add: moves_stopped moves_failed)

lemma moves_runLive: "moves True {PhaseQueued} (runLive e) (\<lambda>_. at_rest) under_way"
  unfolding runLive_def
  by (rule moves_ended [OF moves_live]) (auto intro!: moves_option moves_restored moves_failed)

text \<open>A whole run of a job that has just been created, cold or live as its plan says.\<close>

lemma begun_at: "at alive {PhaseQueued} (begun w r t t')"
  by (simp add: at_def on_course_def phases_def phase_of_def begun_def NewJob_def here)

lemma run_on_course:
  fixes e :: "'w engine"
  shows "case Run e (begun w r t t') of (outcome, s) \<Rightarrow>
    on_course (rq_Live (rp_Request r)) s \<and> phase_of s \<in> (case outcome of Inr _ \<Rightarrow> at_rest | Inl _ \<Rightarrow> under_way)"
proof -
  have run: "Run e (begun w r t t') = (if rq_Live (rp_Request r) then runLive e else Run_cold e) (begun w r t t')"
    by (simp add: Run_def bind_def j_plan_def on_job_def begun_def NewJob_def)
  have "moves (rq_Live (rp_Request r)) {PhaseQueued} (if rq_Live (rp_Request r) then runLive e else Run_cold e) (\<lambda>_. at_rest) under_way"
    by (simp add: moves_runLive moves_Run_cold)
  from this [unfolded moves_def hoare_def, rule_format, OF begun_at, of w r t t'] show ?thesis
    unfolding run by (auto simp: at_def split: prod.splits sum.splits)
qed

section \<open>The properties\<close>

text \<open>The phases of a run, oldest first: that of a new job, those in which it called the host, and the last one.\<close>

definition shown_phases :: "'w engine \<Rightarrow> 'w \<Rightarrow> Report \<Rightarrow> int \<Rightarrow> int \<Rightarrow> Phase list" where
  "shown_phases e w r t t' = (let s = snd (Run e (begun w r t t')) in
     PhaseQueued # rev (map (\<lambda>(st, c). js_Phase st) (s_trace s)) @ [js_Phase (jb_state (s_job s))])"

lemma shown_phases_rev: "shown_phases e w r t t' = rev (phases (snd (Run e (begun w r t t'))))"
  by (simp add: shown_phases_def phases_def phase_of_def Let_def)

text \<open>
  C11: a run implements the phase machine. Whatever ESXi answers and the operator does, each phase that a cold or live migration shows can be
  reached from every phase that it showed before, by steps of the machine, so that it never goes back to an earlier stage; and a run that
  ends leaves its job completed, failed, stopped or rolled back, or with a clone of which nothing is known.
\<close>

theorem phases_follow_machine:
  "sorted_wrt (phase_path (rq_Live (rp_Request r))) (shown_phases e w r t t') \<and>
   sorted (map (stage (rq_Live (rp_Request r))) (shown_phases e w r t t')) \<and>
   (case fst (Run e (begun w r t t')) of
      Inr _ \<Rightarrow> last (shown_phases e w r t t') \<in> {PhaseCompleted, PhaseFailed, PhaseStopped, PhaseRolledBack, PhaseUnknown}
    | Inl _ \<Rightarrow> \<not> over (last (shown_phases e w r t t')))"
proof -
  have c: "on_course (rq_Live (rp_Request r)) (snd (Run e (begun w r t t')))"
    and p: "phase_of (snd (Run e (begun w r t t'))) \<in> (case fst (Run e (begun w r t t')) of Inr _ \<Rightarrow> at_rest | Inl _ \<Rightarrow> under_way)"
    using run_on_course [where e = e and w = w and r = r and t = t and t' = t'] by (auto split: prod.splits)
  from c have path: "sorted_wrt (phase_path (rq_Live (rp_Request r))) (shown_phases e w r t t')"
    unfolding shown_phases_rev sorted_wrt_rev on_course_def by blast
  moreover have "sorted (map (stage (rq_Live (rp_Request r))) (shown_phases e w r t t'))"
    unfolding sorted_wrt_map using path by (rule sorted_wrt_mono_rel [rotated]) (rule stage_path)
  moreover have "last (shown_phases e w r t t') = phase_of (snd (Run e (begun w r t t')))"
    by (simp add: shown_phases_def phase_of_def Let_def)
  ultimately show ?thesis using p by (auto simp: over_def split: sum.splits)
qed

text \<open>
  C12: what a run does to the host, it does in a phase that says so. Every call of a run, cold or live, fits the phase that the operator saw
  when it was made (\<open>fits\<close>): the VM is registered and unregistered, powered on, and its snapshots merged, only in the phases for it; and in
  a phase in which the operator can still stop the migration, none of this is done, and nothing of the target's configuration is written.
\<close>

theorem calls_fit_phases:
  "list_all (\<lambda>(st, c). fits (rq_Live (rp_Request r)) (js_Phase st) c) (run_of (Run e) w r t t') \<and>
   list_all (\<lambda>(st, c). \<not> (irrevocable c \<and> stoppable (js_Phase st))) (run_of (Run e) w r t t')"
proof -
  have fit: "list_all (\<lambda>(st, c). fits (rq_Live (rp_Request r)) (js_Phase st) c) (run_of (Run e) w r t t')"
    using run_on_course [where e = e and w = w and r = r and t = t and t' = t'] by (auto simp: on_course_def run_of_def split: prod.splits)
  then show ?thesis
    by (auto simp: list_all_iff dest!: bspec stoppable_harmless)
qed

end
