(* ===== verification/Spec2Isabelle.thy ===== *)
theory Spec2Isabelle
  imports Operator_Safety Force_Safety Switch_Safety Commit_Safety Clone_Untouched Run_Ends Outcomes Registration_Switch Ssh_Engine Ssh_Dial Web_Safety Program Phase_Safety
begin

text \<open>
  ESXi Mover copies or moves a virtual machine to another datastore of a standalone ESXi host. It is a web server that an operator
  signs in to; it connects to ESXi by SSH, analyzes a VM, and then runs one migration at a time: cold, with the VM off, or
  live, with the disks cloned behind a snapshot and a short cut-over. Its promise is that a mistake, a lost connection or a crash
  never costs data: the source files are never deleted, a running VM's disks are never cloned as if it were off, two registrations of one
  VM never exist, and what cannot be determined is left alone and reported. This development models the whole program and proves what of that
  promise its code can keep.

  \<^item> The parts and their theories.

  Go itself. \<open>Prelude\<close> has the error values (\<open>Wrapped\<close> and \<open>Stopped\<close> for \<open>errors.Is\<close> and \<open>errors.As\<close>), results as sums, and Go
  maps as association lists with distinct keys, whose order is the unspecified iteration order. \<open>Go_Strings\<close> (\<open>strings\<close>, \<open>strconv\<close>,
  \<open>bufio.Scanner\<close>, UTF-8), \<open>Go_Path\<close> (\<open>path\<close>), \<open>Go_Regexp\<close> (\<open>regexp\<close>, leftmost-first) and \<open>Go_Sha256\<close> are the parts of the
  standard library that the code uses, executable and with the facts that the components need. A Go string is a list of bytes; \<open>int\<close>
  and \<open>int64\<close> are integers with the range checks and the overflows written out; SHA-256 works on 32-bit words.

  Files. \<open>Vmx\<close> and \<open>Vmx_Analyzer\<close> (\<open>internal/vmx/parser.go\<close>, \<open>analyzer.go\<close>), \<open>Vmxf\<close> (\<open>vmxf.go\<close>, over the tokens of
  \<open>encoding/xml\<close>) and \<open>Vmdk\<close> (\<open>internal/vmdk/descriptor.go\<close>) parse, print, analyze and rewrite a VM's files.

  Answers of ESXi. \<open>Esxi_Inventory\<close> (\<open>internal/esxi/inventory.go\<close>) has VMs, datastores, paths and references; \<open>Esxi_Output\<close> the
  other parsers (\<open>vm.go\<close>, \<open>snapshot.go\<close>, \<open>autostart.go\<close>, \<open>running.go\<close>, \<open>detached.go\<close>); \<open>Shell\<close> the quoting of command lines
  (\<open>executor.go\<close>) against the words a POSIX shell reads.

  The migration (\<open>internal/migration\<close>). \<open>Migration_Types\<close> (\<open>types.go\<close>), \<open>Snapshot_Checks\<close> (\<open>snapshot.go\<close>), \<open>Advice\<close> (\<open>advice.go\<close> and
  \<open>external.go\<close>) and \<open>Analyzer\<close> (\<open>analyzer.go\<close>, \<open>external.go\<close> and the space checks of \<open>live.go\<close>) make a report out of a VM. \<open>Job\<close>
  (\<open>state.go\<close>) is the state that a run and the operator share. \<open>Host\<close> is the management boundary, the interface \<open>Host\<close> of \<open>types.go\<close>, and the
  monad in which the engine runs. \<open>Verify\<close> (\<open>verify.go\<close>), \<open>Engine\<close> (\<open>engine.go\<close>) and \<open>Live\<close> (\<open>live.go\<close>) are the run, step for step: \<open>run_cold\<close>,
  \<open>live\<close> with its deferred end, \<open>commit\<close>, \<open>powerOn\<close>, \<open>Rollback\<close>, the waits for a clone and for the shutdown.

  The client. \<open>Esxi_Client\<close> is \<open>Client\<close> of \<open>internal/esxi\<close>: each operation with the script that it sends, its guards, and what it
  makes of the answer. \<open>Audit_Log\<close> is its log of commands (\<open>Audit\<close> in \<open>executor.go\<close>). \<open>Ssh_Executor\<close> (\<open>ssh.go\<close>) runs its commands over one
  pooled connection, and \<open>Ssh_Dial\<close> makes that connection.

  The server. \<open>Web_Server\<close> (\<open>internal/web/server.go\<close>) has the filter, the routes, sign-in, sessions and every handler.
  \<open>Tls_Certificate\<close> (\<open>internal/web/tls.go\<close>) is its certificate. \<open>Program\<close> (\<open>cmd/esxi-mover/main.go\<close>) is \<open>main\<close>, from the flags to the end of the
  server, and the IDs that the program draws.

  \<^item> State, time and the world outside.

  The engine runs in a state of four parts: the world behind the host, the job, the operator's granted but unsent actions, and a trace of
  the calls made, each with the job's state at that moment. The code never reads the trace: the theorems do. A host is a record of functions
  from a world to an answer and a next world, for any type of worlds, so a theorem for all hosts holds whatever ESXi answers, at any time, with any
  connection lost. A call gives its result or an error. The operator acts between any two steps of the engine: every operation that takes the
  job's mutex first lets the requests that have arrived act, and a wait for the operator reads the requests that wake it. The client is such a host
  (\<open>client_host\<close>), and the SSH executor such an executor (\<open>ssh_executor\<close>), each over a world of its own.

  The web server is a state of sessions, clients and jobs in stores, where a Go pointer is an index. A handler that waits for ESXi is two
  steps, so other requests and the engine come between; \<open>web_step\<close> is that interleaving.

  Loops over data are recursive functions. Four loops may wait, and take fuel: \<open>wait_loop\<close>, \<open>power_loop\<close>, \<open>shutdown_loop\<close> and
  \<open>await_action\<close>; running out of it is a result of its own, \<open>OutOfFuel\<close>, that no handler catches. \<open>waits_end\<close> shows that one round more than a
  timeout has polling intervals is enough for the waits with a deadline, and \<open>run_ends\<close> that a whole run then ends, or is waiting for the shutdown, which has none. For
  \<open>freeName\<close>, \<open>otherChain\<close> and the scanner, the bound is that of the code or of the data.

  \<^item> What is shown.

  Reasoning. \<open>Host_Rules\<close> has triples for the engine's monad, with errors and fuel, and \<open>quiet\<close>, code that only reads. \<open>Run_Rules\<close> has the
  contract \<open>run_law\<close>: an invariant that every kind of step keeps is kept by every run. \<open>Engine_Laws\<close> says which calls each part of the engine
  makes. \<open>World_Law\<close> is the contract of a host, and of an engine on it, for facts of the world behind them. The safety theories are
  interpretations of these contracts.

  Migrations, for every host and every operator: \<open>Clone_Untouched\<close> (a clone whose end was not seen is left alone), \<open>Cold_Safety\<close> (disks of a cold
  migration are cloned only when ESXi has just said off), \<open>Switch_Safety\<close> and \<open>Commit_Safety\<close> (what is registered, and when), \<open>Operator_Safety\<close> and
  \<open>Force_Safety\<close> (a stop is final; a force-off was confirmed), \<open>Outcomes\<close> (what is true when a migration or a merge says it is done),
  \<open>Registration_Switch\<close> (the exact calls, with the answers of every reading, of a commit and of a rollback that give no error), \<open>Clocks\<close> and
  \<open>Run_Ends\<close> (it ends, and its job is complete). \<open>Phase_Machine\<close> is the specification of what the operator sees: which phase may follow which, and
  what belongs to each; \<open>Phase_Rules\<close> is the logic, and \<open>Phase_Safety\<close> the proof, that the engine implements it. \<open>Sample_Host\<close> is a small ESXi on which the witnesses run.

  Commands: \<open>Client_Safety\<close> lists the exact commands that the client can send, word by word, with what was read before each; \<open>Client_Engine\<close>
  carries that to whole migrations. \<open>Shell_Reader\<close> reads scripts as a shell does, with \<open>deletes_nothing\<close> for what runs only programs that delete nothing, and
  \<open>Client_Safety\<close> shows that of all commands of a client that is asked to list and to check absolute paths. \<open>Ssh_Safety\<close>: only to the confirmed host, at most
  once, and what is then returned is the output, whole, or the one error that fits how the command ended; and no secret in a message.
  \<open>Ssh_Engine\<close> puts engine, client and executor together: a whole migration reaches no host but the confirmed one.

  The server: \<open>Web_Safety\<close> has the invariant of \<open>web_step\<close> (one operation at a time, the client of a running migration stays open, bounded
  sessions and guesses), what a start needs, and what a request needs to reach a handler.

  The analysis: \<open>analysis_verdict\<close> in \<open>Analyzer\<close> (it only reads, and a report is ready exactly if no row blocks; then it is a plan with disks, without colliding
  files, and with the space it needs).

  Parsers: round trips, exact bounds and the shape of what is accepted are beside each of them. \<open>unblocked_disks_complete\<close> and
  \<open>vmsd_names_no_snapshot\<close> say in equivalences which configurations and which snapshot metadata are accepted, setting by setting;
  \<open>reference_can_leave_datastore\<close> shows a gap in \<open>ValidPath\<close>: a bracketed reference that begins with two dots resolves outside its datastore.

  \<^item> Not modelled.

  The network, TLS and the SSH protocol: TCP connections and \<open>golang.org/x/crypto/ssh\<close> are the parameters \<open>wire\<close> and \<open>network\<close>, of which
  \<open>only_pinned_host\<close> assumes that a handshake succeeds only with a key that its callback accepted; \<open>over_wire_checks\<close> shows that \<open>dial\<close> keeps that promise of
  \<open>ssh.NewClientConn\<close>. Key generation and the signing of certificates (\<open>crypto/x509\<close>) are the parameter \<open>crypto\<close>, and the listening socket of \<open>net/http\<close> is an
  argument of \<open>main\<close>. The tokenizer of \<open>encoding/xml\<close> and the decoding of
  \<open>encoding/json\<close> are arguments; so are random bytes and readings of the clock. The bytes of HTTP responses, security headers and the embedded interface are left out.
  Letter case is ASCII (\<open>to_lower\<close>, \<open>equal_fold\<close>): the names that it is applied to are. Goroutines interleave at mutexes, not within the code that one
  protects. What ESXi makes of the commands is not modelled: the theorems speak of what is sent, and of what was answered.
\<close>

end
